theory Spec2Isabelle
  imports Complex_Main "HOL-Library.Word"
begin

section \<open>Values read from the two data sources\<close>

text \<open>
  The scripts handle IEEE floating-point numbers: the float32 values unpacked from the
  chunk file and the coordinate arrays of the dataset.  A value is a finite number,
  one of the two infinities, or NaN.  A finite value is a real number.  The tests of a
  value against the missing-value marker \<open>-99.99\<close> and the store into a float32
  array round as the code does (section IEEE 754 rounding below); the comparisons of
  coordinates with the bounding box and the distances to a target coordinate are
  taken exactly.
\<close>

datatype pyfloat = Fin real | PInf | NInf | NaN

text \<open>\<^verbatim>\<open>v + c\<close> and \<^verbatim>\<open>v - c\<close> for a finite constant \<open>c\<close>, and \<^verbatim>\<open>abs(v)\<close>.\<close>

fun py_add :: "pyfloat \<Rightarrow> real \<Rightarrow> pyfloat" where
  "py_add (Fin x) c = Fin (x + c)"
| "py_add PInf c = PInf"
| "py_add NInf c = NInf"
| "py_add NaN c = NaN"

fun py_sub :: "pyfloat \<Rightarrow> real \<Rightarrow> pyfloat" where
  "py_sub (Fin x) c = Fin (x - c)"
| "py_sub PInf c = PInf"
| "py_sub NInf c = NInf"
| "py_sub NaN c = NaN"

fun py_abs :: "pyfloat \<Rightarrow> pyfloat" where
  "py_abs (Fin x) = Fin \<bar>x\<bar>"
| "py_abs PInf = PInf"
| "py_abs NInf = PInf"
| "py_abs NaN = NaN"

text \<open>
  Comparisons of a value with a finite constant.  Every ordered comparison with NaN is
  false, and NaN is the one value that is not equal to itself.
\<close>

fun py_lt :: "pyfloat \<Rightarrow> real \<Rightarrow> bool" where
  "py_lt (Fin x) c = (x < c)"
| "py_lt PInf c = False"
| "py_lt NInf c = True"
| "py_lt NaN c = False"

fun py_gt :: "pyfloat \<Rightarrow> real \<Rightarrow> bool" where
  "py_gt (Fin x) c = (x > c)"
| "py_gt PInf c = True"
| "py_gt NInf c = False"
| "py_gt NaN c = False"

fun py_le :: "pyfloat \<Rightarrow> real \<Rightarrow> bool" where
  "py_le (Fin x) c = (x \<le> c)"
| "py_le PInf c = False"
| "py_le NInf c = True"
| "py_le NaN c = False"

fun py_ge :: "pyfloat \<Rightarrow> real \<Rightarrow> bool" where
  "py_ge (Fin x) c = (x \<ge> c)"
| "py_ge PInf c = True"
| "py_ge NInf c = False"
| "py_ge NaN c = False"

fun py_eq :: "pyfloat \<Rightarrow> pyfloat \<Rightarrow> bool" where
  "py_eq NaN w = False"
| "py_eq v NaN = False"
| "py_eq v w = (v = w)"

definition py_ne :: "pyfloat \<Rightarrow> pyfloat \<Rightarrow> bool" where
  "py_ne v w = (\<not> py_eq v w)"

section \<open>IEEE 754 rounding\<close>

text \<open>
  The position of the leading binary digit of a positive number: \<open>ilog2 x\<close> is the
  integer \<open>e\<close> with \<open>2 ^ e \<le> x < 2 ^ (e + 1)\<close>, found by halving or doubling.
\<close>

function halvings :: "real \<Rightarrow> int" where
  "halvings x = (if x < 2 then 0 else 1 + halvings (x / 2))"
  by pat_completeness auto
termination
proof (relation "measure (\<lambda>x. nat \<lceil>x\<rceil>)")
  show "wf (measure (\<lambda>x. nat \<lceil>x\<rceil>))" by (rule wf_measure)
next
  fix x :: real
  assume a: "\<not> x < 2"
  then have "x / 2 \<le> x - 1" by simp
  then have "\<lceil>x / 2\<rceil> \<le> \<lceil>x - 1\<rceil>" by (rule ceiling_mono)
  then have "\<lceil>x / 2\<rceil> < \<lceil>x\<rceil>" by simp
  moreover have "0 < \<lceil>x\<rceil>" using a by simp
  ultimately have "nat \<lceil>x / 2\<rceil> < nat \<lceil>x\<rceil>" by simp
  then show "(x / 2, x) \<in> measure (\<lambda>x. nat \<lceil>x\<rceil>)" by (simp only: in_measure)
qed

function doublings :: "real \<Rightarrow> int" where
  "doublings x = (if 1 \<le> x \<or> x \<le> 0 then 0 else 1 + doublings (2 * x))"
  by pat_completeness auto
termination
proof (relation "measure (\<lambda>x. nat \<lceil>1 / x\<rceil>)")
  show "wf (measure (\<lambda>x. nat \<lceil>1 / x\<rceil>))" by (rule wf_measure)
next
  fix x :: real
  assume a: "\<not> (1 \<le> x \<or> x \<le> 0)"
  then have x: "0 < x" "x < 1" by simp_all
  define t where "t = 1 / x"
  have t: "1 < t" using x by (simp add: t_def)
  have h: "1 / (2 * x) = t / 2" by (simp add: t_def)
  have "\<lceil>t / 2\<rceil> < \<lceil>t\<rceil>"
  proof (cases "2 \<le> t")
    case True
    then have "t / 2 \<le> t - 1" by simp
    then have "\<lceil>t / 2\<rceil> \<le> \<lceil>t - 1\<rceil>" by (rule ceiling_mono)
    then show ?thesis by simp
  next
    case False
    then have "t / 2 \<le> 1" by simp
    then have "\<lceil>t / 2\<rceil> \<le> 1" by (simp only: ceiling_le_one)
    moreover have "1 < \<lceil>t\<rceil>" using t by (simp only: one_less_ceiling)
    ultimately show ?thesis by (rule le_less_trans)
  qed
  moreover have "0 < \<lceil>t\<rceil>" using t by (simp only: zero_less_ceiling)
  ultimately have "nat \<lceil>t / 2\<rceil> < nat \<lceil>t\<rceil>" by (simp only: nat_less_eq_zless nat_mono_iff)
  then show "(2 * x, x) \<in> measure (\<lambda>x. nat \<lceil>1 / x\<rceil>)" by (simp only: in_measure h t_def)
qed

declare halvings.simps [simp del] doublings.simps [simp del]

definition ilog2 :: "real \<Rightarrow> int" where
  "ilog2 x = (if 1 \<le> x then halvings x else - doublings x)"

text \<open>Rounding to the nearest integer, a tie going to the even one.\<close>

definition round_half_even :: "real \<Rightarrow> int" where
  "round_half_even x =
     (let n = \<lfloor>x\<rfloor>; d = x - of_int n
      in if d < 1 / 2 then n else if 1 / 2 < d then n + 1 else if even n then n else n + 1)"

text \<open>
  Rounding a real number to the nearest number of a binary format with \<open>p\<close>
  significant bits and least exponent \<open>emin\<close> (below it the numbers are subnormal),
  and the value of the format that results: an infinity when the rounded number
  exceeds the largest finite one, whose exponent is \<open>emax\<close>.  Signed zeros are not
  distinguished.
\<close>

definition round_to_format :: "nat \<Rightarrow> int \<Rightarrow> real \<Rightarrow> real" where
  "round_to_format p emin x =
     (if x = 0 then 0
      else let e = max (ilog2 \<bar>x\<bar>) emin;
               q = 2 powi (e - (int p - 1))
           in sgn x * (of_int (round_half_even (\<bar>x\<bar> / q)) * q))"

definition ieee_round :: "nat \<Rightarrow> int \<Rightarrow> int \<Rightarrow> real \<Rightarrow> pyfloat" where
  "ieee_round p emin emax x =
     (let r = round_to_format p emin x
      in if 2 powi (emax + 1) \<le> \<bar>r\<bar> then (if 0 < x then PInf else NInf) else Fin r)"

text \<open>binary64, the format of a Python float, and binary32, numpy's float32.\<close>

definition float64 :: "real \<Rightarrow> pyfloat" where
  "float64 = ieee_round 53 (- 1022) 1023"

definition float32 :: "real \<Rightarrow> pyfloat" where
  "float32 = ieee_round 24 (- 126) 127"

text \<open>
  The double that a decimal literal of the source denotes, for literals within the
  range of the format.
\<close>

definition literal :: "real \<Rightarrow> real" where
  "literal x = round_to_format 53 (- 1022) x"

text \<open>\<^verbatim>\<open>v + c\<close> on Python floats: the sum rounded to a double.\<close>

fun float_add :: "pyfloat \<Rightarrow> real \<Rightarrow> pyfloat" where
  "float_add (Fin x) c = float64 (x + c)"
| "float_add PInf c = PInf"
| "float_add NInf c = NInf"
| "float_add NaN c = NaN"

text \<open>\<^verbatim>\<open>np.float32(v)\<close>, the conversion that storing into a float32 array performs.\<close>

fun np_float32 :: "pyfloat \<Rightarrow> pyfloat" where
  "np_float32 (Fin x) = float32 x"
| "np_float32 PInf = PInf"
| "np_float32 NInf = NInf"
| "np_float32 NaN = NaN"

text \<open>\<^verbatim>\<open>a + c\<close> on an element of a float32 array and a Python float: float32 arithmetic.\<close>

fun float32_add :: "pyfloat \<Rightarrow> real \<Rightarrow> pyfloat" where
  "float32_add (Fin x) c = float32 (x + c)"
| "float32_add PInf c = PInf"
| "float32_add NInf c = NInf"
| "float32_add NaN c = NaN"

definition literal32 :: "real \<Rightarrow> real" where
  "literal32 x = round_to_format 24 (- 126) (literal x)"

section \<open>check\_chunk.py: the three counts\<close>

text \<open>
  Lines 9 to 11 of check\_chunk.py, each \<^verbatim>\<open>sum(1 for v in vals if ...)\<close> over the
  tuple of unpacked values.  The values are Python floats, so \<^verbatim>\<open>v + 99.99\<close> is a
  double addition and \<^verbatim>\<open>99.99\<close> and \<^verbatim>\<open>0.01\<close> are the doubles nearest to these
  decimals.
\<close>

definition count_missing :: "pyfloat list \<Rightarrow> nat" where
  "count_missing vals =
     length (filter (\<lambda>v. py_lt (py_abs (float_add v (literal 99.99))) (literal 0.01)) vals)"

definition count_nan :: "pyfloat list \<Rightarrow> nat" where
  "count_nan vals = length (filter (\<lambda>v. py_ne v v) vals)"

definition count_valid :: "pyfloat list \<Rightarrow> nat" where
  "count_valid vals =
     length (filter (\<lambda>v. py_eq v v
        \<and> py_gt (py_abs (float_add v (literal 99.99))) (literal 0.01)) vals)"

text \<open>\<^verbatim>\<open>x >= y\<close> for two values.\<close>

fun py_fge :: "pyfloat \<Rightarrow> pyfloat \<Rightarrow> bool" where
  "py_fge NaN y = False"
| "py_fge x NaN = False"
| "py_fge PInf y = True"
| "py_fge x NInf = True"
| "py_fge (Fin x) (Fin y) = (x \<ge> y)"
| "py_fge (Fin x) PInf = False"
| "py_fge NInf y = False"

section \<open>Errors\<close>

text \<open>The exceptions that the scripts can raise; an uncaught one ends the process.\<close>

datatype py_error =
    FileNotFoundError
  | KeyError
  | AttributeError
  | IndexError
  | ValueError
  | StructError
  | ZeroDivisionError
  | UnsupportedOperation

section \<open>The library operations the scripts call\<close>

text \<open>
  \<^verbatim>\<open>np.where(condition)[0]\<close>: the indices at which a one-dimensional boolean array is
  true, in increasing order.
\<close>

definition np_where :: "bool list \<Rightarrow> nat list" where
  "np_where condition = filter (\<lambda>i. condition ! i) [0..<length condition]"

text \<open>
  \<^verbatim>\<open>np.argmin(a)\<close> for a one-dimensional array: the index of the first minimum.
  An empty array raises ValueError.  The scan keeps the running minimum \<open>mp\<close> and
  its index; an element replaces it when \<^verbatim>\<open>!(x >= mp)\<close>, and the scan stops at
  the first NaN, which is therefore the result when the array holds one.
\<close>

fun argmin_from :: "pyfloat list \<Rightarrow> nat \<Rightarrow> nat \<Rightarrow> pyfloat \<Rightarrow> nat" where
  "argmin_from [] i min_ind mp = min_ind"
| "argmin_from (x # xs) i min_ind mp =
     (if mp = NaN then min_ind
      else if \<not> py_fge x mp then argmin_from xs (i + 1) i x
      else argmin_from xs (i + 1) min_ind mp)"

fun np_argmin :: "pyfloat list \<Rightarrow> py_error + nat" where
  "np_argmin [] = Inl ValueError"
| "np_argmin (x # xs) = Inr (argmin_from xs 1 0 x)"

text \<open>
  \<^verbatim>\<open>np.argmin(np.abs(a - target))\<close>, the expression by which every script finds the
  grid cell nearest to a target coordinate.
\<close>

definition argmin_abs_diff :: "pyfloat list \<Rightarrow> real \<Rightarrow> py_error + nat" where
  "argmin_abs_diff a target = np_argmin (map (\<lambda>x. py_abs (py_sub x target)) a)"

text \<open>
  \<^verbatim>\<open>data[start:stop]\<close> on a bytes object or a tuple, for the non-negative bounds
  that the scripts use: the slice is clipped to the data and is empty when
  \<open>stop \<le> start\<close>.
\<close>

definition py_slice :: "'a list \<Rightarrow> nat \<Rightarrow> nat \<Rightarrow> 'a list" where
  "py_slice data start stop = take (stop - start) (drop start data)"

text \<open>
  A little-endian IEEE 754 binary32 value from its four bytes.  Decoding is exact:
  every finite float32 is a rational number.
\<close>

type_synonym byte = "8 word"

definition f32_of_bits :: "nat \<Rightarrow> pyfloat" where
  "f32_of_bits n =
     (let s = n div 2 ^ 31;
          e = (n div 2 ^ 23) mod 2 ^ 8;
          m = n mod 2 ^ 23;
          sgn = (if s = 0 then 1 else - 1 :: real)
      in if e = 255 then (if m = 0 then (if s = 0 then PInf else NInf) else NaN)
         else if e = 0 then Fin (sgn * real m / 2 ^ 149)
         else if e \<ge> 150 then Fin (sgn * real (2 ^ 23 + m) * 2 ^ (e - 150))
         else Fin (sgn * real (2 ^ 23 + m) / 2 ^ (150 - e)))"

fun f32_le :: "byte list \<Rightarrow> pyfloat" where
  "f32_le [b0, b1, b2, b3] =
     f32_of_bits (unat b0 + 2 ^ 8 * unat b1 + 2 ^ 16 * unat b2 + 2 ^ 24 * unat b3)"
| "f32_le bs = NaN"

text \<open>Consecutive groups of four bytes.\<close>

fun groups4 :: "'a list \<Rightarrow> 'a list list" where
  "groups4 (a # b # c # d # rest) = [a, b, c, d] # groups4 rest"
| "groups4 rest = []"

text \<open>
  \<^verbatim>\<open>struct.unpack(f'<{n}f', data)\<close>: the buffer must hold exactly \<open>4 * n\<close> bytes,
  otherwise struct.error is raised.
\<close>

definition struct_unpack_f :: "nat \<Rightarrow> byte list \<Rightarrow> py_error + pyfloat list" where
  "struct_unpack_f n data =
     (if length data = 4 * n then Inr (map f32_le (groups4 data)) else Inl StructError)"

section \<open>Bounding-box filtering of the grid\<close>

text \<open>
  verify\_coordinate\_mapping.py lines 20 to 31 and final\_diagnosis.py lines 15 to 23
  and 107 to 108.  The two scripts hold the same text; final\_diagnosis.py names the
  index arrays \<^verbatim>\<open>lon_indices_np\<close> and \<^verbatim>\<open>lat_indices_np\<close>.
\<close>

definition min_lon :: real where "min_lon = - 25.0"
definition max_lon :: real where "max_lon = 45.0"
definition min_lat :: real where "min_lat = 34.0"
definition max_lat :: real where "max_lat = 72.0"

definition lon_mask :: "pyfloat list \<Rightarrow> bool list" where
  "lon_mask lon_full = map (\<lambda>x. py_ge x min_lon \<and> py_le x max_lon) lon_full"

definition lat_mask :: "pyfloat list \<Rightarrow> bool list" where
  "lat_mask lat_full = map (\<lambda>x. py_ge x min_lat \<and> py_le x max_lat) lat_full"

definition lon_indices :: "pyfloat list \<Rightarrow> nat list" where
  "lon_indices lon_full = np_where (lon_mask lon_full)"

definition lat_indices :: "pyfloat list \<Rightarrow> nat list" where
  "lat_indices lat_full = np_where (lat_mask lat_full)"

definition lon_indices_np :: "pyfloat list \<Rightarrow> nat list" where
  "lon_indices_np lon_full = np_where (lon_mask lon_full)"

definition lat_indices_np :: "pyfloat list \<Rightarrow> nat list" where
  "lat_indices_np lat_full = np_where (lat_mask lat_full)"

text \<open>
  \<^verbatim>\<open>lon_full[lon_indices]\<close>: indexing by an index array.  The indices come from
  \<^verbatim>\<open>np.where\<close> on a mask of the same array, so each is in range (lemma
  \<open>np_where_in_range\<close> below) and the IndexError of an out-of-range index cannot
  occur.
\<close>

definition lon_filtered :: "pyfloat list \<Rightarrow> pyfloat list" where
  "lon_filtered lon_full = map (\<lambda>i. lon_full ! i) (lon_indices lon_full)"

definition lat_filtered :: "pyfloat list \<Rightarrow> pyfloat list" where
  "lat_filtered lat_full = map (\<lambda>i. lat_full ! i) (lat_indices lat_full)"

section \<open>The flattened coordinate index in the three scripts that compute one\<close>

text \<open>compare\_netcdf\_chunk.py line 83.\<close>

definition coord_index :: "nat \<Rightarrow> pyfloat list \<Rightarrow> nat \<Rightarrow> nat" where
  "coord_index lat_idx lon lon_idx = lat_idx * length lon + lon_idx"

text \<open>verify\_coordinate\_mapping.py line 75.\<close>

definition coord_idx_calculated :: "nat \<Rightarrow> pyfloat list \<Rightarrow> nat \<Rightarrow> nat" where
  "coord_idx_calculated filtered_lat_idx lon_filtered' filtered_lon_idx =
     filtered_lat_idx * length lon_filtered' + filtered_lon_idx"

text \<open>
  final\_diagnosis.py line 120; \<open>nlon\<close> is the first dimension of the transposed
  data block.
\<close>

definition coord_idx_berlin :: "nat \<Rightarrow> nat \<Rightarrow> nat \<Rightarrow> nat" where
  "coord_idx_berlin filtered_lat_idx nlon filtered_lon_idx =
     filtered_lat_idx * nlon + filtered_lon_idx"

text \<open>
  The two flattening conventions the specification names, as functions of the cell
  \<open>(lat_idx, lon_idx)\<close> on a grid of \<open>nlat\<close> by \<open>nlon\<close> cells.
\<close>

definition lat_major :: "nat \<Rightarrow> nat \<Rightarrow> nat \<Rightarrow> nat" where
  "lat_major nlon lat_idx lon_idx = lat_idx * nlon + lon_idx"

definition lon_major :: "nat \<Rightarrow> nat \<Rightarrow> nat \<Rightarrow> nat" where
  "lon_major nlat lat_idx lon_idx = lon_idx * nlat + lat_idx"

text \<open>
  compare\_netcdf\_chunk.py lines 71 to 83: from the coordinate arrays of the dataset
  to the flattened index of the cell nearest to the target.  The script fixes the
  target at 50.0 N, 10.0 E; here it is a parameter, so that two scripts can be run on
  the same location.
\<close>

definition compare_coord_index :: "real \<Rightarrow> real \<Rightarrow> pyfloat list \<Rightarrow> pyfloat list \<Rightarrow> py_error + nat" where
  "compare_coord_index target_lat target_lon lat lon =
     (case argmin_abs_diff lat target_lat of
        Inl e \<Rightarrow> Inl e
      | Inr lat_idx \<Rightarrow>
          (case argmin_abs_diff lon target_lon of
             Inl e \<Rightarrow> Inl e
           | Inr lon_idx \<Rightarrow> Inr (coord_index lat_idx lon lon_idx)))"

text \<open>
  verify\_coordinate\_mapping.py lines 24 to 31 and 64 to 75: the same for the grid
  filtered by the bounding box.  The script fixes the target at 52.5 N, 13.4 E.
\<close>

definition verify_coord_idx_calculated :: "real \<Rightarrow> real \<Rightarrow> pyfloat list \<Rightarrow> pyfloat list \<Rightarrow> py_error + nat" where
  "verify_coord_idx_calculated test_lat test_lon lat_full lon_full =
     (case argmin_abs_diff (lat_filtered lat_full) test_lat of
        Inl e \<Rightarrow> Inl e
      | Inr filtered_lat_idx \<Rightarrow>
          (case argmin_abs_diff (lon_filtered lon_full) test_lon of
             Inl e \<Rightarrow> Inl e
           | Inr filtered_lon_idx \<Rightarrow>
               Inr (coord_idx_calculated filtered_lat_idx (lon_filtered lon_full)
                      filtered_lon_idx)))"

section \<open>Slicing a time series out of the chunk file\<close>

definition num_days :: nat where "num_days = 730"

text \<open>compare\_netcdf\_chunk.py lines 97 to 99.\<close>

definition chunk_offset :: "nat \<Rightarrow> nat" where
  "chunk_offset coord_index' = coord_index' * num_days * 4"

definition compare_chunk_ts :: "nat \<Rightarrow> byte list \<Rightarrow> py_error + pyfloat list" where
  "compare_chunk_ts coord_index' chunk_data =
     (let chunk_ts_data =
            py_slice chunk_data (chunk_offset coord_index')
              (chunk_offset coord_index' + num_days * 4)
      in struct_unpack_f num_days chunk_ts_data)"

text \<open>verify\_coordinate\_mapping.py lines 87 to 89.\<close>

definition offset :: "nat \<Rightarrow> nat" where
  "offset coord_idx_calculated' = coord_idx_calculated' * num_days * 4"

definition verify_chunk_ts :: "nat \<Rightarrow> byte list \<Rightarrow> py_error + pyfloat list" where
  "verify_chunk_ts coord_idx_calculated' chunk_data =
     (let chunk_ts_data =
            py_slice chunk_data (offset coord_idx_calculated')
              (offset coord_idx_calculated' + num_days * 4)
      in struct_unpack_f num_days chunk_ts_data)"

section \<open>final\_diagnosis.py: flattening the data block\<close>

text \<open>
  A three-dimensional numpy array: its shape and its elements.  An index outside the
  shape raises IndexError.
\<close>

record ndarray3 =
  shape0 :: nat
  shape1 :: nat
  shape2 :: nat
  item :: "nat \<Rightarrow> nat \<Rightarrow> nat \<Rightarrow> pyfloat"

definition getitem3 :: "ndarray3 \<Rightarrow> nat \<Rightarrow> nat \<Rightarrow> nat \<Rightarrow> py_error + pyfloat" where
  "getitem3 a i j t =
     (if i < shape0 a \<and> j < shape1 a \<and> t < shape2 a then Inr (item a i j t)
      else Inl IndexError)"

text \<open>
  \<^verbatim>\<open>flat[idx] = v\<close> on a one-dimensional array of dtype float32 (line 75 creates
  the array with \<^verbatim>\<open>dtype=np.float32\<close>): the value is converted to float32 and
  stored.
\<close>

definition setitem :: "pyfloat list \<Rightarrow> nat \<Rightarrow> pyfloat \<Rightarrow> py_error + pyfloat list" where
  "setitem flat idx v =
     (if idx < length flat then Inr (flat[idx := np_float32 v]) else Inl IndexError)"

text \<open>\<^verbatim>\<open>np.transpose(a, (2, 1, 0))\<close>: line 54.\<close>

definition np_transpose_210 :: "ndarray3 \<Rightarrow> ndarray3" where
  "np_transpose_210 a =
     \<lparr>shape0 = shape2 a, shape1 = shape1 a, shape2 = shape0 a,
      item = (\<lambda>i j t. item a t j i)\<rparr>"

text \<open>
  A \<^verbatim>\<open>for\<close> loop over a finite sequence, threading the loop's variables as a
  state; an exception in the body ends the loop.
\<close>

primrec for_each :: "'i list \<Rightarrow> ('i \<Rightarrow> 's \<Rightarrow> py_error + 's) \<Rightarrow> 's \<Rightarrow> py_error + 's" where
  "for_each [] body s = Inr s"
| "for_each (x # xs) body s =
     (case body x s of Inl e \<Rightarrow> Inl e | Inr s' \<Rightarrow> for_each xs body s')"

text \<open>
  Lines 77 to 84.  The innermost body (lines 81 to 83), the body of the loop over
  \<open>i\<close> (lines 80 to 84) and the body of the loop over \<open>j\<close> (lines 79 to 84); the
  state of the two outer loops is the pair of \<^verbatim>\<open>flat_data_python\<close> and
  \<^verbatim>\<open>coord_idx\<close>.
\<close>

definition flatten_body_t ::
  "ndarray3 \<Rightarrow> nat \<Rightarrow> nat \<Rightarrow> nat \<Rightarrow> nat \<Rightarrow> nat \<Rightarrow> pyfloat list \<Rightarrow> py_error + pyfloat list" where
  "flatten_body_t data_transposed ntime coord_idx j i t flat =
     (let flat_idx = coord_idx * ntime + t
      in case getitem3 data_transposed i j t of
           Inl e \<Rightarrow> Inl e
         | Inr v \<Rightarrow> setitem flat flat_idx v)"

definition flatten_body_i ::
  "ndarray3 \<Rightarrow> nat \<Rightarrow> nat \<Rightarrow> nat \<Rightarrow> pyfloat list \<times> nat \<Rightarrow> py_error + pyfloat list \<times> nat" where
  "flatten_body_i data_transposed ntime j i s =
     (case s of (flat, coord_idx) \<Rightarrow>
        (case for_each [0..<ntime] (flatten_body_t data_transposed ntime coord_idx j i) flat of
           Inl e \<Rightarrow> Inl e
         | Inr flat' \<Rightarrow> Inr (flat', coord_idx + 1)))"

definition flatten_body_j ::
  "ndarray3 \<Rightarrow> nat \<Rightarrow> nat \<Rightarrow> nat \<Rightarrow> pyfloat list \<times> nat \<Rightarrow> py_error + pyfloat list \<times> nat" where
  "flatten_body_j data_transposed nlon ntime j s =
     for_each [0..<nlon] (flatten_body_i data_transposed ntime j) s"

text \<open>Lines 68 to 84: the flat array after the loops.\<close>

definition flat_data_python :: "ndarray3 \<Rightarrow> py_error + pyfloat list" where
  "flat_data_python data_transposed =
     (let nlon = shape0 data_transposed;
          nlat = shape1 data_transposed;
          ntime = shape2 data_transposed;
          num_coords = nlon * nlat;
          zeros = replicate (num_coords * ntime) (Fin 0)
      in case for_each [0..<nlat] (flatten_body_j data_transposed nlon ntime) (zeros, 0) of
           Inl e \<Rightarrow> Inl e
         | Inr (flat, coord_idx) \<Rightarrow> Inr flat)"

section \<open>The process and its environment\<close>

text \<open>
  An element of an array read from the dataset: netCDF4 returns masked arrays, whose
  elements carry a mask bit beside the stored number.
\<close>

datatype cell = Cell (cell_masked: bool) (cell_data: pyfloat)

text \<open>
  The values interpolated into a printed line.  \<open>VArr\<close> is an array, given by its
  shape and its elements; \<open>VApp f args\<close> stands for the value that the library
  function \<open>f\<close> returns on \<open>args\<close> where that value is only printed (statistics such
  as \<^verbatim>\<open>np.mean\<close>, percentages in floating point): the printed text is a function
  of it, and it is not computed here.
\<close>

datatype pyval =
    VStr string
  | VInt int
  | VBool bool
  | VFloat pyfloat
  | VCell cell
  | VList "pyval list"
  | VArr "nat list" "nat list \<Rightarrow> cell"
  | VApp string "pyval list"

text \<open>
  What a run does to its environment, in order: opening a file with a mode, opening
  and closing a dataset, and printing.  A printed line is represented by the source
  line of its \<^verbatim>\<open>print\<close> statement and the values interpolated into it; the fixed
  text and the number formats are determined by the statement.
\<close>

datatype event =
    OpenFile string string
  | OpenDataset string string
  | CloseDataset string
  | Print nat "pyval list"

text \<open>A variable of a NetCDF dataset and the dataset, as far as the scripts look.\<close>

record nc_variable =
  var_shape :: "nat list"
  var_dtype :: string
  var_dimensions :: "string list"
  var_attrs :: "string \<rightharpoonup> pyval"
  var_always_mask :: bool
  var_item :: "nat list \<Rightarrow> cell"

record dataset =
  data_model :: string
  dimensions :: "(string \<times> nat) list"
  variables :: "string \<rightharpoonup> nc_variable"

definition empty_dataset :: dataset where
  "empty_dataset = \<lparr>data_model = ''NETCDF4'', dimensions = [], variables = Map.empty\<rparr>"

text \<open>
  The environment of a run: the files and the datasets by path, the command line, and
  the events so far.
\<close>

record world =
  files :: "string \<rightharpoonup> byte list"
  datasets :: "string \<rightharpoonup> dataset"
  argv :: "string list"
  trace :: "event list"

text \<open>
  A statement takes the environment to a result and a new environment.  The result is
  an uncaught exception, which ends the process, or a value.
\<close>

type_synonym 'a io = "world \<Rightarrow> (py_error + 'a) \<times> world"

definition io_return :: "'a \<Rightarrow> 'a io" where
  "io_return x = (\<lambda>w. (Inr x, w))"

definition io_lift :: "py_error + 'a \<Rightarrow> 'a io" where
  "io_lift r = (\<lambda>w. (r, w))"

definition io_bind :: "'a io \<Rightarrow> ('a \<Rightarrow> 'b io) \<Rightarrow> 'b io" where
  "io_bind m f = (\<lambda>w. case m w of (Inl e, w') \<Rightarrow> (Inl e, w') | (Inr x, w') \<Rightarrow> f x w')"

definition io_seq :: "unit io \<Rightarrow> 'a io \<Rightarrow> 'a io" where
  "io_seq m k = io_bind m (\<lambda>_. k)"

definition io_when :: "bool \<Rightarrow> unit io \<Rightarrow> unit io" where
  "io_when c m = (if c then m else io_return ())"

primrec io_for :: "'i list \<Rightarrow> ('i \<Rightarrow> unit io) \<Rightarrow> unit io" where
  "io_for [] body = io_return ()"
| "io_for (x # xs) body = io_seq (body x) (io_for xs body)"

definition py_print :: "nat \<Rightarrow> pyval list \<Rightarrow> unit io" where
  "py_print line vals = (\<lambda>w. (Inr (), w\<lparr>trace := trace w @ [Print line vals]\<rparr>))"

text \<open>
  \<^verbatim>\<open>open(path, mode)\<close>.  Modes \<^verbatim>\<open>r\<close> and \<^verbatim>\<open>rb\<close> need the file to exist and
  leave the file system as it is; \<^verbatim>\<open>w\<close> and \<^verbatim>\<open>wb\<close> create the file or truncate
  it; \<^verbatim>\<open>a\<close> and \<^verbatim>\<open>ab\<close> create it when it is missing.  The result is the handle: the
  path and the mode.
\<close>

definition py_open :: "string \<Rightarrow> string \<Rightarrow> (string \<times> string) io" where
  "py_open path mode = (\<lambda>w.
     let w1 = w\<lparr>trace := trace w @ [OpenFile path mode]\<rparr> in
     if mode = ''r'' \<or> mode = ''rb'' then
       (case files w path of
          None \<Rightarrow> (Inl FileNotFoundError, w1)
        | Some content \<Rightarrow> (Inr (path, mode), w1))
     else if mode = ''w'' \<or> mode = ''wb'' then
       (Inr (path, mode), w1\<lparr>files := (files w)(path \<mapsto> [])\<rparr>)
     else if mode = ''a'' \<or> mode = ''ab'' then
       (case files w path of
          None \<Rightarrow> (Inr (path, mode), w1\<lparr>files := (files w)(path \<mapsto> [])\<rparr>)
        | Some content \<Rightarrow> (Inr (path, mode), w1))
     else (Inl ValueError, w1))"

text \<open>
  \<^verbatim>\<open>f.read()\<close> and \<^verbatim>\<open>f.read(size)\<close> on a handle that has not been read before: the
  whole content, or its first \<open>size\<close> bytes.  Closing a file that was opened for
  reading changes nothing and is not recorded.
\<close>

definition py_read :: "string \<times> string \<Rightarrow> nat option \<Rightarrow> byte list io" where
  "py_read f sz = (\<lambda>w.
     case f of (path, mode) \<Rightarrow>
       if mode = ''r'' \<or> mode = ''rb'' then
         (case files w path of
            None \<Rightarrow> (Inl ValueError, w)
          | Some content \<Rightarrow>
              (Inr (case sz of None \<Rightarrow> content | Some n \<Rightarrow> take n content), w))
       else (Inl UnsupportedOperation, w))"

text \<open>
  \<^verbatim>\<open>nc.Dataset(path, mode)\<close> and \<^verbatim>\<open>ncfile.close()\<close>.  Mode \<^verbatim>\<open>r\<close> opens an
  existing dataset read-only; \<^verbatim>\<open>w\<close> creates a new, empty one in place of what the
  path held; \<^verbatim>\<open>a\<close> and \<^verbatim>\<open>r+\<close> open an existing dataset for changes.
\<close>

definition nc_Dataset :: "string \<Rightarrow> string \<Rightarrow> (string \<times> dataset) io" where
  "nc_Dataset path mode = (\<lambda>w.
     let w1 = w\<lparr>trace := trace w @ [OpenDataset path mode]\<rparr> in
     if mode = ''r'' \<or> mode = ''a'' \<or> mode = ''r+'' then
       (case datasets w path of
          None \<Rightarrow> (Inl FileNotFoundError, w1)
        | Some ds \<Rightarrow> (Inr (path, ds), w1))
     else if mode = ''w'' then
       (Inr (path, empty_dataset), w1\<lparr>datasets := (datasets w)(path \<mapsto> empty_dataset)\<rparr>)
     else (Inl ValueError, w1))"

definition nc_close :: "string \<times> dataset \<Rightarrow> unit io" where
  "nc_close ncfile = (\<lambda>w. (Inr (), w\<lparr>trace := trace w @ [CloseDataset (fst ncfile)]\<rparr>))"

text \<open>The two paths that the scripts hold as literals.\<close>

definition backslash :: char where
  "backslash = CHR 0x5C"

definition data_dir :: string where
  "data_dir = ''C:'' @ [backslash] @ ''REPO'' @ [backslash] @ ''breath'' @ [backslash]
     @ ''data'' @ [backslash] @ ''nc files'' @ [backslash]"

definition nc_path :: string where
  "nc_path = data_dir @ ''tx_ens_mean_0.1deg_reg_v31.0e.nc''"

definition chunk_path :: string where
  "chunk_path = data_dir @ ''TX'' @ [backslash] @ ''chunk_0001-0730_1980-1981.bin''"

section \<open>Reading the dataset\<close>

text \<open>\<^verbatim>\<open>ncfile.variables[name]\<close> and the attributes of a variable.\<close>

definition get_variable :: "string \<times> dataset \<Rightarrow> string \<Rightarrow> py_error + nc_variable" where
  "get_variable ncfile name =
     (case variables (snd ncfile) name of None \<Rightarrow> Inl KeyError | Some v \<Rightarrow> Inr v)"

definition hasattr :: "nc_variable \<Rightarrow> string \<Rightarrow> bool" where
  "hasattr v name = (var_attrs v name \<noteq> None)"

definition getattr :: "nc_variable \<Rightarrow> string \<Rightarrow> py_error + pyval" where
  "getattr v name = (case var_attrs v name of None \<Rightarrow> Inl AttributeError | Some a \<Rightarrow> Inr a)"

text \<open>
  An array as indexing a variable returns it: shape, elements, and whether it is an
  instance of \<^verbatim>\<open>np.ma.MaskedArray\<close>.
\<close>

record marray =
  ma_shape :: "nat list"
  ma_item :: "nat list \<Rightarrow> cell"
  ma_is_masked :: bool

text \<open>
  One selector per axis: \<^verbatim>\<open>:\<close>, \<^verbatim>\<open>a:b\<close> with non-negative bounds, or a
  non-negative index.
\<close>

datatype sel = All | Range nat nat | At nat

fun sel_ok :: "sel \<Rightarrow> nat \<Rightarrow> bool" where
  "sel_ok (At i) n = (i < n)"
| "sel_ok s n = True"

fun sel_len :: "sel \<Rightarrow> nat \<Rightarrow> nat option" where
  "sel_len All n = Some n"
| "sel_len (Range a b) n = Some (min b n - min a n)"
| "sel_len (At i) n = None"

text \<open>The index into the variable for an index into the result.\<close>

fun source_index :: "sel list \<Rightarrow> nat list \<Rightarrow> nat list" where
  "source_index [] idx = []"
| "source_index (At i # ss) idx = i # source_index ss idx"
| "source_index (All # ss) (k # idx) = k # source_index ss idx"
| "source_index (Range a b # ss) (k # idx) = (a + k) # source_index ss idx"
| "source_index (s # ss) [] = []"

definition all_indices :: "nat list \<Rightarrow> nat list list" where
  "all_indices shape = product_lists (map (\<lambda>n. [0..<n]) shape)"

text \<open>
  \<^verbatim>\<open>a[s0, s1, ...]\<close> with one selector for every axis: the shape and the elements
  of the result.  An index outside its axis raises IndexError.
\<close>

definition getitem_core ::
  "nat list \<Rightarrow> (nat list \<Rightarrow> cell) \<Rightarrow> sel list \<Rightarrow> py_error + nat list \<times> (nat list \<Rightarrow> cell)" where
  "getitem_core shape items sels =
     (if length sels \<noteq> length shape then Inl IndexError
      else if \<not> list_all2 sel_ok sels shape then Inl IndexError
      else Inr (List.map_filter (\<lambda>(s, n). sel_len s n) (zip sels shape),
                (\<lambda>idx. items (source_index sels idx))))"

text \<open>
  Indexing a variable of the dataset.  The result is a masked array when the variable
  always masks or when an element of the result is masked.
\<close>

definition nc_getitem :: "nc_variable \<Rightarrow> sel list \<Rightarrow> py_error + marray" where
  "nc_getitem v sels =
     (case getitem_core (var_shape v) (var_item v) sels of
        Inl e \<Rightarrow> Inl e
      | Inr (shape, items) \<Rightarrow>
          Inr \<lparr>ma_shape = shape, ma_item = items,
               ma_is_masked = (var_always_mask v
                  \<or> list_ex (\<lambda>idx. cell_masked (items idx)) (all_indices shape))\<rparr>)"

text \<open>Indexing an array; the result is of the same class.\<close>

definition ma_getitem :: "marray \<Rightarrow> sel list \<Rightarrow> py_error + marray" where
  "ma_getitem a sels =
     (case getitem_core (ma_shape a) (ma_item a) sels of
        Inl e \<Rightarrow> Inl e
      | Inr (shape, items) \<Rightarrow>
          Inr \<lparr>ma_shape = shape, ma_item = items, ma_is_masked = ma_is_masked a\<rparr>)"

text \<open>The elements of a one-dimensional array, in order, and the number of elements.\<close>

definition ma_list :: "marray \<Rightarrow> cell list" where
  "ma_list a = map (\<lambda>i. ma_item a [i]) [0..<(case ma_shape a of [] \<Rightarrow> 0 | n # ns \<Rightarrow> n)]"

definition ma_size :: "marray \<Rightarrow> nat" where
  "ma_size a = prod_list (ma_shape a)"

text \<open>\<^verbatim>\<open>a.mask.sum()\<close>: the number of masked elements.\<close>

definition mask_sum :: "marray \<Rightarrow> nat" where
  "mask_sum a = length (filter (\<lambda>idx. cell_masked (ma_item a idx)) (all_indices (ma_shape a)))"

definition as_val :: "marray \<Rightarrow> pyval" where
  "as_val a = VArr (ma_shape a) (ma_item a)"

text \<open>
  A coordinate variable read whole, \<^verbatim>\<open>ncfile.variables[name][:]\<close>, as the list of its
  numbers.  The mask bits of coordinate arrays are not represented.
\<close>

definition read_coordinate :: "string \<times> dataset \<Rightarrow> string \<Rightarrow> py_error + pyfloat list" where
  "read_coordinate ncfile name =
     (case get_variable ncfile name of
        Inl e \<Rightarrow> Inl e
      | Inr v \<Rightarrow>
          (case nc_getitem v [All] of
             Inl e \<Rightarrow> Inl e
           | Inr a \<Rightarrow> Inr (map cell_data (ma_list a))))"

text \<open>\<^verbatim>\<open>a.min()\<close> and \<^verbatim>\<open>a.max()\<close>: ValueError on an empty array.\<close>

definition np_min :: "pyfloat list \<Rightarrow> py_error + pyval" where
  "np_min a = (if a = [] then Inl ValueError else Inr (VApp ''min'' (map VFloat a)))"

definition np_max :: "pyfloat list \<Rightarrow> py_error + pyval" where
  "np_max a = (if a = [] then Inl ValueError else Inr (VApp ''max'' (map VFloat a)))"

text \<open>\<^verbatim>\<open>xs[i]\<close> on a sequence, for a non-negative index.\<close>

definition py_nth :: "'a list \<Rightarrow> nat \<Rightarrow> py_error + 'a" where
  "py_nth xs i = (if i < length xs then Inr (xs ! i) else Inl IndexError)"

text \<open>\<^verbatim>\<open>a / b\<close> on Python integers.\<close>

definition py_truediv :: "nat \<Rightarrow> nat \<Rightarrow> py_error + pyval" where
  "py_truediv a b =
     (if b = 0 then Inl ZeroDivisionError else Inr (VFloat (Fin (real a / real b))))"

text \<open>Values for printing.\<close>

definition vnat :: "nat \<Rightarrow> pyval" where
  "vnat n = VInt (int n)"

definition shape_val :: "nat list \<Rightarrow> pyval" where
  "shape_val shape = VList (map vnat shape)"

definition cells_val :: "cell list \<Rightarrow> pyval" where
  "cells_val cs = VList (map VCell cs)"

definition floats_val :: "pyfloat list \<Rightarrow> pyval" where
  "floats_val xs = VList (map VFloat xs)"

text \<open>
  \<^verbatim>\<open>float(v)\<close> of an array element: a masked element gives NaN.  Assigning the
  element into a float array stores this value, converted to the dtype of the array.
\<close>

definition float_of_cell :: "cell \<Rightarrow> pyfloat" where
  "float_of_cell c = (if cell_masked c then NaN else cell_data c)"

definition np_isnan :: "pyfloat \<Rightarrow> bool" where
  "np_isnan v = (v = NaN)"

text \<open>
  A three-dimensional block read from the dataset as the array that the flattening
  loops read.  The conversion of a masked element to NaN, which the assignment of
  line 83 of final\_diagnosis.py performs before it rounds to float32, is applied here.
\<close>

definition as_ndarray3 :: "marray \<Rightarrow> py_error + ndarray3" where
  "as_ndarray3 a =
     (case ma_shape a of
        [n0, n1, n2] \<Rightarrow>
          Inr \<lparr>shape0 = n0, shape1 = n1, shape2 = n2,
               item = (\<lambda>i j t. float_of_cell (ma_item a [i, j, t]))\<rparr>
      | _ \<Rightarrow> Inl ValueError)"

text \<open>
  diagnose\_netcdf.py lines 53 to 58 (and 91 to 94): the count of missing values of a
  slice, by the fill value when the variable has one and by NaN otherwise.  The count is
  only printed.
\<close>

definition missing_count_of :: "nc_variable \<Rightarrow> marray \<Rightarrow> py_error + pyval" where
  "missing_count_of tx a =
     (if hasattr tx ''_FillValue'' then
        (case getattr tx ''_FillValue'' of
           Inl e \<Rightarrow> Inl e
         | Inr fill_value \<Rightarrow> Inr (VApp ''sum_eq'' [as_val a, fill_value]))
      else Inr (VApp ''sum_isnan'' [as_val a]))"

text \<open>
  \<^verbatim>\<open>a[~np.isnan(a)]\<close>: the elements whose stored number is not NaN, in index order.
\<close>

definition not_nan_elements :: "marray \<Rightarrow> cell list" where
  "not_nan_elements a =
     filter (\<lambda>c. \<not> np_isnan (cell_data c)) (map (ma_item a) (all_indices (ma_shape a)))"

section \<open>The five scripts\<close>

text \<open>
  Each script is the sequence of its statements.  \<open>io_bind\<close> and \<open>io_seq\<close> run
  one statement after the other; \<open>io_lift\<close> is a computation that can raise;
  \<open>py_print n\<close> is the \<^verbatim>\<open>print\<close> statement of source line \<open>n\<close>.
\<close>

text \<open>check\_chunk.py.\<close>

definition check_chunk :: "unit io" where
  "check_chunk =
    io_bind (py_open chunk_path ''rb'') (\<lambda>f.
    io_bind (py_read f (Some (1000 * 4))) (\<lambda>data.
    io_bind (io_lift (struct_unpack_f 1000 data)) (\<lambda>vals.
    io_seq (py_print 6 []) (
    io_seq (py_print 7 [floats_val (py_slice vals 0 20)]) (
    io_seq (py_print 9 [vnat (count_missing vals)]) (
    io_seq (py_print 10 [vnat (count_nan vals)]) (
    py_print 11 [vnat (count_valid vals)])))))))"

text \<open>compare\_netcdf\_chunk.py, lines 5 to 21: the dataset and its first 730 days.\<close>

definition compare_open_netcdf :: "((string \<times> dataset) \<times> nc_variable \<times> marray) io" where
  "compare_open_netcdf =
    io_seq (py_print 5 []) (
    io_seq (py_print 6 []) (
    io_seq (py_print 7 []) (
    io_bind (nc_Dataset nc_path ''r'') (\<lambda>ncfile.
    io_bind (io_lift (get_variable ncfile ''tx'')) (\<lambda>tx.
    io_seq (py_print 13 []) (
    io_seq (py_print 14 [shape_val (var_shape tx)]) (
    io_bind (io_lift (getattr tx ''_FillValue'')) (\<lambda>fill_value.
    io_seq (py_print 15 [fill_value]) (
    io_bind (io_lift (getattr tx ''scale_factor'')) (\<lambda>scale_factor.
    io_seq (py_print 16 [scale_factor]) (
    io_bind (io_lift (getattr tx ''add_offset'')) (\<lambda>add_offset.
    io_seq (py_print 17 [add_offset]) (
    io_bind (io_lift (nc_getitem tx [Range 0 730, All, All])) (\<lambda>first_730_days.
    io_seq (py_print 21 [shape_val (ma_shape first_730_days)]) (
    io_return (ncfile, tx, first_730_days))))))))))))))))"

text \<open>Lines 23 to 45: the chunk file and its first 1000 values.\<close>

definition compare_open_chunk :: "byte list io" where
  "compare_open_chunk =
    io_bind (py_open chunk_path ''rb'') (\<lambda>f.
    io_bind (py_read f None) (\<lambda>chunk_data.
    (let num_coords = 465 * 705 in
    (let expected_size = num_coords * num_days * 4 in
    io_seq (py_print 33 []) (
    io_seq (py_print 34 [vnat (length chunk_data)]) (
    io_seq (py_print 35 [vnat expected_size]) (
    io_seq (py_print 36 [VBool (length chunk_data = expected_size)]) (
    io_bind (io_lift (struct_unpack_f 1000 (py_slice chunk_data 0 (1000 * 4)))) (\<lambda>chunk_values.
    (let missing_chunk = count_missing chunk_values in
    io_seq (py_print 43 []) (
    io_seq (py_print 44 [vnat missing_chunk]) (
    io_seq (py_print 45 [vnat (1000 - missing_chunk)]) (
    io_return (chunk_data))))))))))))))"

text \<open>Lines 47 to 64: the time series of the first cell.\<close>

definition compare_coordinate_0 :: "nc_variable \<Rightarrow> unit io" where
  "compare_coordinate_0 tx =
    io_seq (py_print 48 []) (
    io_seq (py_print 49 []) (
    io_seq (py_print 50 []) (
    (let lat_idx = 0 in
    (let lon_idx = 0 in
    io_bind (io_lift (nc_getitem tx [Range 0 730, At lat_idx, At lon_idx])) (\<lambda>netcdf_timeseries.
    io_seq (py_print 57 []) (
    io_seq (py_print 58 [cells_val (py_slice (ma_list netcdf_timeseries) 0 20)]) (
    io_when (ma_is_masked netcdf_timeseries) (
      (let masked_count = mask_sum netcdf_timeseries in
      io_seq (py_print 63 [vnat masked_count, vnat (length (ma_list netcdf_timeseries))]) (
      py_print 64 [VApp ''percent'' [vnat masked_count, vnat (length (ma_list netcdf_timeseries))]])))))))))))"

text \<open>Lines 66 to 105: the cell nearest to 50 N, 10 E, its index, and its time series from the dataset and from the chunk file.\<close>

definition compare_central_europe :: "(string \<times> dataset) \<Rightarrow> nc_variable \<Rightarrow> byte list \<Rightarrow> unit io" where
  "compare_central_europe ncfile tx chunk_data =
    io_seq (py_print 67 []) (
    io_seq (py_print 68 []) (
    io_seq (py_print 69 []) (
    io_bind (io_lift (read_coordinate ncfile ''latitude'')) (\<lambda>lat.
    io_bind (io_lift (read_coordinate ncfile ''longitude'')) (\<lambda>lon.
    (let target_lat = 50.0 in
    (let target_lon = 10.0 in
    io_bind (io_lift (argmin_abs_diff lat target_lat)) (\<lambda>lat_idx.
    io_bind (io_lift (argmin_abs_diff lon target_lon)) (\<lambda>lon_idx.
    io_bind (io_lift (py_nth lat lat_idx)) (\<lambda>lat_at.
    io_bind (io_lift (py_nth lon lon_idx)) (\<lambda>lon_at.
    io_seq (py_print 79 [VFloat lat_at, VFloat lon_at]) (
    io_seq (py_print 80 [vnat lat_idx, vnat lon_idx]) (
    (let coord_index_v = coord_index lat_idx lon lon_idx in
    io_seq (py_print 84 [vnat coord_index_v]) (
    io_bind (io_lift (nc_getitem tx [Range 0 730, At lat_idx, At lon_idx])) (\<lambda>netcdf_ts.
    io_seq (py_print 88 []) (
    io_seq (py_print 89 [cells_val (py_slice (ma_list netcdf_ts) 0 10)]) (
    io_seq (io_when (ma_is_masked netcdf_ts) (
      py_print 93 [vnat (mask_sum netcdf_ts), vnat (length (ma_list netcdf_ts))])) (
    io_bind (io_lift (compare_chunk_ts coord_index_v chunk_data)) (\<lambda>chunk_ts.
    io_seq (py_print 101 []) (
    io_seq (py_print 102 [floats_val (py_slice chunk_ts 0 10)]) (
    (let missing_in_chunk_ts = count_missing chunk_ts in
    py_print 105 [vnat missing_in_chunk_ts, vnat (length chunk_ts)])))))))))))))))))))))))"

text \<open>Lines 107 to 131: totals over the chunk file and over the dataset.\<close>

definition compare_overall :: "byte list \<Rightarrow> marray \<Rightarrow> unit io" where
  "compare_overall chunk_data first_730_days =
    io_seq (py_print 108 []) (
    io_seq (py_print 109 []) (
    io_seq (py_print 110 []) (
    io_bind (io_lift (struct_unpack_f (length chunk_data div 4) chunk_data)) (\<lambda>all_chunk_values.
    (let total_missing = count_missing all_chunk_values in
    (let total_valid = length all_chunk_values - total_missing in
    io_seq (py_print 117 []) (
    io_seq (py_print 118 [vnat (length all_chunk_values)]) (
    io_seq (py_print 119 [vnat total_missing]) (
    io_seq (py_print 120 [vnat total_valid]) (
    io_bind (io_lift (py_truediv total_missing (length all_chunk_values))) (\<lambda>missing_ratio.
    io_seq (py_print 121 [VApp ''times_100'' [missing_ratio]]) (
    io_when (ma_is_masked first_730_days) (
      (let total_masked_nc = mask_sum first_730_days in
      (let total_values_nc = ma_size first_730_days in
      io_seq (py_print 127 []) (
      io_seq (py_print 128 [vnat total_values_nc]) (
      io_seq (py_print 129 [vnat total_masked_nc]) (
      io_seq (py_print 130 [VInt (int total_values_nc - int total_masked_nc)]) (
      py_print 131 [VApp ''percent'' [vnat total_masked_nc, vnat total_values_nc]])))))))))))))))))))"

text \<open>compare\_netcdf\_chunk.py.\<close>

definition compare_netcdf_chunk :: "unit io" where
  "compare_netcdf_chunk =
    io_bind (compare_open_netcdf) (\<lambda>opened.
    (let ncfile = fst opened in
    (let tx = fst (snd opened) in
    (let first_730_days = snd (snd opened) in
    io_bind (compare_open_chunk) (\<lambda>chunk_data.
    io_seq (compare_coordinate_0 tx) (
    io_seq (compare_central_europe ncfile tx chunk_data) (
    io_seq (compare_overall chunk_data first_730_days) (
    io_seq (nc_close ncfile) (
    io_seq (py_print 135 []) (
    io_seq (py_print 136 []) (
    py_print 137 [])))))))))))"

text \<open>verify\_coordinate\_mapping.py, lines 5 to 18: the dataset and the full grid.\<close>

definition verify_open_netcdf :: "((string \<times> dataset) \<times> nc_variable \<times> pyfloat list \<times> pyfloat list) io" where
  "verify_open_netcdf =
    io_seq (py_print 5 []) (
    io_seq (py_print 6 []) (
    io_seq (py_print 7 []) (
    io_bind (nc_Dataset nc_path ''r'') (\<lambda>ncfile.
    io_bind (io_lift (get_variable ncfile ''tx'')) (\<lambda>tx.
    io_bind (io_lift (read_coordinate ncfile ''latitude'')) (\<lambda>lat_full.
    io_bind (io_lift (read_coordinate ncfile ''longitude'')) (\<lambda>lon_full.
    io_seq (py_print 15 []) (
    io_bind (io_lift (np_min lon_full)) (\<lambda>lon_lo.
    io_bind (io_lift (np_max lon_full)) (\<lambda>lon_hi.
    io_seq (py_print 16 [vnat (length lon_full), lon_lo, lon_hi]) (
    io_bind (io_lift (np_min lat_full)) (\<lambda>lat_lo.
    io_bind (io_lift (np_max lat_full)) (\<lambda>lat_hi.
    io_seq (py_print 17 [vnat (length lat_full), lat_lo, lat_hi]) (
    io_seq (py_print 18 [vnat (length lon_full * length lat_full)]) (
    io_return (ncfile, tx, lat_full, lon_full))))))))))))))))"

text \<open>Lines 20 to 38: the grid filtered by the bounding box.\<close>

definition verify_filtered_grid :: "pyfloat list \<Rightarrow> pyfloat list \<Rightarrow> unit io" where
  "verify_filtered_grid lat_full lon_full =
    (let lon_flt = lon_filtered lon_full in
    (let lat_flt = lat_filtered lat_full in
    io_seq (py_print 33 []) (
    io_bind (io_lift (np_min lon_flt)) (\<lambda>lon_lo.
    io_bind (io_lift (np_max lon_flt)) (\<lambda>lon_hi.
    io_seq (py_print 34 [vnat (length lon_flt), lon_lo, lon_hi]) (
    io_bind (io_lift (np_min lat_flt)) (\<lambda>lat_lo.
    io_bind (io_lift (np_max lat_flt)) (\<lambda>lat_hi.
    io_seq (py_print 35 [vnat (length lat_flt), lat_lo, lat_hi]) (
    io_seq (py_print 36 [vnat (length lon_flt * length lat_flt)]) (
    io_seq (py_print 37 []) (
    py_print 38 [VBool (length lon_flt * length lat_flt = 267081)])))))))))))"

text \<open>Lines 43 to 62: the nearest cell of the full grid and its time series from the dataset.\<close>

definition verify_full_grid_series :: "nc_variable \<Rightarrow> pyfloat list \<Rightarrow> pyfloat list \<Rightarrow> real \<Rightarrow> real \<Rightarrow> marray io" where
  "verify_full_grid_series tx lat_full lon_full test_lat test_lon =
    io_bind (io_lift (argmin_abs_diff lat_full test_lat)) (\<lambda>full_lat_idx.
    io_bind (io_lift (argmin_abs_diff lon_full test_lon)) (\<lambda>full_lon_idx.
    io_seq (py_print 47 []) (
    io_seq (py_print 48 [VFloat (Fin test_lat), VFloat (Fin test_lon)]) (
    io_seq (py_print 49 []) (
    io_seq (py_print 51 []) (
    io_seq (py_print 52 [vnat full_lat_idx, vnat full_lon_idx]) (
    io_bind (io_lift (py_nth lat_full full_lat_idx)) (\<lambda>lat_at.
    io_bind (io_lift (py_nth lon_full full_lon_idx)) (\<lambda>lon_at.
    io_seq (py_print 53 [VFloat lat_at, VFloat lon_at]) (
    io_bind (io_lift (nc_getitem tx [Range 0 730, At full_lat_idx, At full_lon_idx])) (\<lambda>berlin_nc.
    io_seq (py_print 57 []) (
    io_seq (py_print 58 [cells_val (py_slice (ma_list berlin_nc) 0 10)]) (
    io_seq (io_when (ma_is_masked berlin_nc) (
      py_print 62 [vnat (mask_sum berlin_nc), vnat (length (ma_list berlin_nc))])) (
    io_return (berlin_nc)))))))))))))))"

text \<open>Lines 64 to 95: the nearest cell of the filtered grid, its flattened index, and its time series from the chunk file.\<close>

definition verify_chunk_series :: "pyfloat list \<Rightarrow> pyfloat list \<Rightarrow> real \<Rightarrow> real \<Rightarrow> pyfloat list io" where
  "verify_chunk_series lat_full lon_full test_lat test_lon =
    (let lat_flt = lat_filtered lat_full in
    (let lon_flt = lon_filtered lon_full in
    io_bind (io_lift (argmin_abs_diff lat_flt test_lat)) (\<lambda>filtered_lat_idx.
    io_bind (io_lift (argmin_abs_diff lon_flt test_lon)) (\<lambda>filtered_lon_idx.
    io_seq (py_print 68 []) (
    io_seq (py_print 69 [vnat filtered_lat_idx, vnat filtered_lon_idx]) (
    io_bind (io_lift (py_nth lat_flt filtered_lat_idx)) (\<lambda>lat_at.
    io_bind (io_lift (py_nth lon_flt filtered_lon_idx)) (\<lambda>lon_at.
    io_seq (py_print 70 [VFloat lat_at, VFloat lon_at]) (
    (let coord_idx_calculated_v = coord_idx_calculated filtered_lat_idx lon_flt filtered_lon_idx in
    io_seq (py_print 77 []) (
    io_seq (py_print 78 [vnat filtered_lat_idx, vnat (length lon_flt), vnat filtered_lon_idx, vnat coord_idx_calculated_v]) (
    io_bind (py_open chunk_path ''rb'') (\<lambda>f.
    io_bind (py_read f None) (\<lambda>chunk_data.
    io_bind (io_lift (verify_chunk_ts coord_idx_calculated_v chunk_data)) (\<lambda>chunk_ts.
    io_seq (py_print 91 []) (
    io_seq (py_print 92 [floats_val (py_slice chunk_ts 0 10)]) (
    (let missing_count = count_missing chunk_ts in
    io_seq (py_print 95 [vnat missing_count, vnat (length chunk_ts)]) (
    io_return (chunk_ts))))))))))))))))))))"

text \<open>Lines 97 to 112: the table of the first 10 days, printed when the chunk series has no missing value.\<close>

definition verify_compare :: "marray \<Rightarrow> pyfloat list \<Rightarrow> unit io" where
  "verify_compare berlin_nc chunk_ts =
    io_seq (py_print 98 []) (
    io_seq (py_print 99 []) (
    io_seq (py_print 100 []) (
    io_when (count_missing chunk_ts = 0) (
      (let nc_values = map (\<lambda>v. if \<not> cell_masked v then cell_data v else Fin (- 99.99)) (py_slice (ma_list berlin_nc) 0 10) in
      (let chunk_values = py_slice chunk_ts 0 10 in
      io_seq (py_print 107 []) (
      io_seq (py_print 108 []) (
      io_seq (py_print 109 []) (
      io_for ([0..<10]) (\<lambda>i.
        io_bind (io_lift (py_nth nc_values i)) (\<lambda>nc_v.
        io_bind (io_lift (py_nth chunk_values i)) (\<lambda>chunk_v.
        py_print 112 [vnat i, VFloat nc_v, VFloat chunk_v, VApp ''match'' [VFloat nc_v, VFloat chunk_v]]))))))))))))"

text \<open>verify\_coordinate\_mapping.py.\<close>

definition verify_coordinate_mapping :: "unit io" where
  "verify_coordinate_mapping =
    io_bind (verify_open_netcdf) (\<lambda>opened.
    (let ncfile = fst opened in
    (let tx = fst (snd opened) in
    (let lat_full = fst (snd (snd opened)) in
    (let lon_full = snd (snd (snd opened)) in
    io_seq (verify_filtered_grid lat_full lon_full) (
    (let test_lat = 52.5 in
    (let test_lon = 13.4 in
    io_bind (verify_full_grid_series tx lat_full lon_full test_lat test_lon) (\<lambda>berlin_nc.
    io_bind (verify_chunk_series lat_full lon_full test_lat test_lon) (\<lambda>chunk_ts.
    io_seq (verify_compare berlin_nc chunk_ts) (
    io_seq (nc_close ncfile) (
    io_seq (py_print 116 []) (
    io_seq (py_print 117 []) (
    py_print 118 []))))))))))))))"

text \<open>final\_diagnosis.py, lines 5 to 28: the dataset and the filtered index arrays.\<close>

definition final_open_netcdf :: "((string \<times> dataset) \<times> nc_variable \<times> pyfloat list \<times> pyfloat list) io" where
  "final_open_netcdf =
    io_seq (py_print 5 []) (
    io_seq (py_print 6 []) (
    io_seq (py_print 7 []) (
    io_bind (nc_Dataset nc_path ''r'') (\<lambda>ncfile.
    io_bind (io_lift (get_variable ncfile ''tx'')) (\<lambda>tx.
    io_bind (io_lift (read_coordinate ncfile ''latitude'')) (\<lambda>lat_full.
    io_bind (io_lift (read_coordinate ncfile ''longitude'')) (\<lambda>lon_full.
    (let lon_idx_np = lon_indices_np lon_full in
    (let lat_idx_np = lat_indices_np lat_full in
    io_seq (py_print 25 []) (
    io_seq (py_print 26 [vnat (length lat_full), vnat (length lon_full)]) (
    io_seq (py_print 27 [vnat (length lat_idx_np), vnat (length lon_idx_np)]) (
    io_seq (py_print 28 [vnat (length lat_idx_np * length lon_idx_np)]) (
    io_return (ncfile, tx, lat_full, lon_full))))))))))))))"

text \<open>Lines 34 to 55: the block of the filtered region, transposed to [lon, lat, time].\<close>

definition final_extract_block :: "nc_variable \<Rightarrow> pyfloat list \<Rightarrow> pyfloat list \<Rightarrow> ndarray3 io" where
  "final_extract_block tx lat_full lon_full =
    (let lon_idx_np = lon_indices_np lon_full in
    (let lat_idx_np = lat_indices_np lat_full in
    io_bind (io_lift (py_nth lat_idx_np 0)) (\<lambda>lat_start.
    io_bind (io_lift (py_nth lat_idx_np (length lat_idx_np - 1))) (\<lambda>lat_last.
    (let lat_end = lat_last + 1 in
    io_bind (io_lift (py_nth lon_idx_np 0)) (\<lambda>lon_start.
    io_bind (io_lift (py_nth lon_idx_np (length lon_idx_np - 1))) (\<lambda>lon_last.
    (let lon_end = lon_last + 1 in
    io_seq (py_print 42 []) (
    io_seq (py_print 43 []) (
    io_seq (py_print 44 [vnat lat_start, vnat lat_end, vnat (lat_end - lat_start)]) (
    io_seq (py_print 45 [vnat lon_start, vnat lon_end, vnat (lon_end - lon_start)]) (
    io_bind (io_lift (nc_getitem tx [Range 0 730, Range lat_start lat_end, Range lon_start lon_end])) (\<lambda>data_nc.
    io_seq (py_print 50 [shape_val (ma_shape data_nc)]) (
    io_seq (py_print 51 [vnat (length lat_idx_np), vnat (length lon_idx_np)]) (
    io_bind (io_lift (as_ndarray3 data_nc)) (\<lambda>data_block.
    (let data_transposed = np_transpose_210 data_block in
    io_seq (py_print 55 [shape_val [shape0 data_transposed, shape1 data_transposed, shape2 data_transposed]]) (
    io_return (data_transposed)))))))))))))))))))"

text \<open>Lines 68 to 91: the flattening loops and the count of NaN values.\<close>

definition final_flatten :: "ndarray3 \<Rightarrow> pyfloat list io" where
  "final_flatten data_transposed =
    (let nlon = shape0 data_transposed in
    (let nlat = shape1 data_transposed in
    (let ntime = shape2 data_transposed in
    (let num_coords = nlon * nlat in
    io_seq (py_print 71 []) (
    io_seq (py_print 72 [vnat nlon, vnat nlat, vnat ntime]) (
    io_seq (py_print 73 [vnat num_coords]) (
    io_bind (io_lift (flat_data_python data_transposed)) (\<lambda>flat.
    io_seq (py_print 86 [vnat (length flat)]) (
    (let masked_count = length (filter np_isnan flat) in
    io_seq (py_print 91 [vnat masked_count, VApp ''percent'' [vnat masked_count, vnat (length flat)]]) (
    io_return (flat))))))))))))"

text \<open>Lines 93 to 102: the chunk file, unpacked whole.\<close>

definition final_open_chunk :: "pyfloat list \<Rightarrow> pyfloat list io" where
  "final_open_chunk flat =
    io_bind (py_open chunk_path ''rb'') (\<lambda>f.
    io_bind (py_read f None) (\<lambda>chunk_data.
    io_bind (io_lift (struct_unpack_f (length chunk_data div 4) chunk_data)) (\<lambda>all_chunk_values.
    io_seq (py_print 100 []) (
    io_seq (py_print 101 [vnat (length all_chunk_values)]) (
    io_seq (py_print 102 [VBool (length all_chunk_values = length flat)]) (
    io_return (all_chunk_values)))))))"

text \<open>Lines 104 to 134: the cell nearest to 52.5 N, 13.4 E in the filtered grid, its flattened index, the two time series and the table of their first 10 days.\<close>

definition final_test_berlin :: "pyfloat list \<Rightarrow> pyfloat list \<Rightarrow> ndarray3 \<Rightarrow> pyfloat list \<Rightarrow> pyfloat list \<Rightarrow> unit io" where
  "final_test_berlin lat_full lon_full data_transposed flat all_chunk_values =
    (let test_lat = 52.5 in
    (let test_lon = 13.4 in
    (let lat_flt = map (\<lambda>i. lat_full ! i) (lat_indices_np lat_full) in
    (let lon_flt = map (\<lambda>i. lon_full ! i) (lon_indices_np lon_full) in
    io_bind (io_lift (argmin_abs_diff lat_flt test_lat)) (\<lambda>filtered_lat_idx.
    io_bind (io_lift (argmin_abs_diff lon_flt test_lon)) (\<lambda>filtered_lon_idx.
    io_seq (py_print 114 []) (
    io_seq (py_print 115 [VFloat (Fin test_lat), VFloat (Fin test_lon)]) (
    io_seq (py_print 116 []) (
    io_seq (py_print 117 [vnat filtered_lat_idx, vnat filtered_lon_idx]) (
    (let nlon = shape0 data_transposed in
    (let ntime = shape2 data_transposed in
    (let coord_idx_berlin_v = coord_idx_berlin filtered_lat_idx nlon filtered_lon_idx in
    io_seq (py_print 121 [vnat filtered_lat_idx, vnat nlon, vnat filtered_lon_idx, vnat coord_idx_berlin_v]) (
    (let python_ts = py_slice flat (coord_idx_berlin_v * ntime) ((coord_idx_berlin_v + 1) * ntime) in
    (let chunk_ts = py_slice all_chunk_values (coord_idx_berlin_v * ntime) ((coord_idx_berlin_v + 1) * ntime) in
    io_seq (py_print 127 []) (
    io_seq (py_print 128 []) (
    io_seq (py_print 129 []) (
    io_for ([0..<10]) (\<lambda>i.
      io_bind (io_lift (py_nth python_ts i)) (\<lambda>p.
      (let p_val = if \<not> np_isnan p then p else Fin (- 99.99) in
      io_bind (io_lift (py_nth chunk_ts i)) (\<lambda>c_val.
      py_print 134 [vnat i, VFloat p_val, VFloat c_val, VApp ''match'' [VFloat p_val, VFloat c_val]])))))))))))))))))))))))"

text \<open>Lines 136 to 153: statistics of the valid values of both arrays.\<close>

definition final_overall :: "pyfloat list \<Rightarrow> pyfloat list \<Rightarrow> unit io" where
  "final_overall flat all_chunk_values =
    (let python_valid = filter (\<lambda>v. \<not> np_isnan v) flat in
    (let chunk_valid = filter (\<lambda>v. py_ge (py_abs (float32_add v (literal32 99.99))) (literal32 0.01)) all_chunk_values in
    io_seq (py_print 140 []) (
    io_seq (py_print 141 []) (
    io_seq (py_print 142 []) (
    io_seq (py_print 143 []) (
    io_seq (py_print 144 [vnat (length python_valid)]) (
    io_bind (io_lift (np_min python_valid)) (\<lambda>python_min.
    io_seq (py_print 145 [python_min]) (
    io_bind (io_lift (np_max python_valid)) (\<lambda>python_max.
    io_seq (py_print 146 [python_max]) (
    io_seq (py_print 147 [VApp ''mean'' [floats_val python_valid]]) (
    io_seq (py_print 149 []) (
    io_seq (py_print 150 [vnat (length chunk_valid)]) (
    io_bind (io_lift (np_min chunk_valid)) (\<lambda>chunk_min.
    io_seq (py_print 151 [chunk_min]) (
    io_bind (io_lift (np_max chunk_valid)) (\<lambda>chunk_max.
    io_seq (py_print 152 [chunk_max]) (
    py_print 153 [VApp ''mean'' [floats_val chunk_valid]]))))))))))))))))))"

text \<open>final\_diagnosis.py.\<close>

definition final_diagnosis :: "unit io" where
  "final_diagnosis =
    io_bind (final_open_netcdf) (\<lambda>opened.
    (let ncfile = fst opened in
    (let tx = fst (snd opened) in
    (let lat_full = fst (snd (snd opened)) in
    (let lon_full = snd (snd (snd opened)) in
    io_bind (final_extract_block tx lat_full lon_full) (\<lambda>data_transposed.
    io_bind (final_flatten data_transposed) (\<lambda>flat.
    io_bind (final_open_chunk flat) (\<lambda>all_chunk_values.
    io_seq (final_test_berlin lat_full lon_full data_transposed flat all_chunk_values) (
    io_seq (final_overall flat all_chunk_values) (
    io_seq (nc_close ncfile) (
    io_seq (py_print 157 []) (
    io_seq (py_print 158 []) (
    py_print 159 [])))))))))))))"

text \<open>diagnose\_netcdf.py, lines 5 to 41: the dataset, its dimensions, and the variable.\<close>

definition diagnose_info :: "((string \<times> dataset) \<times> nc_variable) io" where
  "diagnose_info =
    io_bind (nc_Dataset nc_path ''r'') (\<lambda>ncfile.
    io_seq (py_print 7 []) (
    io_seq (py_print 8 []) (
    io_seq (py_print 9 []) (
    io_seq (py_print 12 []) (
    io_seq (py_print 13 [VStr (data_model (snd ncfile))]) (
    io_seq (py_print 14 [VList (map (\<lambda>d. VStr (fst d)) (dimensions (snd ncfile)))]) (
    io_seq (py_print 17 []) (
    io_seq (io_for (dimensions (snd ncfile)) (\<lambda>d.
      py_print 19 [VStr (fst d), vnat (snd d)])) (
    io_bind (io_lift (get_variable ncfile ''tx'')) (\<lambda>tx.
    io_seq (py_print 23 []) (
    io_seq (py_print 24 [shape_val (var_shape tx)]) (
    io_seq (py_print 25 [VStr (var_dtype tx)]) (
    io_seq (py_print 26 [VList (map VStr (var_dimensions tx))]) (
    io_seq (if hasattr tx ''_FillValue'' then (
      io_bind (io_lift (getattr tx ''_FillValue'')) (\<lambda>fill_value.
      py_print 31 [fill_value]))
    else (
      py_print 33 [])) (
    io_seq (io_when (hasattr tx ''scale_factor'') (
      io_bind (io_lift (getattr tx ''scale_factor'')) (\<lambda>a.
      py_print 37 [a]))) (
    io_seq (io_when (hasattr tx ''add_offset'') (
      io_bind (io_lift (getattr tx ''add_offset'')) (\<lambda>a.
      py_print 39 [a]))) (
    io_seq (io_when (hasattr tx ''units'') (
      io_bind (io_lift (getattr tx ''units'')) (\<lambda>a.
      py_print 41 [a]))) (
    io_return (ncfile, tx)))))))))))))))))))"

text \<open>Lines 43 to 82: the first time slice.\<close>

definition diagnose_first_slice :: "nc_variable \<Rightarrow> nat io" where
  "diagnose_first_slice tx =
    io_seq (py_print 44 []) (
    io_seq (py_print 45 []) (
    io_seq (py_print 46 []) (
    io_bind (io_lift (nc_getitem tx [At 0, All, All])) (\<lambda>first_slice.
    io_seq (py_print 50 [shape_val (ma_shape first_slice)]) (
    io_bind (io_lift (missing_count_of tx first_slice)) (\<lambda>missing_count.
    (let total_cells = ma_size first_slice in
    (let valid_count = VApp ''sub'' [vnat total_cells, missing_count] in
    (let missing_percent = VApp ''percent'' [missing_count, vnat total_cells] in
    io_seq (py_print 64 []) (
    io_seq (py_print 65 [vnat total_cells]) (
    io_seq (py_print 66 [valid_count]) (
    io_seq (py_print 67 [missing_count]) (
    io_seq (py_print 68 [missing_percent]) (
    (let valid_data = not_nan_elements first_slice in
    io_seq (io_when (length valid_data > 0) (
      io_seq (py_print 73 []) (
      io_seq (py_print 74 [VApp ''min'' [cells_val valid_data]]) (
      io_seq (py_print 75 [VApp ''max'' [cells_val valid_data]]) (
      io_seq (py_print 76 [VApp ''mean'' [cells_val valid_data]]) (
      py_print 77 [VApp ''std'' [cells_val valid_data]])))))) (
    io_seq (py_print 80 []) (
    io_bind (io_lift (ma_getitem first_slice [At 0, Range 0 20])) (\<lambda>first_row.
    io_seq (py_print 82 [cells_val (ma_list first_row)]) (
    io_return (total_cells))))))))))))))))))))"

text \<open>Lines 84 to 97: the middle time slice.\<close>

definition diagnose_middle_slice :: "nc_variable \<Rightarrow> nat \<Rightarrow> unit io" where
  "diagnose_middle_slice tx total_cells =
    io_bind (io_lift (py_nth (var_shape tx) 0)) (\<lambda>ntimes.
    (let middle_idx = ntimes div 2 in
    io_seq (py_print 86 []) (
    io_seq (py_print 87 [vnat middle_idx]) (
    io_seq (py_print 88 []) (
    io_bind (io_lift (nc_getitem tx [At middle_idx, All, All])) (\<lambda>middle_slice.
    io_bind (io_lift (missing_count_of tx middle_slice)) (\<lambda>missing_count_mid.
    (let missing_percent_mid = VApp ''percent'' [missing_count_mid, vnat total_cells] in
    py_print 97 [missing_percent_mid]))))))))"

text \<open>Lines 99 to 133: the cell nearest to 50 N, 10 E and its time series.\<close>

definition diagnose_location :: "(string \<times> dataset) \<Rightarrow> nc_variable \<Rightarrow> unit io" where
  "diagnose_location ncfile tx =
    io_seq (py_print 100 []) (
    io_seq (py_print 101 []) (
    io_seq (py_print 102 []) (
    io_bind (io_lift (read_coordinate ncfile ''latitude'')) (\<lambda>lat.
    io_bind (io_lift (read_coordinate ncfile ''longitude'')) (\<lambda>lon.
    io_bind (io_lift (np_min lat)) (\<lambda>lat_lo.
    io_bind (io_lift (np_max lat)) (\<lambda>lat_hi.
    io_seq (py_print 108 [lat_lo, lat_hi]) (
    io_bind (io_lift (np_min lon)) (\<lambda>lon_lo.
    io_bind (io_lift (np_max lon)) (\<lambda>lon_hi.
    io_seq (py_print 109 [lon_lo, lon_hi]) (
    (let target_lat = 50.0 in
    (let target_lon = 10.0 in
    io_bind (io_lift (argmin_abs_diff lat target_lat)) (\<lambda>lat_idx.
    io_bind (io_lift (argmin_abs_diff lon target_lon)) (\<lambda>lon_idx.
    io_seq (py_print 118 [VFloat (Fin target_lat), VFloat (Fin target_lon)]) (
    io_bind (io_lift (py_nth lat lat_idx)) (\<lambda>lat_at.
    io_bind (io_lift (py_nth lon lon_idx)) (\<lambda>lon_at.
    io_seq (py_print 119 [VFloat lat_at, VFloat lon_at]) (
    io_seq (py_print 120 [vnat lat_idx, vnat lon_idx]) (
    io_bind (io_lift (nc_getitem tx [All, At lat_idx, At lon_idx])) (\<lambda>location_timeseries.
    (let series = ma_list location_timeseries in
    (let valid_ts = not_nan_elements location_timeseries in
    (let missing_ts = VApp ''sum_isnan'' [cells_val series] in
    (let missing_ts_percent = VApp ''percent'' [missing_ts, vnat (length series)] in
    io_seq (py_print 128 []) (
    io_seq (py_print 129 [vnat (length series)]) (
    io_seq (py_print 130 [vnat (length valid_ts)]) (
    io_seq (py_print 131 [missing_ts]) (
    io_seq (py_print 132 [missing_ts_percent]) (
    py_print 133 [cells_val (py_slice series 0 10)]))))))))))))))))))))))))))))))"

text \<open>diagnose\_netcdf.py.\<close>

definition diagnose_netcdf :: "unit io" where
  "diagnose_netcdf =
    io_bind (diagnose_info) (\<lambda>opened.
    (let ncfile = fst opened in
    (let tx = snd opened in
    io_bind (diagnose_first_slice tx) (\<lambda>total_cells.
    io_seq (diagnose_middle_slice tx total_cells) (
    io_seq (diagnose_location ncfile tx) (
    io_seq (nc_close ncfile) (
    io_seq (py_print 137 []) (
    io_seq (py_print 138 []) (
    py_print 139 [])))))))))"

text \<open>The five scripts by name, and a run of one of them.\<close>

datatype script =
    Check_chunk
  | Compare_netcdf_chunk
  | Diagnose_netcdf
  | Final_diagnosis
  | Verify_coordinate_mapping

fun run_script :: "script \<Rightarrow> unit io" where
  "run_script Check_chunk = check_chunk"
| "run_script Compare_netcdf_chunk = compare_netcdf_chunk"
| "run_script Diagnose_netcdf = diagnose_netcdf"
| "run_script Final_diagnosis = final_diagnosis"
| "run_script Verify_coordinate_mapping = verify_coordinate_mapping"

section \<open>Properties of statements\<close>

text \<open>The source lines of the printed lines among some events, in order.\<close>

fun print_line :: "event \<Rightarrow> nat option" where
  "print_line (Print line vals) = Some line"
| "print_line ev = None"

fun print_lines :: "event list \<Rightarrow> nat list" where
  "print_lines [] = []"
| "print_lines (Print line vals # evs) = line # print_lines evs"
| "print_lines (ev # evs) = print_lines evs"

text \<open>
  A statement keeps the files, the datasets and the command line as they are, and
  every event it adds satisfies \<open>Q\<close>.
\<close>

definition io_inv :: "(event \<Rightarrow> bool) \<Rightarrow> 'a io \<Rightarrow> bool" where
  "io_inv Q m \<longleftrightarrow>
     (\<forall>w r w'. m w = (r, w') \<longrightarrow>
        files w' = files w \<and> datasets w' = datasets w \<and> argv w' = argv w
        \<and> (\<exists>new. trace w' = trace w @ new \<and> (\<forall>ev \<in> set new. Q ev)))"

text \<open>A statement does not look at the command line.\<close>

definition argv_indep :: "'a io \<Rightarrow> bool" where
  "argv_indep m \<longleftrightarrow>
     (\<forall>w a. m (w\<lparr>argv := a\<rparr>) = (case m w of (r, w') \<Rightarrow> (r, w'\<lparr>argv := a\<rparr>)))"

text \<open>
  The lines that a statement prints are in non-decreasing order of their source lines,
  all between \<open>lo\<close> and \<open>hi\<close>.
\<close>

definition ordered_in :: "nat \<Rightarrow> nat \<Rightarrow> 'a io \<Rightarrow> bool" where
  "ordered_in lo hi m \<longleftrightarrow>
     lo \<le> hi \<and>
     (\<forall>w r w'. m w = (r, w') \<longrightarrow>
        (\<exists>new. trace w' = trace w @ new \<and> sorted (print_lines new)
           \<and> (\<forall>l \<in> set (print_lines new). lo \<le> l \<and> l \<le> hi)))"

text \<open>When a statement ends without an exception, it has added an event that satisfies \<open>P\<close>.\<close>

definition logs :: "(event \<Rightarrow> bool) \<Rightarrow> 'a io \<Rightarrow> bool" where
  "logs P m \<longleftrightarrow>
     (\<forall>w x w'. m w = (Inr x, w') \<longrightarrow>
        (\<exists>new. trace w' = trace w @ new \<and> (\<exists>ev \<in> set new. P ev)))"

text \<open>The events that a script may add: read-only opens of the two paths, closing, printing.\<close>

fun read_only_event :: "event \<Rightarrow> bool" where
  "read_only_event (OpenFile path mode) = (path = chunk_path \<and> mode = ''rb'')"
| "read_only_event (OpenDataset path mode) = (path = nc_path \<and> mode = ''r'')"
| "read_only_event (CloseDataset path) = True"
| "read_only_event (Print line vals) = True"

fun is_open_dataset :: "event \<Rightarrow> bool" where
  "is_open_dataset (OpenDataset path mode) = True"
| "is_open_dataset ev = False"

fun is_open_file :: "event \<Rightarrow> bool" where
  "is_open_file (OpenFile path mode) = True"
| "is_open_file ev = False"

definition is_print_at :: "nat \<Rightarrow> event \<Rightarrow> bool" where
  "is_print_at line ev = (print_line ev = Some line)"

text \<open>The rules for these properties, one per form of statement, are collected by name.\<close>

named_theorems io_inv_intros
named_theorems argv_intros
named_theorems ordered_intros

section \<open>A small environment for concrete runs\<close>

text \<open>
  A chunk file of 1000 float32 zeros, and a dataset of one day on a grid of one cell at
  50 N, 10 E.
\<close>

definition example_chunk :: "byte list" where
  "example_chunk = replicate 4000 0"

definition example_tx :: nc_variable where
  "example_tx =
     \<lparr>var_shape = [1, 1, 1], var_dtype = ''float32'',
      var_dimensions = [''time'', ''latitude'', ''longitude''],
      var_attrs = [''_FillValue'' \<mapsto> VFloat (Fin (- 9999)), ''scale_factor'' \<mapsto> VFloat (Fin 0.01),
                   ''add_offset'' \<mapsto> VFloat (Fin 0)],
      var_always_mask = True,
      var_item = (\<lambda>idx. Cell False (Fin 5))\<rparr>"

definition example_coordinate :: "string \<Rightarrow> real \<Rightarrow> nc_variable" where
  "example_coordinate name x =
     \<lparr>var_shape = [1], var_dtype = ''float64'', var_dimensions = [name],
      var_attrs = Map.empty, var_always_mask = True,
      var_item = (\<lambda>idx. Cell False (Fin x))\<rparr>"

definition example_dataset :: dataset where
  "example_dataset =
     \<lparr>data_model = ''NETCDF4'',
      dimensions = [(''time'', 1), (''latitude'', 1), (''longitude'', 1)],
      variables = [''tx'' \<mapsto> example_tx,
                   ''latitude'' \<mapsto> example_coordinate ''latitude'' 50,
                   ''longitude'' \<mapsto> example_coordinate ''longitude'' 10]\<rparr>"

definition example_world :: world where
  "example_world =
     \<lparr>files = [chunk_path \<mapsto> example_chunk], datasets = [nc_path \<mapsto> example_dataset],
      argv = [], trace = []\<rparr>"

text \<open>The same with no dataset at all, and with no chunk file at all.\<close>

definition world_without_dataset :: world where
  "world_without_dataset = example_world\<lparr>datasets := Map.empty\<rparr>"

definition world_without_chunk :: world where
  "world_without_chunk = example_world\<lparr>files := Map.empty\<rparr>"

section \<open>Properties of the library operations\<close>

lemma set_np_where: "set (np_where c) = {i. i < length c \<and> c ! i}"
  by (auto simp: np_where_def)

lemma sorted_np_where: "sorted_wrt (<) (np_where c)"
  unfolding np_where_def by (rule sorted_wrt_filter) (rule sorted_wrt_upt)

lemma np_where_in_range: "i \<in> set (np_where c) \<Longrightarrow> i < length c"
  by (simp add: set_np_where)

lemma in_box_iff:
  "py_ge v lo \<and> py_le v hi \<longleftrightarrow> (\<exists>x. v = Fin x \<and> lo \<le> x \<and> x \<le> hi)"
  by (cases v) auto

section \<open>Bounding-box filtering\<close>

lemma set_box_indices:
  "set (np_where (map (\<lambda>x. py_ge x lo \<and> py_le x hi) xs))
     = {i. i < length xs \<and> (\<exists>x. xs ! i = Fin x \<and> lo \<le> x \<and> x \<le> hi)}"
  by (auto simp: set_np_where in_box_iff)

text \<open>
  Claim C4.  In verify\_coordinate\_mapping.py and in final\_diagnosis.py the kept
  longitude indices are exactly the indices of the cells with
  \<open>-25 \<le> lon_full[i] \<le> 45\<close>, the kept latitude indices exactly those with
  \<open>34 \<le> lat_full[j] \<le> 72\<close> (both bounds included), and each index array is
  strictly increasing, for every coordinate array.  A NaN or infinite coordinate
  satisfies neither comparison and is dropped.
\<close>

theorem bounding_box_indices_exact:
  "set (lon_indices lon_full)
     = {i. i < length lon_full \<and> (\<exists>x. lon_full ! i = Fin x \<and> - 25.0 \<le> x \<and> x \<le> 45.0)}
   \<and> sorted_wrt (<) (lon_indices lon_full)
   \<and> set (lat_indices lat_full)
     = {j. j < length lat_full \<and> (\<exists>y. lat_full ! j = Fin y \<and> 34.0 \<le> y \<and> y \<le> 72.0)}
   \<and> sorted_wrt (<) (lat_indices lat_full)
   \<and> set (lon_indices_np lon_full)
     = {i. i < length lon_full \<and> (\<exists>x. lon_full ! i = Fin x \<and> - 25.0 \<le> x \<and> x \<le> 45.0)}
   \<and> sorted_wrt (<) (lon_indices_np lon_full)
   \<and> set (lat_indices_np lat_full)
     = {j. j < length lat_full \<and> (\<exists>y. lat_full ! j = Fin y \<and> 34.0 \<le> y \<and> y \<le> 72.0)}
   \<and> sorted_wrt (<) (lat_indices_np lat_full)"
  unfolding lon_indices_def lat_indices_def lon_indices_np_def lat_indices_np_def
    lon_mask_def lat_mask_def min_lon_def max_lon_def min_lat_def max_lat_def
  by (intro conjI set_box_indices sorted_np_where)

section \<open>Slicing the chunk file\<close>

lemma length_py_slice:
  "length (py_slice data start stop) = min (length data - start) (stop - start)"
  by (simp add: py_slice_def)

lemma length_groups4: "length (groups4 xs) = length xs div 4"
  by (induction xs rule: groups4.induct) simp_all

lemma struct_unpack_f_ok_iff:
  "(\<exists>ts. struct_unpack_f n data = Inr ts) \<longleftrightarrow> length data = 4 * n"
  by (simp add: struct_unpack_f_def)

lemma struct_unpack_f_length:
  "struct_unpack_f n data = Inr ts \<Longrightarrow> length ts = n"
  by (auto simp: struct_unpack_f_def length_groups4 split: if_splits)

lemma struct_unpack_f_cases:
  "struct_unpack_f n data = Inl StructError \<or> (\<exists>ts. struct_unpack_f n data = Inr ts)"
  by (simp add: struct_unpack_f_def)

lemma slice_full_iff:
  "length (py_slice data (c * num_days * 4) (c * num_days * 4 + num_days * 4)) = 4 * num_days
     \<longleftrightarrow> c * 730 * 4 + 730 * 4 \<le> length data"
  by (auto simp: length_py_slice num_days_def)

lemma compare_chunk_ts_ok_iff:
  "(\<exists>ts. compare_chunk_ts c data = Inr ts) \<longleftrightarrow> c * 730 * 4 + 730 * 4 \<le> length data"
  unfolding compare_chunk_ts_def chunk_offset_def Let_def struct_unpack_f_ok_iff
  by (rule slice_full_iff)

lemma verify_chunk_ts_ok_iff:
  "(\<exists>ts. verify_chunk_ts c data = Inr ts) \<longleftrightarrow> c * 730 * 4 + 730 * 4 \<le> length data"
  unfolding verify_chunk_ts_def offset_def Let_def struct_unpack_f_ok_iff
  by (rule slice_full_iff)

lemma compare_chunk_ts_cases:
  "compare_chunk_ts c data = Inl StructError \<or> (\<exists>ts. compare_chunk_ts c data = Inr ts)"
  unfolding compare_chunk_ts_def Let_def by (rule struct_unpack_f_cases)

lemma verify_chunk_ts_cases:
  "verify_chunk_ts c data = Inl StructError \<or> (\<exists>ts. verify_chunk_ts c data = Inr ts)"
  unfolding verify_chunk_ts_def Let_def by (rule struct_unpack_f_cases)

lemma compare_chunk_ts_length: "compare_chunk_ts c data = Inr ts \<Longrightarrow> length ts = 730"
  unfolding compare_chunk_ts_def Let_def
  by (drule struct_unpack_f_length) (simp add: num_days_def)

lemma verify_chunk_ts_length: "verify_chunk_ts c data = Inr ts \<Longrightarrow> length ts = 730"
  unfolding verify_chunk_ts_def Let_def
  by (drule struct_unpack_f_length) (simp add: num_days_def)

lemma fits_iff_lt_div:
  "c * 730 * 4 + 730 * 4 \<le> (n::nat) \<longleftrightarrow> c < n div (730 * 4)"
proof -
  have "c < n div 2920 \<longleftrightarrow> Suc c \<le> n div 2920" by auto
  also have "\<dots> \<longleftrightarrow> Suc c * 2920 \<le> n" by (simp add: less_eq_div_iff_mult_less_eq)
  finally show ?thesis by (simp add: algebra_simps)
qed

text \<open>
  Claim C8.  In verify\_coordinate\_mapping.py and in compare\_netcdf\_chunk.py,
  unpacking 730 float32 values from byte offset \<open>coord * 730 * 4\<close> succeeds if and
  only if \<open>coord * 730 * 4 + 730 * 4 \<le> len(chunk_data)\<close>.  When
  \<open>coord < len(chunk_data) // (730 * 4)\<close> the unpacking succeeds and yields 730
  values; for every larger \<open>coord\<close> the slice is short and struct.error is raised.
\<close>

theorem chunk_slice_safe_iff_in_bounds:
  "((\<exists>ts. verify_chunk_ts coord chunk_data = Inr ts)
      \<longleftrightarrow> coord * 730 * 4 + 730 * 4 \<le> length chunk_data)
   \<and> ((\<exists>ts. compare_chunk_ts coord chunk_data = Inr ts)
      \<longleftrightarrow> coord * 730 * 4 + 730 * 4 \<le> length chunk_data)
   \<and> (coord < length chunk_data div (730 * 4) \<longrightarrow>
        (\<exists>ts. verify_chunk_ts coord chunk_data = Inr ts \<and> length ts = 730)
        \<and> (\<exists>ts. compare_chunk_ts coord chunk_data = Inr ts \<and> length ts = 730))
   \<and> (length chunk_data div (730 * 4) \<le> coord \<longrightarrow>
        verify_chunk_ts coord chunk_data = Inl StructError
        \<and> compare_chunk_ts coord chunk_data = Inl StructError)"
proof (intro conjI impI)
  show "(\<exists>ts. verify_chunk_ts coord chunk_data = Inr ts)
      \<longleftrightarrow> coord * 730 * 4 + 730 * 4 \<le> length chunk_data"
    by (rule verify_chunk_ts_ok_iff)
  show "(\<exists>ts. compare_chunk_ts coord chunk_data = Inr ts)
      \<longleftrightarrow> coord * 730 * 4 + 730 * 4 \<le> length chunk_data"
    by (rule compare_chunk_ts_ok_iff)
next
  assume "coord < length chunk_data div (730 * 4)"
  then have fits: "coord * 730 * 4 + 730 * 4 \<le> length chunk_data"
    by (simp only: fits_iff_lt_div)
  from fits obtain ts where "verify_chunk_ts coord chunk_data = Inr ts"
    using verify_chunk_ts_ok_iff by blast
  then show "\<exists>ts. verify_chunk_ts coord chunk_data = Inr ts \<and> length ts = 730"
    using verify_chunk_ts_length by blast
  from fits obtain ts' where "compare_chunk_ts coord chunk_data = Inr ts'"
    using compare_chunk_ts_ok_iff by blast
  then show "\<exists>ts. compare_chunk_ts coord chunk_data = Inr ts \<and> length ts = 730"
    using compare_chunk_ts_length by blast
next
  assume "length chunk_data div (730 * 4) \<le> coord"
  then have short: "\<not> coord * 730 * 4 + 730 * 4 \<le> length chunk_data"
    by (simp only: fits_iff_lt_div not_less)
  from short have "\<not> (\<exists>ts. verify_chunk_ts coord chunk_data = Inr ts)"
    by (simp only: verify_chunk_ts_ok_iff not_False_eq_True)
  then show "verify_chunk_ts coord chunk_data = Inl StructError"
    using verify_chunk_ts_cases by blast
  from short have "\<not> (\<exists>ts. compare_chunk_ts coord chunk_data = Inr ts)"
    by (simp only: compare_chunk_ts_ok_iff not_False_eq_True)
  then show "compare_chunk_ts coord chunk_data = Inl StructError"
    using compare_chunk_ts_cases by blast
qed

theorem chunk_slice_safe_iff_in_bounds_witness:
  "(1::nat) < length (replicate 5840 (0::byte)) div (730 * 4)
   \<and> (\<exists>ts. verify_chunk_ts 1 (replicate 5840 0) = Inr ts \<and> length ts = 730)
   \<and> (\<exists>ts. compare_chunk_ts 1 (replicate 5840 0) = Inr ts \<and> length ts = 730)
   \<and> length (replicate 5840 (0::byte)) div (730 * 4) \<le> (2::nat)
   \<and> verify_chunk_ts 2 (replicate 5840 0) = Inl StructError
   \<and> compare_chunk_ts 2 (replicate 5840 0) = Inl StructError"
  using chunk_slice_safe_iff_in_bounds [of 1 "replicate 5840 0"]
    chunk_slice_safe_iff_in_bounds [of 2 "replicate 5840 0"]
  by simp

section \<open>Flattening conventions\<close>

text \<open>
  Claim C1, as stated, fails: no script flattens lon-major.  On a grid of 2 latitudes
  by 3 longitudes, at the cell with latitude index 0 and longitude index 1, each of
  the three scripts that compute a flattened index gives 1, and the lon-major
  convention gives 2.
\<close>

theorem no_script_flattens_lon_major:
  "coord_index 0 [Fin 0, Fin 1, Fin 2] 1 \<noteq> lon_major 2 0 1
   \<and> coord_idx_calculated 0 [Fin 0, Fin 1, Fin 2] 1 \<noteq> lon_major 2 0 1
   \<and> coord_idx_berlin 0 3 1 \<noteq> lon_major 2 0 1"
  by (simp add: coord_index_def coord_idx_calculated_def coord_idx_berlin_def lon_major_def)

text \<open>
  Claim C1, amended.  The three scripts that compute a flattened coordinate index
  (compare\_netcdf\_chunk.py, verify\_coordinate\_mapping.py, final\_diagnosis.py) all
  use the lat-major convention \<open>lat_idx * nlon + lon_idx\<close>.  The lat-major and the
  lon-major convention differ at some cell of every grid with \<open>nlat > 1\<close> and
  \<open>nlon > 1\<close>.
\<close>

theorem every_script_flattens_lat_major:
  "coord_index lat_idx lon lon_idx = lat_major (length lon) lat_idx lon_idx
   \<and> coord_idx_calculated filtered_lat_idx lon_flt filtered_lon_idx
       = lat_major (length lon_flt) filtered_lat_idx filtered_lon_idx
   \<and> coord_idx_berlin filtered_lat_idx nlon' filtered_lon_idx
       = lat_major nlon' filtered_lat_idx filtered_lon_idx
   \<and> (1 < nlat \<and> 1 < nlon \<longrightarrow>
        (\<exists>la < nlat. \<exists>lo < nlon. lat_major nlon la lo \<noteq> lon_major nlat la lo))"
proof -
  have "\<exists>la < nlat. \<exists>lo < nlon. lat_major nlon la lo \<noteq> lon_major nlat la lo"
    if "1 < nlat" "1 < nlon"
  proof -
    have "lat_major nlon 0 1 \<noteq> lon_major nlat 0 1"
      using that by (simp add: lat_major_def lon_major_def)
    with that show ?thesis by (metis less_trans zero_less_one)
  qed
  then show ?thesis
    by (simp add: coord_index_def coord_idx_calculated_def coord_idx_berlin_def
        lat_major_def)
qed

theorem every_script_flattens_lat_major_witness:
  "(1::nat) < 2 \<and> (1::nat) < 3
   \<and> coord_index 1 [Fin 0, Fin 1, Fin 2] 2 = lat_major 3 1 2
   \<and> (\<exists>la < 2. \<exists>lo < 3. lat_major 3 la lo \<noteq> lon_major 2 la lo)"
  using every_script_flattens_lat_major [of 1 "[Fin 0, Fin 1, Fin 2]" 2 0 "[]" 0 0 2 3]
  by (simp add: lat_major_def)

section \<open>The first minimum found by \<open>np_argmin\<close>\<close>

lemma py_fge_not_NaN: "py_fge x y \<Longrightarrow> x \<noteq> NaN \<and> y \<noteq> NaN"
  by (cases x; cases y) simp_all

lemma py_fge_refl: "x \<noteq> NaN \<Longrightarrow> py_fge x x"
  by (cases x) simp_all

lemma py_fge_total: "x \<noteq> NaN \<Longrightarrow> y \<noteq> NaN \<Longrightarrow> py_fge x y \<or> py_fge y x"
  by (cases x; cases y) auto

lemma py_fge_trans: "py_fge x y \<Longrightarrow> py_fge y z \<Longrightarrow> py_fge x z"
  by (cases x; cases y; cases z) simp_all

lemma argmin_from_NaN [simp]: "argmin_from xs i min_ind NaN = min_ind"
  by (cases xs) simp_all

lemma argmin_from_keep:
  "mp \<noteq> NaN \<Longrightarrow> \<forall>b \<in> set bs. py_fge b mp \<Longrightarrow> argmin_from bs k min_ind mp = min_ind"
  by (induction bs arbitrary: k) simp_all

lemma argmin_from_first_min:
  assumes "mp \<noteq> NaN" "m \<noteq> NaN" "\<not> py_fge m mp"
    and "\<forall>a \<in> set as. a \<noteq> NaN \<and> \<not> py_fge m a"
    and "\<forall>b \<in> set bs. py_fge b m"
  shows "argmin_from (as @ m # bs) i min_ind mp = i + length as"
  using assms
proof (induction as arbitrary: i min_ind mp)
  case Nil
  then show ?case by (simp add: argmin_from_keep)
next
  case (Cons a as)
  show ?case
  proof (cases "py_fge a mp")
    case True
    have "argmin_from (as @ m # bs) (i + 1) min_ind mp = (i + 1) + length as"
      using Cons.prems by (intro Cons.IH) simp_all
    with True Cons.prems(1) show ?thesis by simp
  next
    case False
    have "argmin_from (as @ m # bs) (i + 1) i a = (i + 1) + length as"
      using Cons.prems by (intro Cons.IH) simp_all
    with False Cons.prems(1) show ?thesis by simp
  qed
qed

lemma np_argmin_first_min:
  assumes "m \<noteq> NaN"
    and "\<forall>a \<in> set as. a \<noteq> NaN \<and> \<not> py_fge m a"
    and "\<forall>b \<in> set bs. py_fge b m"
  shows "np_argmin (as @ m # bs) = Inr (length as)"
proof (cases as)
  case Nil
  with assms show ?thesis by (simp add: argmin_from_keep)
next
  case (Cons a as')
  have "argmin_from (as' @ m # bs) 1 0 a = 1 + length as'"
    using assms Cons by (intro argmin_from_first_min) simp_all
  with Cons show ?thesis by simp
qed

lemma first_min_exists:
  assumes "xs \<noteq> []" "NaN \<notin> set xs"
  shows "\<exists>r < length xs. (\<forall>a \<in> set (take r xs). \<not> py_fge (xs ! r) a)
            \<and> (\<forall>b \<in> set (drop (Suc r) xs). py_fge b (xs ! r))"
  using assms
proof (induction xs)
  case Nil
  then show ?case by simp
next
  case (Cons x xs)
  show ?case
  proof (cases "xs = []")
    case True
    then show ?thesis by auto
  next
    case False
    with Cons obtain r where r: "r < length xs"
      and before: "\<forall>a \<in> set (take r xs). \<not> py_fge (xs ! r) a"
      and after: "\<forall>b \<in> set (drop (Suc r) xs). py_fge b (xs ! r)"
      by auto
    have nn: "x \<noteq> NaN" "xs ! r \<noteq> NaN" "\<forall>y \<in> set xs. y \<noteq> NaN"
      using Cons.prems r by (auto simp: in_set_conv_nth)
    show ?thesis
    proof (cases "py_fge (xs ! r) x")
      case True
      have "py_fge b x" if "b \<in> set xs" for b
      proof -
        have "set xs = set (take r xs @ xs ! r # drop (Suc r) xs)"
          by (rule arg_cong [OF id_take_nth_drop [OF r]])
        also have "\<dots> = set (take r xs) \<union> {xs ! r} \<union> set (drop (Suc r) xs)"
          by simp
        finally have "set xs = set (take r xs) \<union> {xs ! r} \<union> set (drop (Suc r) xs)" .
        with that consider "b \<in> set (take r xs)" | "b = xs ! r"
          | "b \<in> set (drop (Suc r) xs)" by blast
        then have "py_fge b (xs ! r)"
        proof cases
          case 1
          with before have "\<not> py_fge (xs ! r) b" by blast
          moreover have "b \<noteq> NaN" using nn that by blast
          ultimately show ?thesis using py_fge_total nn(2) by blast
        next
          case 2
          then show ?thesis using nn(2) by (simp add: py_fge_refl)
        next
          case 3
          with after show ?thesis by blast
        qed
        then show ?thesis using True by (rule py_fge_trans)
      qed
      then have "0 < length (x # xs) \<and> (\<forall>a \<in> set (take 0 (x # xs)). \<not> py_fge ((x # xs) ! 0) a)
            \<and> (\<forall>b \<in> set (drop (Suc 0) (x # xs)). py_fge b ((x # xs) ! 0))"
        by simp
      then show ?thesis by blast
    next
      case False
      have "Suc r < length (x # xs) \<and>
            (\<forall>a \<in> set (take (Suc r) (x # xs)). \<not> py_fge ((x # xs) ! Suc r) a)
            \<and> (\<forall>b \<in> set (drop (Suc (Suc r)) (x # xs)). py_fge b ((x # xs) ! Suc r))"
        using r before after False by simp
      then show ?thesis by blast
    qed
  qed
qed

lemma np_argmin_first_minD:
  assumes "np_argmin xs = Inr r" "NaN \<notin> set xs"
  shows "r < length xs \<and> (\<forall>a \<in> set (take r xs). \<not> py_fge (xs ! r) a)
            \<and> (\<forall>b \<in> set (drop (Suc r) xs). py_fge b (xs ! r))"
proof -
  from assms(1) have "xs \<noteq> []" by auto
  with assms(2) obtain r0 where r0: "r0 < length xs"
    and before: "\<forall>a \<in> set (take r0 xs). \<not> py_fge (xs ! r0) a"
    and after: "\<forall>b \<in> set (drop (Suc r0) xs). py_fge b (xs ! r0)"
    using first_min_exists by blast
  have split: "xs = take r0 xs @ xs ! r0 # drop (Suc r0) xs"
    by (rule id_take_nth_drop [OF r0])
  have "np_argmin (take r0 xs @ xs ! r0 # drop (Suc r0) xs) = Inr (length (take r0 xs))"
  proof (rule np_argmin_first_min)
    show "xs ! r0 \<noteq> NaN" using assms(2) r0 by (metis nth_mem)
    show "\<forall>a \<in> set (take r0 xs). a \<noteq> NaN \<and> \<not> py_fge (xs ! r0) a"
      using before assms(2) by (metis in_set_takeD)
    show "\<forall>b \<in> set (drop (Suc r0) xs). py_fge b (xs ! r0)" by (rule after)
  qed
  moreover have "length (take r0 xs) = r0" using r0 by simp
  ultimately have "np_argmin xs = Inr r0" using split by metis
  with assms(1) have "r = r0" by simp
  with r0 before after show ?thesis by simp
qed

text \<open>When the array holds a NaN, the result is the index of a NaN.\<close>

lemma argmin_from_finds_NaN:
  assumes "mp \<noteq> NaN" "NaN \<in> set xs"
  shows "i \<le> argmin_from xs i min_ind mp \<and> argmin_from xs i min_ind mp < i + length xs
         \<and> xs ! (argmin_from xs i min_ind mp - i) = NaN"
  using assms
proof (induction xs arbitrary: i min_ind mp)
  case Nil
  then show ?case by simp
next
  case (Cons x xs)
  show ?case
  proof (cases "x = NaN")
    case True
    with Cons.prems(1) show ?thesis by simp
  next
    case False
    with Cons.prems have mem: "NaN \<in> set xs" by simp
    show ?thesis
    proof (cases "py_fge x mp")
      case True
      from Cons.IH [OF Cons.prems(1) mem, of "i + 1" min_ind] True Cons.prems(1)
      show ?thesis by (auto simp: nth_Cons')
    next
      case nge: False
      from Cons.IH [OF False mem, of "i + 1" i] nge Cons.prems(1)
      show ?thesis by (auto simp: nth_Cons')
    qed
  qed
qed

lemma np_argmin_finds_NaN:
  assumes "np_argmin xs = Inr r" "NaN \<in> set xs"
  shows "r < length xs \<and> xs ! r = NaN"
proof (cases xs)
  case Nil
  with assms show ?thesis by simp
next
  case (Cons x xs')
  show ?thesis
  proof (cases "x = NaN")
    case True
    with Cons assms show ?thesis by auto
  next
    case False
    with Cons assms have "NaN \<in> set xs'" by simp
    from argmin_from_finds_NaN [OF False this, of 1 0] Cons assms(1)
    show ?thesis by (auto simp: nth_Cons')
  qed
qed

section \<open>The nearest cell in the full and in the filtered grid\<close>

lemma np_argmin_bound: "np_argmin xs = Inr r \<Longrightarrow> r < length xs"
  using np_argmin_finds_NaN np_argmin_first_minD by blast

lemma index_by_where_eq_filter:
  "map (\<lambda>i. xs ! i) (np_where (map P xs)) = filter P xs"
proof -
  have "filter (\<lambda>i. map P xs ! i) [0..<length (map P xs)]
          = filter (P \<circ> (\<lambda>i. xs ! i)) [0..<length xs]"
    by (rule filter_cong) simp_all
  then have "map (\<lambda>i. xs ! i) (np_where (map P xs))
          = filter P (map (\<lambda>i. xs ! i) [0..<length xs])"
    by (simp add: np_where_def filter_map)
  then show ?thesis by (simp add: map_nth)
qed

lemma lon_filtered_eq_filter:
  "lon_filtered lon_full = filter (\<lambda>x. py_ge x min_lon \<and> py_le x max_lon) lon_full"
  by (simp add: lon_filtered_def lon_indices_def lon_mask_def index_by_where_eq_filter)

lemma lat_filtered_eq_filter:
  "lat_filtered lat_full = filter (\<lambda>x. py_ge x min_lat \<and> py_le x max_lat) lat_full"
  by (simp add: lat_filtered_def lat_indices_def lat_mask_def index_by_where_eq_filter)

lemma abs_diff_NaN_iff: "py_abs (py_sub x t) = NaN \<longleftrightarrow> x = NaN"
  by (cases x) simp_all

text \<open>
  If the cell nearest to the target is kept by a filter that keeps no NaN, the
  nearest cell of the filtered array is the same cell, found at its position among
  the kept cells.
\<close>

lemma argmin_abs_diff_filter:
  assumes r: "argmin_abs_diff xs t = Inr r"
    and keep: "P (xs ! r)"
    and fin: "\<And>x. P x \<Longrightarrow> x \<noteq> NaN"
  shows "argmin_abs_diff (filter P xs) t = Inr (length (filter P (take r xs)))"
proof -
  define f where "f = (\<lambda>x. py_abs (py_sub x t))"
  define ys where "ys = map f xs"
  have arg: "np_argmin ys = Inr r"
    using r by (simp add: argmin_abs_diff_def ys_def f_def)
  then have "r < length ys" by (rule np_argmin_bound)
  then have rlen: "r < length xs" by (simp add: ys_def)
  then have ysr: "ys ! r = f (xs ! r)" by (simp add: ys_def)
  have "xs ! r \<noteq> NaN" using keep by (rule fin)
  then have ysr_fin: "ys ! r \<noteq> NaN" by (simp add: ysr f_def abs_diff_NaN_iff)
  have noNaN: "NaN \<notin> set ys"
    using np_argmin_finds_NaN [OF arg] ysr_fin by blast
  from np_argmin_first_minD [OF arg noNaN]
  have before: "\<forall>a \<in> set (take r ys). \<not> py_fge (ys ! r) a"
    and after: "\<forall>b \<in> set (drop (Suc r) ys). py_fge b (ys ! r)"
    by simp_all
  have "filter P xs = filter P (take r xs @ xs ! r # drop (Suc r) xs)"
    by (rule arg_cong [OF id_take_nth_drop [OF rlen]])
  also have "\<dots> = filter P (take r xs) @ xs ! r # filter P (drop (Suc r) xs)"
    using keep by simp
  finally have "map f (filter P xs)
      = map f (filter P (take r xs)) @ f (xs ! r) # map f (filter P (drop (Suc r) xs))"
    by simp
  moreover have "np_argmin (map f (filter P (take r xs)) @ f (xs ! r)
                    # map f (filter P (drop (Suc r) xs)))
      = Inr (length (map f (filter P (take r xs))))"
  proof (rule np_argmin_first_min)
    show "f (xs ! r) \<noteq> NaN" using ysr_fin ysr by simp
    show "\<forall>a \<in> set (map f (filter P (take r xs))). a \<noteq> NaN \<and> \<not> py_fge (f (xs ! r)) a"
    proof
      fix a assume "a \<in> set (map f (filter P (take r xs)))"
      then have "a \<in> set (take r ys)" by (auto simp: ys_def take_map)
      then show "a \<noteq> NaN \<and> \<not> py_fge (f (xs ! r)) a"
        using before noNaN ysr by (metis in_set_takeD)
    qed
    show "\<forall>b \<in> set (map f (filter P (drop (Suc r) xs))). py_fge b (f (xs ! r))"
    proof
      fix b assume "b \<in> set (map f (filter P (drop (Suc r) xs)))"
      then have "b \<in> set (drop (Suc r) ys)" by (auto simp: ys_def drop_map)
      then show "py_fge b (f (xs ! r))" using after ysr by simp
    qed
  qed
  ultimately show ?thesis by (simp add: argmin_abs_diff_def f_def)
qed

lemma length_filter_eq_iff: "length (filter P xs) = length xs \<longleftrightarrow> (\<forall>x \<in> set xs. P x)"
proof -
  have "length (filter P xs) + length (filter (\<lambda>x. \<not> P x) xs) = length xs"
    by (rule sum_length_filter_compl)
  moreover have "length (filter (\<lambda>x. \<not> P x) xs) = 0 \<longleftrightarrow> (\<forall>x \<in> set xs. P x)"
    by (simp add: filter_empty_conv)
  ultimately show ?thesis by linarith
qed

lemma length_filter_take_eq_iff:
  assumes "r \<le> length xs"
  shows "length (filter P (take r xs)) = r \<longleftrightarrow> (\<forall>j < r. P (xs ! j))"
proof -
  have "length (filter P (take r xs)) = length (take r xs) \<longleftrightarrow> (\<forall>x \<in> set (take r xs). P x)"
    by (rule length_filter_eq_iff)
  moreover have "length (take r xs) = r" using assms by simp
  moreover have "(\<forall>x \<in> set (take r xs). P x) \<longleftrightarrow> (\<forall>j < r. P (xs ! j))"
  proof
    assume all: "\<forall>x \<in> set (take r xs). P x"
    show "\<forall>j < r. P (xs ! j)"
    proof (intro allI impI)
      fix j assume "j < r"
      then have "take r xs ! j = xs ! j" "j < length (take r xs)" using assms by simp_all
      then have "xs ! j \<in> set (take r xs)" by (metis nth_mem)
      with all show "P (xs ! j)" by blast
    qed
  next
    assume "\<forall>j < r. P (xs ! j)"
    then show "\<forall>x \<in> set (take r xs). P x"
      using assms by (auto simp: in_set_conv_nth)
  qed
  ultimately show ?thesis by simp
qed

lemma flat_index_le:
  fixes a b n a' b' n' :: nat
  assumes "a' \<le> a" "b' \<le> b" "n' \<le> n"
  shows "a' * n' + b' \<le> a * n + b"
  using assms by (simp add: add_mono mult_le_mono)

lemma flat_index_eq_iff:
  fixes a b n a' b' n' :: nat
  assumes "a' \<le> a" "b' \<le> b" "n' \<le> n" "b < n"
  shows "a' * n' + b' = a * n + b \<longleftrightarrow> a' = a \<and> b' = b \<and> (a = 0 \<or> n' = n)"
proof
  assume eq: "a' * n' + b' = a * n + b"
  have le1: "a' * n' \<le> a' * n" using assms(3) by simp
  have le2: "a' * n \<le> a * n" using assms(1) by simp
  from eq assms(2) le1 le2 have b: "b' = b" and p: "a' * n' = a * n" by linarith+
  from p le1 le2 have q: "a' * n = a * n" and q': "a' * n' = a' * n" by linarith+
  from q assms(4) have a: "a' = a" by simp
  from q' a have "a = 0 \<or> n' = n" by auto
  with a b show "a' = a \<and> b' = b \<and> (a = 0 \<or> n' = n)" by blast
next
  assume "a' = a \<and> b' = b \<and> (a = 0 \<or> n' = n)"
  then show "a' * n' + b' = a * n + b" by auto
qed

lemma in_lon_box_not_NaN: "py_ge x min_lon \<and> py_le x max_lon \<Longrightarrow> x \<noteq> NaN"
  by (cases x) simp_all

lemma in_lat_box_not_NaN: "py_ge x min_lat \<and> py_le x max_lat \<Longrightarrow> x \<noteq> NaN"
  by (cases x) simp_all

lemma offsets_eq_iff: "offset c' = chunk_offset c \<longleftrightarrow> c' = c"
  by (simp add: offset_def chunk_offset_def num_days_def)

text \<open>
  Claim C2, as stated, fails: the two scripts do not always disagree.  On a grid that
  lies inside the bounding box the filtered grid is the full grid, and for the target
  52.5 N, 13.4 E both scripts compute the coordinate index 4 and read the same byte
  offset of the chunk file.
\<close>

theorem full_and_filtered_index_can_agree:
  "compare_coord_index 52.5 13.4 [Fin 40, Fin 50, Fin 60] [Fin 0, Fin 10, Fin 20] = Inr 4
   \<and> verify_coord_idx_calculated 52.5 13.4 [Fin 40, Fin 50, Fin 60] [Fin 0, Fin 10, Fin 20]
       = Inr 4
   \<and> offset 4 = chunk_offset 4"
  by (simp add: compare_coord_index_def verify_coord_idx_calculated_def argmin_abs_diff_def
      coord_index_def coord_idx_calculated_def lat_filtered_eq_filter lon_filtered_eq_filter
      min_lon_def max_lon_def min_lat_def max_lat_def offset_def chunk_offset_def)

text \<open>
  Claim C2, amended.  Take the same target and the same source coordinate arrays, and
  let the cell nearest to the target in the full grid lie inside the bounding box.
  Then both scripts compute an index; the index of verify\_coordinate\_mapping.py is
  never larger than the index of compare\_netcdf\_chunk.py; the two are equal exactly
  when the box drops no cell before the nearest cell on either axis and, unless the
  nearest latitude index is 0, drops no longitude at all; and the two byte offsets
  \<open>coord * 730 * 4\<close> are equal exactly when the indices are.
\<close>

theorem full_vs_filtered_index:
  assumes lat: "argmin_abs_diff lat target_lat = Inr lat_idx"
    and lon: "argmin_abs_diff lon target_lon = Inr lon_idx"
    and lat_in: "lat_mask lat ! lat_idx"
    and lon_in: "lon_mask lon ! lon_idx"
  shows "\<exists>c c'. compare_coord_index target_lat target_lon lat lon = Inr c
           \<and> verify_coord_idx_calculated target_lat target_lon lat lon = Inr c'
           \<and> c' \<le> c
           \<and> (c' = c \<longleftrightarrow>
                (\<forall>j < lat_idx. lat_mask lat ! j) \<and> (\<forall>i < lon_idx. lon_mask lon ! i)
                \<and> (lat_idx = 0 \<or> (\<forall>i < length lon. lon_mask lon ! i)))
           \<and> (offset c' = chunk_offset c \<longleftrightarrow> c' = c)"
proof -
  define P where "P = (\<lambda>x. py_ge x min_lat \<and> py_le x max_lat)"
  define Q where "Q = (\<lambda>x. py_ge x min_lon \<and> py_le x max_lon)"
  define a' where "a' = length (filter P (take lat_idx lat))"
  define b' where "b' = length (filter Q (take lon_idx lon))"
  define n' where "n' = length (filter Q lon)"
  have a_len: "lat_idx < length lat"
    using np_argmin_bound [of _ lat_idx] lat by (fastforce simp: argmin_abs_diff_def)
  have b_len: "lon_idx < length lon"
    using np_argmin_bound [of _ lon_idx] lon by (fastforce simp: argmin_abs_diff_def)
  have lat_nth: "lat_mask lat ! j = P (lat ! j)" if "j < length lat" for j
    using that by (simp add: lat_mask_def P_def)
  have lon_nth: "lon_mask lon ! i = Q (lon ! i)" if "i < length lon" for i
    using that by (simp add: lon_mask_def Q_def)
  have Pa: "P (lat ! lat_idx)" using lat_in a_len by (simp add: lat_nth)
  have Qb: "Q (lon ! lon_idx)" using lon_in b_len by (simp add: lon_nth)
  have flat: "argmin_abs_diff (lat_filtered lat) target_lat = Inr a'"
    unfolding lat_filtered_eq_filter a'_def P_def [symmetric]
    using lat Pa by (rule argmin_abs_diff_filter) (simp add: P_def in_lat_box_not_NaN)
  have flon: "argmin_abs_diff (lon_filtered lon) target_lon = Inr b'"
    unfolding lon_filtered_eq_filter b'_def Q_def [symmetric]
    using lon Qb by (rule argmin_abs_diff_filter) (simp add: Q_def in_lon_box_not_NaN)
  have cmp: "compare_coord_index target_lat target_lon lat lon
               = Inr (lat_idx * length lon + lon_idx)"
    unfolding compare_coord_index_def lat lon by (simp add: coord_index_def)
  have ver: "verify_coord_idx_calculated target_lat target_lon lat lon = Inr (a' * n' + b')"
    unfolding verify_coord_idx_calculated_def flat flon
    by (simp add: coord_idx_calculated_def n'_def lon_filtered_eq_filter Q_def)
  have a_le: "a' \<le> lat_idx"
  proof -
    have "a' \<le> length (take lat_idx lat)" unfolding a'_def by (rule length_filter_le)
    then show ?thesis using a_len by simp
  qed
  have b_le: "b' \<le> lon_idx"
  proof -
    have "b' \<le> length (take lon_idx lon)" unfolding b'_def by (rule length_filter_le)
    then show ?thesis using b_len by simp
  qed
  have n_le: "n' \<le> length lon" unfolding n'_def by (rule length_filter_le)
  have a_eq: "a' = lat_idx \<longleftrightarrow> (\<forall>j < lat_idx. lat_mask lat ! j)"
  proof -
    have "a' = lat_idx \<longleftrightarrow> (\<forall>j < lat_idx. P (lat ! j))"
      unfolding a'_def using a_len by (intro length_filter_take_eq_iff) simp
    then show ?thesis using a_len by (simp add: lat_nth)
  qed
  have b_eq: "b' = lon_idx \<longleftrightarrow> (\<forall>i < lon_idx. lon_mask lon ! i)"
  proof -
    have "b' = lon_idx \<longleftrightarrow> (\<forall>i < lon_idx. Q (lon ! i))"
      unfolding b'_def using b_len by (intro length_filter_take_eq_iff) simp
    then show ?thesis using b_len by (simp add: lon_nth)
  qed
  have n_eq: "n' = length lon \<longleftrightarrow> (\<forall>i < length lon. lon_mask lon ! i)"
  proof -
    have "n' = length lon \<longleftrightarrow> (\<forall>x \<in> set lon. Q x)"
      unfolding n'_def by (rule length_filter_eq_iff)
    also have "\<dots> \<longleftrightarrow> (\<forall>i < length lon. Q (lon ! i))"
      by (simp add: all_set_conv_all_nth)
    finally show ?thesis by (simp add: lon_nth)
  qed
  have le: "a' * n' + b' \<le> lat_idx * length lon + lon_idx"
    using a_le b_le n_le by (rule flat_index_le)
  have "a' * n' + b' = lat_idx * length lon + lon_idx
          \<longleftrightarrow> a' = lat_idx \<and> b' = lon_idx \<and> (lat_idx = 0 \<or> n' = length lon)"
    using a_le b_le n_le b_len by (rule flat_index_eq_iff)
  then have eq: "a' * n' + b' = lat_idx * length lon + lon_idx
          \<longleftrightarrow> (\<forall>j < lat_idx. lat_mask lat ! j) \<and> (\<forall>i < lon_idx. lon_mask lon ! i)
              \<and> (lat_idx = 0 \<or> (\<forall>i < length lon. lon_mask lon ! i))"
    by (simp only: a_eq b_eq n_eq)
  show ?thesis
    using cmp ver le eq offsets_eq_iff by blast
qed

theorem full_vs_filtered_index_witness:
  "argmin_abs_diff [Fin 30, Fin 40, Fin 50, Fin 60] 52.5 = Inr 2
   \<and> argmin_abs_diff [Fin (- 30), Fin 0, Fin 10, Fin 20] 13.4 = Inr 2
   \<and> lat_mask [Fin 30, Fin 40, Fin 50, Fin 60] ! 2
   \<and> lon_mask [Fin (- 30), Fin 0, Fin 10, Fin 20] ! 2
   \<and> compare_coord_index 52.5 13.4 [Fin 30, Fin 40, Fin 50, Fin 60]
        [Fin (- 30), Fin 0, Fin 10, Fin 20] = Inr 10
   \<and> verify_coord_idx_calculated 52.5 13.4 [Fin 30, Fin 40, Fin 50, Fin 60]
        [Fin (- 30), Fin 0, Fin 10, Fin 20] = Inr 4
   \<and> offset 4 \<noteq> chunk_offset 10"
proof -
  have h1: "argmin_abs_diff [Fin 30, Fin 40, Fin 50, Fin 60] 52.5 = Inr 2"
    by (simp add: argmin_abs_diff_def)
  have h2: "argmin_abs_diff [Fin (- 30), Fin 0, Fin 10, Fin 20] 13.4 = Inr 2"
    by (simp add: argmin_abs_diff_def)
  have h3: "lat_mask [Fin 30, Fin 40, Fin 50, Fin 60] ! 2"
    by (simp add: lat_mask_def min_lat_def max_lat_def)
  have h4: "lon_mask [Fin (- 30), Fin 0, Fin 10, Fin 20] ! 2"
    by (simp add: lon_mask_def min_lon_def max_lon_def)
  have c: "compare_coord_index 52.5 13.4 [Fin 30, Fin 40, Fin 50, Fin 60]
        [Fin (- 30), Fin 0, Fin 10, Fin 20] = Inr 10"
    unfolding compare_coord_index_def h1 h2 by (simp add: coord_index_def)
  from full_vs_filtered_index [OF h1 h2 h3 h4] c
  obtain c' where v: "verify_coord_idx_calculated 52.5 13.4 [Fin 30, Fin 40, Fin 50, Fin 60]
        [Fin (- 30), Fin 0, Fin 10, Fin 20] = Inr c'"
    and iff: "c' = 10 \<longleftrightarrow> (\<forall>j < 2. lat_mask [Fin 30, Fin 40, Fin 50, Fin 60] ! j)
        \<and> (\<forall>i < 2. lon_mask [Fin (- 30), Fin 0, Fin 10, Fin 20] ! i)
        \<and> ((2::nat) = 0 \<or> (\<forall>i < length [Fin (- 30), Fin 0, Fin 10, Fin 20].
               lon_mask [Fin (- 30), Fin 0, Fin 10, Fin 20] ! i))"
    by auto
  have v4: "verify_coord_idx_calculated 52.5 13.4 [Fin 30, Fin 40, Fin 50, Fin 60]
        [Fin (- 30), Fin 0, Fin 10, Fin 20] = Inr 4"
    by (simp add: verify_coord_idx_calculated_def argmin_abs_diff_def coord_idx_calculated_def
        lat_filtered_eq_filter lon_filtered_eq_filter min_lon_def max_lon_def min_lat_def
        max_lat_def)
  show ?thesis
    using h1 h2 h3 h4 c v4 v iff by (simp add: offset_def chunk_offset_def num_days_def)
qed

section \<open>The flattening loops of final\_diagnosis.py\<close>

lemma for_each_append:
  "for_each (xs @ ys) body s =
     (case for_each xs body s of Inl e \<Rightarrow> Inl e | Inr s' \<Rightarrow> for_each ys body s')"
  by (induction xs arbitrary: s) (simp_all split: sum.splits)

lemma for_each_snoc:
  "for_each xs body s = Inr s' \<Longrightarrow> for_each (xs @ [x]) body s = body x s'"
  by (simp add: for_each_append split: sum.splits)

text \<open>
  The loop over \<open>t\<close> writes one run of the flat array, each element converted to
  float32, and nothing else.
\<close>

lemma loop_t:
  assumes "i < shape0 d" "j < shape1 d" "n \<le> shape2 d" "c * ntime + n \<le> length flat"
  shows "\<exists>flat'. for_each [0..<n] (flatten_body_t d ntime c j i) flat = Inr flat'
           \<and> length flat' = length flat
           \<and> (\<forall>t < n. flat' ! (c * ntime + t) = np_float32 (item d i j t))
           \<and> (\<forall>k. k < c * ntime \<or> c * ntime + n \<le> k \<longrightarrow> flat' ! k = flat ! k)"
  using assms
proof (induction n)
  case 0
  then show ?case by simp
next
  case (Suc n)
  then obtain flat' where run: "for_each [0..<n] (flatten_body_t d ntime c j i) flat = Inr flat'"
    and len: "length flat' = length flat"
    and written: "\<forall>t < n. flat' ! (c * ntime + t) = np_float32 (item d i j t)"
    and rest: "\<forall>k. k < c * ntime \<or> c * ntime + n \<le> k \<longrightarrow> flat' ! k = flat ! k"
    by auto
  define flat'' where "flat'' = flat'[c * ntime + n := np_float32 (item d i j n)]"
  have "flatten_body_t d ntime c j i n flat' = Inr flat''"
    using Suc.prems len by (simp add: flatten_body_t_def getitem3_def setitem_def flat''_def)
  with run have "for_each [0..<Suc n] (flatten_body_t d ntime c j i) flat = Inr flat''"
    by (simp add: for_each_snoc)
  moreover have "length flat'' = length flat" by (simp add: flat''_def len)
  moreover have "\<forall>t < Suc n. flat'' ! (c * ntime + t) = np_float32 (item d i j t)"
    using written Suc.prems len by (auto simp: flat''_def nth_list_update less_Suc_eq)
  moreover have "\<forall>k. k < c * ntime \<or> c * ntime + Suc n \<le> k \<longrightarrow> flat'' ! k = flat ! k"
    using rest by (auto simp: flat''_def nth_list_update)
  ultimately show ?case by blast
qed

lemma run_bound:
  fixes c i m ntime t :: nat
  assumes "i < m" "t < ntime"
  shows "(c + i) * ntime + t < (c + m) * ntime"
proof -
  have "(c + i) * ntime + t < (c + i) * ntime + ntime" using assms(2) by simp
  also have "\<dots> = (c + i + 1) * ntime" by simp
  also have "\<dots> \<le> (c + m) * ntime" using assms(1) by (intro mult_le_mono1) simp
  finally show ?thesis .
qed

text \<open>The loop over \<open>i\<close> writes \<open>m\<close> consecutive runs and advances \<open>coord_idx\<close> by \<open>m\<close>.\<close>

lemma loop_i:
  assumes "j < shape1 d" "m \<le> shape0 d" "ntime = shape2 d" "(cb + m) * ntime \<le> length flat"
  shows "\<exists>flat'. for_each [0..<m] (flatten_body_i d ntime j) (flat, cb) = Inr (flat', cb + m)
           \<and> length flat' = length flat
           \<and> (\<forall>i < m. \<forall>t < ntime. flat' ! ((cb + i) * ntime + t) = np_float32 (item d i j t))
           \<and> (\<forall>k. k < cb * ntime \<or> (cb + m) * ntime \<le> k \<longrightarrow> flat' ! k = flat ! k)"
  using assms
proof (induction m)
  case 0
  then show ?case by simp
next
  case (Suc m)
  have "(cb + m) * ntime \<le> (cb + Suc m) * ntime" by simp
  with Suc.prems have "(cb + m) * ntime \<le> length flat" "m \<le> shape0 d" by linarith+
  with Suc.IH Suc.prems obtain flat' where
    run: "for_each [0..<m] (flatten_body_i d ntime j) (flat, cb) = Inr (flat', cb + m)"
    and len: "length flat' = length flat"
    and written: "\<forall>i < m. \<forall>t < ntime. flat' ! ((cb + i) * ntime + t) = np_float32 (item d i j t)"
    and rest: "\<forall>k. k < cb * ntime \<or> (cb + m) * ntime \<le> k \<longrightarrow> flat' ! k = flat ! k"
    by auto
  have "m < shape0 d" using Suc.prems by simp
  moreover have "ntime \<le> shape2 d" using Suc.prems by simp
  moreover have "(cb + m) * ntime + ntime \<le> length flat'" using Suc.prems len by simp
  ultimately have "\<exists>flat''.
      for_each [0..<ntime] (flatten_body_t d ntime (cb + m) j m) flat' = Inr flat''
      \<and> length flat'' = length flat'
      \<and> (\<forall>t < ntime. flat'' ! ((cb + m) * ntime + t) = np_float32 (item d m j t))
      \<and> (\<forall>k. k < (cb + m) * ntime \<or> (cb + m) * ntime + ntime \<le> k
                  \<longrightarrow> flat'' ! k = flat' ! k)"
    using Suc.prems(1) by (intro loop_t)
  then obtain flat'' where
    inner: "for_each [0..<ntime] (flatten_body_t d ntime (cb + m) j m) flat' = Inr flat''"
    and len': "length flat'' = length flat'"
    and written': "\<forall>t < ntime. flat'' ! ((cb + m) * ntime + t) = np_float32 (item d m j t)"
    and rest': "\<forall>k. k < (cb + m) * ntime \<or> (cb + m) * ntime + ntime \<le> k
                  \<longrightarrow> flat'' ! k = flat' ! k"
    by blast
  have "flatten_body_i d ntime j m (flat', cb + m) = Inr (flat'', cb + Suc m)"
    by (simp add: flatten_body_i_def inner)
  with run have
    "for_each [0..<Suc m] (flatten_body_i d ntime j) (flat, cb) = Inr (flat'', cb + Suc m)"
    by (simp add: for_each_snoc)
  moreover have "length flat'' = length flat" using len len' by simp
  moreover have "\<forall>i < Suc m. \<forall>t < ntime. flat'' ! ((cb + i) * ntime + t) = np_float32 (item d i j t)"
  proof (intro allI impI)
    fix i t assume i: "i < Suc m" and t: "t < ntime"
    show "flat'' ! ((cb + i) * ntime + t) = np_float32 (item d i j t)"
    proof (cases "i = m")
      case True
      with written' t show ?thesis by simp
    next
      case False
      with i have im: "i < m" by simp
      then have "(cb + i) * ntime + t < (cb + m) * ntime" using t by (rule run_bound)
      with rest' have "flat'' ! ((cb + i) * ntime + t) = flat' ! ((cb + i) * ntime + t)"
        by blast
      with written im t show ?thesis by simp
    qed
  qed
  moreover have "\<forall>k. k < cb * ntime \<or> (cb + Suc m) * ntime \<le> k \<longrightarrow> flat'' ! k = flat ! k"
  proof (intro allI impI)
    fix k assume k: "k < cb * ntime \<or> (cb + Suc m) * ntime \<le> k"
    have "cb * ntime \<le> (cb + m) * ntime" by simp
    moreover have "(cb + Suc m) * ntime = (cb + m) * ntime + ntime" by simp
    ultimately have k1: "k < (cb + m) * ntime \<or> (cb + m) * ntime + ntime \<le> k"
      and k2: "k < cb * ntime \<or> (cb + m) * ntime \<le> k"
      using k by linarith+
    from rest' k1 have "flat'' ! k = flat' ! k" by blast
    also from rest k2 have "flat' ! k = flat ! k" by blast
    finally show "flat'' ! k = flat ! k" .
  qed
  ultimately show ?case by blast
qed

text \<open>The loop over \<open>j\<close>: after \<open>l\<close> rows, \<open>coord_idx = l * nlon\<close>.\<close>

lemma loop_j:
  assumes "l \<le> shape1 d" "nlon = shape0 d" "ntime = shape2 d"
    and "l * nlon * ntime \<le> length flat"
  shows "\<exists>flat'. for_each [0..<l] (flatten_body_j d nlon ntime) (flat, 0) = Inr (flat', l * nlon)
           \<and> length flat' = length flat
           \<and> (\<forall>j < l. \<forall>i < nlon. \<forall>t < ntime.
                 flat' ! ((j * nlon + i) * ntime + t) = np_float32 (item d i j t))
           \<and> (\<forall>k. l * nlon * ntime \<le> k \<longrightarrow> flat' ! k = flat ! k)"
  using assms
proof (induction l)
  case 0
  then show ?case by simp
next
  case (Suc l)
  have mono: "l * nlon * ntime \<le> Suc l * nlon * ntime" by simp
  with Suc.prems have "l * nlon * ntime \<le> length flat" "l \<le> shape1 d" by linarith+
  with Suc.IH Suc.prems obtain flat' where
    run: "for_each [0..<l] (flatten_body_j d nlon ntime) (flat, 0) = Inr (flat', l * nlon)"
    and len: "length flat' = length flat"
    and written: "\<forall>j < l. \<forall>i < nlon. \<forall>t < ntime.
                    flat' ! ((j * nlon + i) * ntime + t) = np_float32 (item d i j t)"
    and rest: "\<forall>k. l * nlon * ntime \<le> k \<longrightarrow> flat' ! k = flat ! k"
    by auto
  have "l < shape1 d" using Suc.prems by simp
  moreover have "nlon \<le> shape0 d" using Suc.prems by simp
  moreover have "(l * nlon + nlon) * ntime \<le> length flat'"
    using Suc.prems(4) len by (simp add: algebra_simps)
  ultimately have "\<exists>flat''.
      for_each [0..<nlon] (flatten_body_i d ntime l) (flat', l * nlon)
              = Inr (flat'', l * nlon + nlon)
      \<and> length flat'' = length flat'
      \<and> (\<forall>i < nlon. \<forall>t < ntime.
                     flat'' ! ((l * nlon + i) * ntime + t) = np_float32 (item d i l t))
      \<and> (\<forall>k. k < l * nlon * ntime \<or> (l * nlon + nlon) * ntime \<le> k
                  \<longrightarrow> flat'' ! k = flat' ! k)"
    using Suc.prems(3) by (intro loop_i)
  then obtain flat'' where
    inner: "for_each [0..<nlon] (flatten_body_i d ntime l) (flat', l * nlon)
              = Inr (flat'', l * nlon + nlon)"
    and len': "length flat'' = length flat'"
    and written': "\<forall>i < nlon. \<forall>t < ntime.
                     flat'' ! ((l * nlon + i) * ntime + t) = np_float32 (item d i l t)"
    and rest': "\<forall>k. k < l * nlon * ntime \<or> (l * nlon + nlon) * ntime \<le> k
                  \<longrightarrow> flat'' ! k = flat' ! k"
    by blast
  have "flatten_body_j d nlon ntime l (flat', l * nlon) = Inr (flat'', Suc l * nlon)"
    by (simp add: flatten_body_j_def inner)
  with run have
    "for_each [0..<Suc l] (flatten_body_j d nlon ntime) (flat, 0) = Inr (flat'', Suc l * nlon)"
    by (simp add: for_each_snoc)
  moreover have "length flat'' = length flat" using len len' by simp
  moreover have "\<forall>j < Suc l. \<forall>i < nlon. \<forall>t < ntime.
                   flat'' ! ((j * nlon + i) * ntime + t) = np_float32 (item d i j t)"
  proof (intro allI impI)
    fix j i t assume j: "j < Suc l" and i: "i < nlon" and t: "t < ntime"
    show "flat'' ! ((j * nlon + i) * ntime + t) = np_float32 (item d i j t)"
    proof (cases "j = l")
      case True
      with written' i t show ?thesis by simp
    next
      case False
      with j have jl: "j < l" by simp
      have "(j * nlon + i) * ntime + t < (j * nlon + nlon) * ntime"
        using i t by (rule run_bound)
      also have "\<dots> = Suc j * nlon * ntime" by simp
      also have "\<dots> \<le> l * nlon * ntime"
        using jl by (intro mult_le_mono1) simp
      finally have "flat'' ! ((j * nlon + i) * ntime + t) = flat' ! ((j * nlon + i) * ntime + t)"
        using rest' by blast
      with written jl i t show ?thesis by simp
    qed
  qed
  moreover have "\<forall>k. Suc l * nlon * ntime \<le> k \<longrightarrow> flat'' ! k = flat ! k"
  proof (intro allI impI)
    fix k assume k: "Suc l * nlon * ntime \<le> k"
    have "Suc l * nlon * ntime = (l * nlon + nlon) * ntime" by simp
    with k mono have k1: "(l * nlon + nlon) * ntime \<le> k" and k2: "l * nlon * ntime \<le> k"
      by linarith+
    from rest' k1 have "flat'' ! k = flat' ! k" by blast
    also from rest k2 have "flat' ! k = flat ! k" by blast
    finally show "flat'' ! k = flat ! k" .
  qed
  ultimately show ?case by blast
qed

text \<open>The index map of the layout is a bijection onto the indices of the flat array.\<close>

lemma flat_index_less:
  fixes nlon nlat ntime j i t :: nat
  assumes "j < nlat" "i < nlon" "t < ntime"
  shows "(j * nlon + i) * ntime + t < nlon * nlat * ntime"
proof -
  have "(j * nlon + i) * ntime + t < (j * nlon + nlon) * ntime"
    using assms(2,3) by (rule run_bound)
  also have "\<dots> = Suc j * nlon * ntime" by simp
  also have "\<dots> \<le> nlat * nlon * ntime" using assms(1) by (intro mult_le_mono1) simp
  finally show ?thesis by (simp add: mult.commute)
qed

lemma flat_index_bij:
  fixes nlon nlat ntime :: nat
  shows "bij_betw (\<lambda>(j, i, t). (j * nlon + i) * ntime + t)
     ({..<nlat} \<times> {..<nlon} \<times> {..<ntime}) {..<nlon * nlat * ntime}"
proof (rule bij_betw_byWitness
    [where f' = "\<lambda>k. (k div ntime div nlon, k div ntime mod nlon, k mod ntime)"])
  show "\<forall>a \<in> {..<nlat} \<times> {..<nlon} \<times> {..<ntime}.
          (\<lambda>k. (k div ntime div nlon, k div ntime mod nlon, k mod ntime))
            ((\<lambda>(j, i, t). (j * nlon + i) * ntime + t) a) = a"
    by auto
  show "\<forall>k \<in> {..<nlon * nlat * ntime}.
          (\<lambda>(j, i, t). (j * nlon + i) * ntime + t)
            ((\<lambda>k. (k div ntime div nlon, k div ntime mod nlon, k mod ntime)) k) = k"
    by simp
  show "(\<lambda>(j, i, t). (j * nlon + i) * ntime + t) ` ({..<nlat} \<times> {..<nlon} \<times> {..<ntime})
          \<subseteq> {..<nlon * nlat * ntime}"
    by (auto simp: flat_index_less)
  show "(\<lambda>k. (k div ntime div nlon, k div ntime mod nlon, k mod ntime)) ` {..<nlon * nlat * ntime}
          \<subseteq> {..<nlat} \<times> {..<nlon} \<times> {..<ntime}"
  proof
    fix x assume "x \<in> (\<lambda>k. (k div ntime div nlon, k div ntime mod nlon, k mod ntime))
                    ` {..<nlon * nlat * ntime}"
    then obtain k where k: "k < nlon * nlat * ntime"
      and x: "x = (k div ntime div nlon, k div ntime mod nlon, k mod ntime)" by auto
    from k have pos: "0 < ntime" "0 < nlon" by (auto intro: gr0I)
    from k have "k div ntime < nlon * nlat"
      by (simp add: less_mult_imp_div_less)
    then have "k div ntime div nlon < nlat"
      by (simp add: less_mult_imp_div_less mult.commute)
    with pos x show "x \<in> {..<nlat} \<times> {..<nlon} \<times> {..<ntime}" by simp
  qed
qed

text \<open>
  Claim C5, as refuted: the flat array is of dtype float32, so the store of line 83
  rounds.  For the one-element array holding the double \<^verbatim>\<open>0.1\<close> the flat array
  holds the float32 nearest to it, \<open>13421773 / 2 ^ 27\<close>, which is not the element
  that was read.
\<close>

theorem flatten_rounds_to_float32:
  "flat_data_python \<lparr>shape0 = 1, shape1 = 1, shape2 = 1, item = (\<lambda>i j t. Fin (literal 0.1))\<rparr>
     = Inr [Fin (13421773 / 2 ^ 27)]
   \<and> [Fin (13421773 / 2 ^ 27)] ! ((0 * 1 + 0) * 1 + 0)
        \<noteq> item \<lparr>shape0 = 1, shape1 = 1, shape2 = 1, item = (\<lambda>i j t. Fin (literal 0.1))\<rparr> 0 0 0"
proof -
  have l: "literal 0.1 = 3602879701896397 / 2 ^ 55" by code_simp
  have r: "float32 (literal 0.1) = Fin (13421773 / 2 ^ 27)" by code_simp
  have "flat_data_python \<lparr>shape0 = 1, shape1 = 1, shape2 = 1, item = (\<lambda>i j t. Fin (literal 0.1))\<rparr>
     = Inr [Fin (13421773 / 2 ^ 27)]"
    by (simp add: flat_data_python_def flatten_body_j_def flatten_body_i_def flatten_body_t_def
          getitem3_def setitem_def r)
  then show ?thesis by (simp add: l)
qed

text \<open>
  Claim C5, as it holds of the code.  For every array \<^verbatim>\<open>data_transposed\<close> of shape
  \<open>(nlon, nlat, ntime)\<close> the loops of final\_diagnosis.py end without an IndexError,
  and afterwards \<open>flat_data_python[(j * nlon + i) * ntime + t]\<close> is
  \<open>data_transposed[i, j, t]\<close> converted to float32 (NaN for a masked element), for
  all \<open>i < nlon\<close>, \<open>j < nlat\<close>, \<open>t < ntime\<close>.  The index map
  \<open>(j, i, t) \<mapsto> (j * nlon + i) * ntime + t\<close> is a bijection from the index
  triples onto \<open>[0, nlon * nlat * ntime)\<close>, the indices of the flat array, so each
  cell is the target of exactly one triple.
\<close>

theorem flatten_is_lat_major_time_minor:
  "\<exists>flat. flat_data_python d = Inr flat
      \<and> length flat = shape0 d * shape1 d * shape2 d
      \<and> (\<forall>i < shape0 d. \<forall>j < shape1 d. \<forall>t < shape2 d.
            flat ! ((j * shape0 d + i) * shape2 d + t) = np_float32 (item d i j t))
      \<and> bij_betw (\<lambda>(j, i, t). (j * shape0 d + i) * shape2 d + t)
            ({..<shape1 d} \<times> {..<shape0 d} \<times> {..<shape2 d})
            {..<shape0 d * shape1 d * shape2 d}"
proof -
  define zeros where "zeros = replicate (shape0 d * shape1 d * shape2 d) (Fin 0)"
  have "shape1 d * shape0 d * shape2 d \<le> length zeros"
    by (simp add: zeros_def mult.commute)
  then have "\<exists>flat. for_each [0..<shape1 d] (flatten_body_j d (shape0 d) (shape2 d)) (zeros, 0)
               = Inr (flat, shape1 d * shape0 d)
           \<and> length flat = length zeros
           \<and> (\<forall>j < shape1 d. \<forall>i < shape0 d. \<forall>t < shape2 d.
                 flat ! ((j * shape0 d + i) * shape2 d + t) = np_float32 (item d i j t))
           \<and> (\<forall>k. shape1 d * shape0 d * shape2 d \<le> k \<longrightarrow> flat ! k = zeros ! k)"
    by (intro loop_j) simp_all
  then obtain flat where
    run: "for_each [0..<shape1 d] (flatten_body_j d (shape0 d) (shape2 d)) (zeros, 0)
               = Inr (flat, shape1 d * shape0 d)"
    and len: "length flat = length zeros"
    and vals: "\<forall>j < shape1 d. \<forall>i < shape0 d. \<forall>t < shape2 d.
                 flat ! ((j * shape0 d + i) * shape2 d + t) = np_float32 (item d i j t)"
    by blast
  have "flat_data_python d = Inr flat"
    using run by (simp add: flat_data_python_def Let_def zeros_def)
  moreover have "length flat = shape0 d * shape1 d * shape2 d"
    using len by (simp add: zeros_def)
  moreover have "\<forall>i < shape0 d. \<forall>j < shape1 d. \<forall>t < shape2 d.
            flat ! ((j * shape0 d + i) * shape2 d + t) = np_float32 (item d i j t)"
    using vals by blast
  ultimately show ?thesis using flat_index_bij [of "shape0 d" "shape2 d" "shape1 d"] by blast
qed

theorem flatten_is_lat_major_time_minor_witness:
  "\<exists>flat. flat_data_python
        \<lparr>shape0 = 2, shape1 = 3, shape2 = 2,
         item = (\<lambda>i j t. Fin (real (100 * i + 10 * j + t) / 10))\<rparr> = Inr flat
      \<and> length flat = 12 \<and> flat ! ((2 * 2 + 1) * 2 + 1) = Fin (6343885 / 2 ^ 19)"
proof -
  define d where "d = \<lparr>shape0 = 2, shape1 = 3, shape2 = 2,
         item = (\<lambda>i j t. Fin (real (100 * i + 10 * j + t) / 10))\<rparr>"
  from flatten_is_lat_major_time_minor [of d] obtain flat where
    run: "flat_data_python d = Inr flat"
    and len: "length flat = shape0 d * shape1 d * shape2 d"
    and vals: "\<forall>i < shape0 d. \<forall>j < shape1 d. \<forall>t < shape2 d.
            flat ! ((j * shape0 d + i) * shape2 d + t) = np_float32 (item d i j t)"
    by blast
  have "(1::nat) < shape0 d" "(2::nat) < shape1 d" "(1::nat) < shape2 d"
    by (simp_all add: d_def)
  with vals have "flat ! ((2 * shape0 d + 1) * shape2 d + 1) = np_float32 (item d 1 2 1)" by blast
  moreover have "float32 (121 / 10) = Fin (6343885 / 2 ^ 19)" by code_simp
  ultimately have "flat ! ((2 * 2 + 1) * 2 + 1) = Fin (6343885 / 2 ^ 19)" by (simp add: d_def)
  moreover have "length flat = 12" using len by (simp add: d_def)
  ultimately show ?thesis using run unfolding d_def by blast
qed

section \<open>Rules for the properties of statements\<close>

lemma io_bind_Inr:
  "io_bind m f w = (Inr y, w'') \<longleftrightarrow> (\<exists>x w'. m w = (Inr x, w') \<and> f x w' = (Inr y, w''))"
  by (auto simp: io_bind_def split: prod.splits sum.splits)

lemma io_bind_cases:
  assumes "io_bind m f w = (r, w'')"
  obtains e where "m w = (Inl e, w'')" "r = Inl e"
  | x w' where "m w = (Inr x, w')" "f x w' = (r, w'')"
  using assms by (auto simp: io_bind_def split: prod.splits sum.splits)

subsection \<open>Files, datasets and command line are kept\<close>

lemma io_inv_return [io_inv_intros]: "io_inv Q (io_return x)"
  by (simp add: io_inv_def io_return_def)

lemma io_inv_lift [io_inv_intros]: "io_inv Q (io_lift r)"
  by (simp add: io_inv_def io_lift_def)

lemma io_inv_bind [io_inv_intros]:
  assumes "io_inv Q m" "\<And>x. io_inv Q (f x)"
  shows "io_inv Q (io_bind m f)"
  unfolding io_inv_def
proof (intro allI impI)
  fix w r w'' assume run: "io_bind m f w = (r, w'')"
  from run show "files w'' = files w \<and> datasets w'' = datasets w \<and> argv w'' = argv w
        \<and> (\<exists>new. trace w'' = trace w @ new \<and> (\<forall>ev \<in> set new. Q ev))"
  proof (cases rule: io_bind_cases)
    case (1 e)
    with assms(1) show ?thesis by (simp add: io_inv_def)
  next
    case (2 x w')
    from assms(1) 2(1) obtain new1 where
      a: "files w' = files w" "datasets w' = datasets w" "argv w' = argv w"
         "trace w' = trace w @ new1" "\<forall>ev \<in> set new1. Q ev"
      unfolding io_inv_def by blast
    from assms(2) 2(2) obtain new2 where
      b: "files w'' = files w'" "datasets w'' = datasets w'" "argv w'' = argv w'"
         "trace w'' = trace w' @ new2" "\<forall>ev \<in> set new2. Q ev"
      unfolding io_inv_def by blast
    have "trace w'' = trace w @ (new1 @ new2)" using a b by simp
    moreover have "\<forall>ev \<in> set (new1 @ new2). Q ev" using a b by auto
    ultimately show ?thesis using a b by metis
  qed
qed

lemma io_inv_seq [io_inv_intros]: "io_inv Q m \<Longrightarrow> io_inv Q k \<Longrightarrow> io_inv Q (io_seq m k)"
  unfolding io_seq_def by (rule io_inv_bind)

lemma io_inv_when [io_inv_intros]: "io_inv Q m \<Longrightarrow> io_inv Q (io_when c m)"
  by (simp add: io_when_def io_inv_return)

lemma io_inv_if [io_inv_intros]:
  "io_inv Q a \<Longrightarrow> io_inv Q b \<Longrightarrow> io_inv Q (if c then a else b)"
  by simp

lemma io_inv_let [io_inv_intros]: "io_inv Q (f v) \<Longrightarrow> io_inv Q (Let v f)"
  by simp

lemma io_inv_for [io_inv_intros]: "(\<And>x. io_inv Q (body x)) \<Longrightarrow> io_inv Q (io_for xs body)"
  by (induction xs) (simp_all add: io_inv_return io_inv_seq)

lemma io_inv_print [io_inv_intros]: "Q (Print line vals) \<Longrightarrow> io_inv Q (py_print line vals)"
  by (simp add: io_inv_def py_print_def)

lemma io_inv_open_rb [io_inv_intros]:
  "Q (OpenFile path ''rb'') \<Longrightarrow> io_inv Q (py_open path ''rb'')"
  by (auto simp: io_inv_def py_open_def Let_def split: option.splits)

lemma io_inv_read [io_inv_intros]: "io_inv Q (py_read f sz)"
  by (auto simp: io_inv_def py_read_def split: prod.splits option.splits if_splits)

lemma io_inv_Dataset_r [io_inv_intros]:
  "Q (OpenDataset path ''r'') \<Longrightarrow> io_inv Q (nc_Dataset path ''r'')"
  by (auto simp: io_inv_def nc_Dataset_def Let_def split: option.splits)

lemma io_inv_close [io_inv_intros]:
  "Q (CloseDataset (fst ncfile)) \<Longrightarrow> io_inv Q (nc_close ncfile)"
  by (simp add: io_inv_def nc_close_def)

lemma io_inv_weaken: "io_inv Q m \<Longrightarrow> (\<And>ev. Q ev \<Longrightarrow> Q' ev) \<Longrightarrow> io_inv Q' m"
  unfolding io_inv_def by blast

lemma io_invD:
  assumes "io_inv Q m" "m w = (r, w')"
  shows "files w' = files w" "datasets w' = datasets w" "argv w' = argv w"
    "\<exists>new. trace w' = trace w @ new \<and> (\<forall>ev \<in> set new. Q ev)"
  using assms unfolding io_inv_def by blast+

subsection \<open>The command line is not looked at\<close>

lemma argv_return [argv_intros]: "argv_indep (io_return x)"
  by (simp add: argv_indep_def io_return_def)

lemma argv_lift [argv_intros]: "argv_indep (io_lift r)"
  by (simp add: argv_indep_def io_lift_def)

lemma argv_bind [argv_intros]:
  assumes "argv_indep m" "\<And>x. argv_indep (f x)"
  shows "argv_indep (io_bind m f)"
  unfolding argv_indep_def
proof (intro allI)
  fix w a
  obtain r w' where run: "m w = (r, w')" by (cases "m w")
  with assms(1) have run': "m (w\<lparr>argv := a\<rparr>) = (r, w'\<lparr>argv := a\<rparr>)"
    by (simp add: argv_indep_def)
  show "io_bind m f (w\<lparr>argv := a\<rparr>)
          = (case io_bind m f w of (r, w') \<Rightarrow> (r, w'\<lparr>argv := a\<rparr>))"
  proof (cases r)
    case (Inl e)
    with run run' show ?thesis by (simp add: io_bind_def)
  next
    case (Inr x)
    from assms(2) [of x] have "f x (w'\<lparr>argv := a\<rparr>)
          = (case f x w' of (r, w'') \<Rightarrow> (r, w''\<lparr>argv := a\<rparr>))"
      by (simp add: argv_indep_def)
    with Inr run run' show ?thesis by (simp add: io_bind_def)
  qed
qed

lemma argv_seq [argv_intros]: "argv_indep m \<Longrightarrow> argv_indep k \<Longrightarrow> argv_indep (io_seq m k)"
  unfolding io_seq_def by (rule argv_bind)

lemma argv_when [argv_intros]: "argv_indep m \<Longrightarrow> argv_indep (io_when c m)"
  by (simp add: io_when_def argv_return)

lemma argv_if [argv_intros]:
  "argv_indep a \<Longrightarrow> argv_indep b \<Longrightarrow> argv_indep (if c then a else b)"
  by simp

lemma argv_let [argv_intros]: "argv_indep (f v) \<Longrightarrow> argv_indep (Let v f)"
  by simp

lemma argv_for [argv_intros]: "(\<And>x. argv_indep (body x)) \<Longrightarrow> argv_indep (io_for xs body)"
  by (induction xs) (simp_all add: argv_return argv_seq)

lemma argv_print [argv_intros]: "argv_indep (py_print line vals)"
  by (simp add: argv_indep_def py_print_def)

lemma argv_open [argv_intros]: "argv_indep (py_open path mode)"
  by (simp add: argv_indep_def py_open_def Let_def split: option.splits)

lemma argv_read [argv_intros]: "argv_indep (py_read f sz)"
  by (simp add: argv_indep_def py_read_def split: prod.splits option.splits)

lemma argv_Dataset [argv_intros]: "argv_indep (nc_Dataset path mode)"
  by (simp add: argv_indep_def nc_Dataset_def Let_def split: option.splits)

lemma argv_close [argv_intros]: "argv_indep (nc_close ncfile)"
  by (simp add: argv_indep_def nc_close_def)

subsection \<open>Printed lines follow the source order\<close>

lemma print_lines_append [simp]: "print_lines (xs @ ys) = print_lines xs @ print_lines ys"
  by (induction xs rule: print_lines.induct) simp_all

lemma ordered_silent:
  assumes "lo \<le> hi" "\<And>w r w'. m w = (r, w') \<Longrightarrow> \<exists>new. trace w' = trace w @ new \<and> print_lines new = []"
  shows "ordered_in lo hi m"
  unfolding ordered_in_def
proof (intro conjI allI impI)
  show "lo \<le> hi" by fact
  fix w r w' assume "m w = (r, w')"
  from assms(2) [OF this] obtain new where "trace w' = trace w @ new" "print_lines new = []"
    by blast
  then show "\<exists>new. trace w' = trace w @ new \<and> sorted (print_lines new)
           \<and> (\<forall>l \<in> set (print_lines new). lo \<le> l \<and> l \<le> hi)"
    by (intro exI [of _ new]) simp
qed

lemma ordered_return [ordered_intros]: "ordered_in lo lo (io_return x)"
  by (rule ordered_silent) (simp_all add: io_return_def)

lemma ordered_lift [ordered_intros]: "ordered_in lo lo (io_lift r)"
  by (rule ordered_silent) (simp_all add: io_lift_def)

lemma ordered_open [ordered_intros]: "ordered_in lo lo (py_open path mode)"
  by (rule ordered_silent) (auto simp: py_open_def Let_def split: option.splits if_splits)

lemma ordered_read [ordered_intros]: "ordered_in lo lo (py_read f sz)"
  by (rule ordered_silent)
    (auto simp: py_read_def split: prod.splits option.splits if_splits)

lemma ordered_Dataset [ordered_intros]: "ordered_in lo lo (nc_Dataset path mode)"
  by (rule ordered_silent) (auto simp: nc_Dataset_def Let_def split: option.splits if_splits)

lemma ordered_close [ordered_intros]: "ordered_in lo lo (nc_close ncfile)"
  by (rule ordered_silent) (simp_all add: nc_close_def)

lemma ordered_print [ordered_intros]: "lo \<le> line \<Longrightarrow> ordered_in lo line (py_print line vals)"
  by (simp add: ordered_in_def py_print_def)

lemma ordered_weaken:
  "ordered_in lo hi m \<Longrightarrow> lo' \<le> lo \<Longrightarrow> hi \<le> hi' \<Longrightarrow> ordered_in lo' hi' m"
  unfolding ordered_in_def by (meson order_trans)

lemma ordered_bind [ordered_intros]:
  assumes "ordered_in lo mid m" "\<And>x. ordered_in mid hi (f x)"
  shows "ordered_in lo hi (io_bind m f)"
  unfolding ordered_in_def
proof (intro conjI allI impI)
  have "lo \<le> mid" using assms(1) by (simp add: ordered_in_def)
  moreover have "mid \<le> hi" using assms(2) [of undefined] by (simp add: ordered_in_def)
  ultimately show lohi: "lo \<le> hi" by simp
  fix w r w'' assume run: "io_bind m f w = (r, w'')"
  from run show "\<exists>new. trace w'' = trace w @ new \<and> sorted (print_lines new)
           \<and> (\<forall>l \<in> set (print_lines new). lo \<le> l \<and> l \<le> hi)"
  proof (cases rule: io_bind_cases)
    case (1 e)
    with assms(1) obtain new where "trace w'' = trace w @ new" "sorted (print_lines new)"
      "\<forall>l \<in> set (print_lines new). lo \<le> l \<and> l \<le> mid"
      unfolding ordered_in_def by blast
    moreover have "mid \<le> hi" by fact
    ultimately show ?thesis by (intro exI [of _ new]) auto
  next
    case (2 x w')
    from assms(1) 2(1) obtain new1 where
      a: "trace w' = trace w @ new1" "sorted (print_lines new1)"
         "\<forall>l \<in> set (print_lines new1). lo \<le> l \<and> l \<le> mid"
      unfolding ordered_in_def by blast
    from assms(2) 2(2) obtain new2 where
      b: "trace w'' = trace w' @ new2" "sorted (print_lines new2)"
         "\<forall>l \<in> set (print_lines new2). mid \<le> l \<and> l \<le> hi"
      unfolding ordered_in_def by blast
    have "trace w'' = trace w @ (new1 @ new2)" using a b by simp
    moreover have "sorted (print_lines (new1 @ new2))"
      using a b by (fastforce simp: sorted_append)
    moreover have "\<forall>l \<in> set (print_lines (new1 @ new2)). lo \<le> l \<and> l \<le> hi"
      using a b \<open>lo \<le> mid\<close> \<open>mid \<le> hi\<close> by fastforce
    ultimately show ?thesis by blast
  qed
qed

lemma ordered_seq [ordered_intros]:
  "ordered_in lo mid m \<Longrightarrow> ordered_in mid hi k \<Longrightarrow> ordered_in lo hi (io_seq m k)"
  unfolding io_seq_def by (rule ordered_bind)

lemma ordered_lo_le_hi: "ordered_in lo hi m \<Longrightarrow> lo \<le> hi"
  by (simp add: ordered_in_def)

lemma ordered_when [ordered_intros]:
  assumes "ordered_in lo hi m"
  shows "ordered_in lo hi (io_when c m)"
proof (cases c)
  case True
  with assms show ?thesis by (simp add: io_when_def)
next
  case False
  have "ordered_in lo hi (io_return ())"
    using ordered_return [of lo] by (rule ordered_weaken) (simp_all add: ordered_lo_le_hi [OF assms])
  with False show ?thesis by (simp add: io_when_def)
qed

lemma ordered_if [ordered_intros]:
  "ordered_in lo h1 a \<Longrightarrow> ordered_in lo h2 b \<Longrightarrow> ordered_in lo (max h1 h2) (if c then a else b)"
  by (auto intro: ordered_weaken)

lemma ordered_let [ordered_intros]: "ordered_in lo hi (f v) \<Longrightarrow> ordered_in lo hi (Let v f)"
  by simp

lemma ordered_for [ordered_intros]:
  assumes "\<And>x. ordered_in l l (body x)" "lo \<le> l"
  shows "ordered_in lo l (io_for xs body)"
proof -
  have "ordered_in l l (io_for xs body)"
  proof (induction xs)
    case Nil
    show ?case by (simp add: ordered_return)
  next
    case (Cons x xs)
    show ?case by (simp add: ordered_seq [OF assms(1) Cons.IH])
  qed
  then show ?thesis using assms(2) by (rule ordered_weaken) simp
qed

subsection \<open>Events of a run that ends without an exception\<close>

lemma logs_bind_later:
  assumes "\<And>x. logs P (f x)" "io_inv (\<lambda>ev. True) m"
  shows "logs P (io_bind m f)"
  unfolding logs_def
proof (intro allI impI)
  fix w y w'' assume "io_bind m f w = (Inr y, w'')"
  then obtain x w' where m: "m w = (Inr x, w')" and f: "f x w' = (Inr y, w'')"
    by (auto simp: io_bind_Inr)
  from io_invD(4) [OF assms(2) m] obtain new1 where a: "trace w' = trace w @ new1" by blast
  from assms(1) f obtain new2 ev where b: "trace w'' = trace w' @ new2" "ev \<in> set new2" "P ev"
    unfolding logs_def by blast
  have "trace w'' = trace w @ (new1 @ new2)" "ev \<in> set (new1 @ new2)" using a b by simp_all
  with b(3) show "\<exists>new. trace w'' = trace w @ new \<and> (\<exists>ev \<in> set new. P ev)" by blast
qed

lemma logs_bind_here:
  assumes "logs P m" "\<And>x. io_inv (\<lambda>ev. True) (f x)"
  shows "logs P (io_bind m f)"
  unfolding logs_def
proof (intro allI impI)
  fix w y w'' assume "io_bind m f w = (Inr y, w'')"
  then obtain x w' where m: "m w = (Inr x, w')" and f: "f x w' = (Inr y, w'')"
    by (auto simp: io_bind_Inr)
  from assms(1) m obtain new1 ev where a: "trace w' = trace w @ new1" "ev \<in> set new1" "P ev"
    unfolding logs_def by blast
  from io_invD(4) [OF assms(2) f] obtain new2 where b: "trace w'' = trace w' @ new2" by blast
  have "trace w'' = trace w @ (new1 @ new2)" "ev \<in> set (new1 @ new2)" using a b by simp_all
  with a(3) show "\<exists>new. trace w'' = trace w @ new \<and> (\<exists>ev \<in> set new. P ev)" by blast
qed

lemma logs_seq_later: "logs P k \<Longrightarrow> io_inv (\<lambda>ev. True) m \<Longrightarrow> logs P (io_seq m k)"
  unfolding io_seq_def by (rule logs_bind_later)

lemma logs_seq_here: "logs P m \<Longrightarrow> io_inv (\<lambda>ev. True) k \<Longrightarrow> logs P (io_seq m k)"
  unfolding io_seq_def by (rule logs_bind_here)

lemma logs_let: "logs P (f v) \<Longrightarrow> logs P (Let v f)"
  by simp

lemma logs_print: "logs (is_print_at line) (py_print line vals)"
  by (simp add: logs_def py_print_def is_print_at_def)

lemma logs_print_seq:
  "io_inv (\<lambda>ev. True) k \<Longrightarrow> logs (is_print_at line) (io_seq (py_print line vals) k)"
  by (rule logs_seq_here [OF logs_print])

lemma logs_open: "logs (\<lambda>ev. ev = OpenFile path mode) (py_open path mode)"
  by (auto simp: logs_def py_open_def Let_def split: option.splits if_splits)

lemma logs_open_bind:
  "(\<And>x. io_inv (\<lambda>ev. True) (f x))
     \<Longrightarrow> logs (\<lambda>ev. ev = OpenFile path mode) (io_bind (py_open path mode) f)"
  by (rule logs_bind_here [OF logs_open])

lemma logs_Dataset: "logs (\<lambda>ev. ev = OpenDataset path mode) (nc_Dataset path mode)"
  by (auto simp: logs_def nc_Dataset_def Let_def split: option.splits if_splits)

lemma logs_Dataset_bind:
  "(\<And>x. io_inv (\<lambda>ev. True) (f x))
     \<Longrightarrow> logs (\<lambda>ev. ev = OpenDataset path mode) (io_bind (nc_Dataset path mode) f)"
  by (rule logs_bind_here [OF logs_Dataset])

lemma logs_for:
  assumes "\<And>x. logs P (body x)" "xs \<noteq> []" "\<And>x. io_inv (\<lambda>ev. True) (body x)"
  shows "logs P (io_for xs body)"
proof (cases xs)
  case Nil
  with assms(2) show ?thesis by simp
next
  case (Cons x xs')
  have "io_inv (\<lambda>ev. True) (io_for xs' body)" using assms(3) by (rule io_inv_for)
  with assms(1) [of x] have "logs P (io_seq (body x) (io_for xs' body))"
    by (rule logs_seq_here)
  with Cons show ?thesis by simp
qed

section \<open>The properties of statements, for the sections of the scripts\<close>

lemma io_inv_check_chunk [io_inv_intros]:
  assumes "\<And>line vals. Q (Print line vals)"
    and "Q (OpenFile chunk_path ''rb'')"
  shows "io_inv Q check_chunk"
  unfolding check_chunk_def by (intro io_inv_intros assms)

lemma argv_check_chunk [argv_intros]: "argv_indep check_chunk"
  unfolding check_chunk_def by (intro argv_intros)

lemma ordered_check_chunk [ordered_intros]:
  "lo \<le> 6 \<Longrightarrow> ordered_in lo 11 check_chunk"
  unfolding check_chunk_def by (rule ordered_intros | simp)+

lemma io_inv_compare_open_netcdf [io_inv_intros]:
  assumes "\<And>line vals. Q (Print line vals)"
    and "Q (OpenDataset nc_path ''r'')"
  shows "io_inv Q compare_open_netcdf"
  unfolding compare_open_netcdf_def by (intro io_inv_intros assms)

lemma argv_compare_open_netcdf [argv_intros]: "argv_indep compare_open_netcdf"
  unfolding compare_open_netcdf_def by (intro argv_intros)

lemma ordered_compare_open_netcdf [ordered_intros]:
  "lo \<le> 5 \<Longrightarrow> ordered_in lo 21 compare_open_netcdf"
  unfolding compare_open_netcdf_def by (rule ordered_intros | simp)+

lemma io_inv_compare_open_chunk [io_inv_intros]:
  assumes "\<And>line vals. Q (Print line vals)"
    and "Q (OpenFile chunk_path ''rb'')"
  shows "io_inv Q compare_open_chunk"
  unfolding compare_open_chunk_def by (intro io_inv_intros assms)

lemma argv_compare_open_chunk [argv_intros]: "argv_indep compare_open_chunk"
  unfolding compare_open_chunk_def by (intro argv_intros)

lemma ordered_compare_open_chunk [ordered_intros]:
  "lo \<le> 33 \<Longrightarrow> ordered_in lo 45 compare_open_chunk"
  unfolding compare_open_chunk_def by (rule ordered_intros | simp)+

lemma io_inv_compare_coordinate_0 [io_inv_intros]:
  assumes "\<And>line vals. Q (Print line vals)"
  shows "io_inv Q (compare_coordinate_0 tx)"
  unfolding compare_coordinate_0_def by (intro io_inv_intros assms)

lemma argv_compare_coordinate_0 [argv_intros]: "argv_indep (compare_coordinate_0 tx)"
  unfolding compare_coordinate_0_def by (intro argv_intros)

lemma ordered_compare_coordinate_0 [ordered_intros]:
  "lo \<le> 48 \<Longrightarrow> ordered_in lo 64 (compare_coordinate_0 tx)"
  unfolding compare_coordinate_0_def by (rule ordered_intros | simp)+

lemma io_inv_compare_central_europe [io_inv_intros]:
  assumes "\<And>line vals. Q (Print line vals)"
  shows "io_inv Q (compare_central_europe ncfile tx chunk_data)"
  unfolding compare_central_europe_def by (intro io_inv_intros assms)

lemma argv_compare_central_europe [argv_intros]: "argv_indep (compare_central_europe ncfile tx chunk_data)"
  unfolding compare_central_europe_def by (intro argv_intros)

lemma ordered_compare_central_europe [ordered_intros]:
  "lo \<le> 67 \<Longrightarrow> ordered_in lo 105 (compare_central_europe ncfile tx chunk_data)"
  unfolding compare_central_europe_def by (rule ordered_intros | simp)+

lemma io_inv_compare_overall [io_inv_intros]:
  assumes "\<And>line vals. Q (Print line vals)"
  shows "io_inv Q (compare_overall chunk_data first_730_days)"
  unfolding compare_overall_def by (intro io_inv_intros assms)

lemma argv_compare_overall [argv_intros]: "argv_indep (compare_overall chunk_data first_730_days)"
  unfolding compare_overall_def by (intro argv_intros)

lemma ordered_compare_overall [ordered_intros]:
  "lo \<le> 108 \<Longrightarrow> ordered_in lo 131 (compare_overall chunk_data first_730_days)"
  unfolding compare_overall_def by (rule ordered_intros | simp)+

lemma io_inv_compare_netcdf_chunk [io_inv_intros]:
  assumes "\<And>line vals. Q (Print line vals)"
    and "Q (OpenFile chunk_path ''rb'')"
    and "Q (OpenDataset nc_path ''r'')"
    and "\<And>path. Q (CloseDataset path)"
  shows "io_inv Q compare_netcdf_chunk"
  unfolding compare_netcdf_chunk_def by (intro io_inv_intros assms)

lemma argv_compare_netcdf_chunk [argv_intros]: "argv_indep compare_netcdf_chunk"
  unfolding compare_netcdf_chunk_def by (intro argv_intros)

lemma ordered_compare_netcdf_chunk [ordered_intros]:
  "lo \<le> 5 \<Longrightarrow> ordered_in lo 137 compare_netcdf_chunk"
  unfolding compare_netcdf_chunk_def by (rule ordered_intros | simp)+

lemma io_inv_verify_open_netcdf [io_inv_intros]:
  assumes "\<And>line vals. Q (Print line vals)"
    and "Q (OpenDataset nc_path ''r'')"
  shows "io_inv Q verify_open_netcdf"
  unfolding verify_open_netcdf_def by (intro io_inv_intros assms)

lemma argv_verify_open_netcdf [argv_intros]: "argv_indep verify_open_netcdf"
  unfolding verify_open_netcdf_def by (intro argv_intros)

lemma ordered_verify_open_netcdf [ordered_intros]:
  "lo \<le> 5 \<Longrightarrow> ordered_in lo 18 verify_open_netcdf"
  unfolding verify_open_netcdf_def by (rule ordered_intros | simp)+

lemma io_inv_verify_filtered_grid [io_inv_intros]:
  assumes "\<And>line vals. Q (Print line vals)"
  shows "io_inv Q (verify_filtered_grid lat_full lon_full)"
  unfolding verify_filtered_grid_def by (intro io_inv_intros assms)

lemma argv_verify_filtered_grid [argv_intros]: "argv_indep (verify_filtered_grid lat_full lon_full)"
  unfolding verify_filtered_grid_def by (intro argv_intros)

lemma ordered_verify_filtered_grid [ordered_intros]:
  "lo \<le> 33 \<Longrightarrow> ordered_in lo 38 (verify_filtered_grid lat_full lon_full)"
  unfolding verify_filtered_grid_def by (rule ordered_intros | simp)+

lemma io_inv_verify_full_grid_series [io_inv_intros]:
  assumes "\<And>line vals. Q (Print line vals)"
  shows "io_inv Q (verify_full_grid_series tx lat_full lon_full test_lat test_lon)"
  unfolding verify_full_grid_series_def by (intro io_inv_intros assms)

lemma argv_verify_full_grid_series [argv_intros]: "argv_indep (verify_full_grid_series tx lat_full lon_full test_lat test_lon)"
  unfolding verify_full_grid_series_def by (intro argv_intros)

lemma ordered_verify_full_grid_series [ordered_intros]:
  "lo \<le> 47 \<Longrightarrow> ordered_in lo 62 (verify_full_grid_series tx lat_full lon_full test_lat test_lon)"
  unfolding verify_full_grid_series_def by (rule ordered_intros | simp)+

lemma io_inv_verify_chunk_series [io_inv_intros]:
  assumes "\<And>line vals. Q (Print line vals)"
    and "Q (OpenFile chunk_path ''rb'')"
  shows "io_inv Q (verify_chunk_series lat_full lon_full test_lat test_lon)"
  unfolding verify_chunk_series_def by (intro io_inv_intros assms)

lemma argv_verify_chunk_series [argv_intros]: "argv_indep (verify_chunk_series lat_full lon_full test_lat test_lon)"
  unfolding verify_chunk_series_def by (intro argv_intros)

lemma ordered_verify_chunk_series [ordered_intros]:
  "lo \<le> 68 \<Longrightarrow> ordered_in lo 95 (verify_chunk_series lat_full lon_full test_lat test_lon)"
  unfolding verify_chunk_series_def by (rule ordered_intros | simp)+

lemma io_inv_verify_compare [io_inv_intros]:
  assumes "\<And>line vals. Q (Print line vals)"
  shows "io_inv Q (verify_compare berlin_nc chunk_ts)"
  unfolding verify_compare_def by (intro io_inv_intros assms)

lemma argv_verify_compare [argv_intros]: "argv_indep (verify_compare berlin_nc chunk_ts)"
  unfolding verify_compare_def by (intro argv_intros)

lemma ordered_verify_compare [ordered_intros]:
  "lo \<le> 98 \<Longrightarrow> ordered_in lo 112 (verify_compare berlin_nc chunk_ts)"
  unfolding verify_compare_def by (rule ordered_intros | simp)+

lemma io_inv_verify_coordinate_mapping [io_inv_intros]:
  assumes "\<And>line vals. Q (Print line vals)"
    and "Q (OpenFile chunk_path ''rb'')"
    and "Q (OpenDataset nc_path ''r'')"
    and "\<And>path. Q (CloseDataset path)"
  shows "io_inv Q verify_coordinate_mapping"
  unfolding verify_coordinate_mapping_def by (intro io_inv_intros assms)

lemma argv_verify_coordinate_mapping [argv_intros]: "argv_indep verify_coordinate_mapping"
  unfolding verify_coordinate_mapping_def by (intro argv_intros)

lemma ordered_verify_coordinate_mapping [ordered_intros]:
  "lo \<le> 5 \<Longrightarrow> ordered_in lo 118 verify_coordinate_mapping"
  unfolding verify_coordinate_mapping_def by (rule ordered_intros | simp)+

lemma io_inv_final_open_netcdf [io_inv_intros]:
  assumes "\<And>line vals. Q (Print line vals)"
    and "Q (OpenDataset nc_path ''r'')"
  shows "io_inv Q final_open_netcdf"
  unfolding final_open_netcdf_def by (intro io_inv_intros assms)

lemma argv_final_open_netcdf [argv_intros]: "argv_indep final_open_netcdf"
  unfolding final_open_netcdf_def by (intro argv_intros)

lemma ordered_final_open_netcdf [ordered_intros]:
  "lo \<le> 5 \<Longrightarrow> ordered_in lo 28 final_open_netcdf"
  unfolding final_open_netcdf_def by (rule ordered_intros | simp)+

lemma io_inv_final_extract_block [io_inv_intros]:
  assumes "\<And>line vals. Q (Print line vals)"
  shows "io_inv Q (final_extract_block tx lat_full lon_full)"
  unfolding final_extract_block_def by (intro io_inv_intros assms)

lemma argv_final_extract_block [argv_intros]: "argv_indep (final_extract_block tx lat_full lon_full)"
  unfolding final_extract_block_def by (intro argv_intros)

lemma ordered_final_extract_block [ordered_intros]:
  "lo \<le> 42 \<Longrightarrow> ordered_in lo 55 (final_extract_block tx lat_full lon_full)"
  unfolding final_extract_block_def by (rule ordered_intros | simp)+

lemma io_inv_final_flatten [io_inv_intros]:
  assumes "\<And>line vals. Q (Print line vals)"
  shows "io_inv Q (final_flatten data_transposed)"
  unfolding final_flatten_def by (intro io_inv_intros assms)

lemma argv_final_flatten [argv_intros]: "argv_indep (final_flatten data_transposed)"
  unfolding final_flatten_def by (intro argv_intros)

lemma ordered_final_flatten [ordered_intros]:
  "lo \<le> 71 \<Longrightarrow> ordered_in lo 91 (final_flatten data_transposed)"
  unfolding final_flatten_def by (rule ordered_intros | simp)+

lemma io_inv_final_open_chunk [io_inv_intros]:
  assumes "\<And>line vals. Q (Print line vals)"
    and "Q (OpenFile chunk_path ''rb'')"
  shows "io_inv Q (final_open_chunk flat)"
  unfolding final_open_chunk_def by (intro io_inv_intros assms)

lemma argv_final_open_chunk [argv_intros]: "argv_indep (final_open_chunk flat)"
  unfolding final_open_chunk_def by (intro argv_intros)

lemma ordered_final_open_chunk [ordered_intros]:
  "lo \<le> 100 \<Longrightarrow> ordered_in lo 102 (final_open_chunk flat)"
  unfolding final_open_chunk_def by (rule ordered_intros | simp)+

lemma io_inv_final_test_berlin [io_inv_intros]:
  assumes "\<And>line vals. Q (Print line vals)"
  shows "io_inv Q (final_test_berlin lat_full lon_full data_transposed flat all_chunk_values)"
  unfolding final_test_berlin_def by (intro io_inv_intros assms)

lemma argv_final_test_berlin [argv_intros]: "argv_indep (final_test_berlin lat_full lon_full data_transposed flat all_chunk_values)"
  unfolding final_test_berlin_def by (intro argv_intros)

lemma ordered_final_test_berlin [ordered_intros]:
  "lo \<le> 114 \<Longrightarrow> ordered_in lo 134 (final_test_berlin lat_full lon_full data_transposed flat all_chunk_values)"
  unfolding final_test_berlin_def by (rule ordered_intros | simp)+

lemma io_inv_final_overall [io_inv_intros]:
  assumes "\<And>line vals. Q (Print line vals)"
  shows "io_inv Q (final_overall flat all_chunk_values)"
  unfolding final_overall_def by (intro io_inv_intros assms)

lemma argv_final_overall [argv_intros]: "argv_indep (final_overall flat all_chunk_values)"
  unfolding final_overall_def by (intro argv_intros)

lemma ordered_final_overall [ordered_intros]:
  "lo \<le> 140 \<Longrightarrow> ordered_in lo 153 (final_overall flat all_chunk_values)"
  unfolding final_overall_def by (rule ordered_intros | simp)+

lemma io_inv_final_diagnosis [io_inv_intros]:
  assumes "\<And>line vals. Q (Print line vals)"
    and "Q (OpenFile chunk_path ''rb'')"
    and "Q (OpenDataset nc_path ''r'')"
    and "\<And>path. Q (CloseDataset path)"
  shows "io_inv Q final_diagnosis"
  unfolding final_diagnosis_def by (intro io_inv_intros assms)

lemma argv_final_diagnosis [argv_intros]: "argv_indep final_diagnosis"
  unfolding final_diagnosis_def by (intro argv_intros)

lemma ordered_final_diagnosis [ordered_intros]:
  "lo \<le> 5 \<Longrightarrow> ordered_in lo 159 final_diagnosis"
  unfolding final_diagnosis_def by (rule ordered_intros | simp)+

lemma io_inv_diagnose_info [io_inv_intros]:
  assumes "\<And>line vals. Q (Print line vals)"
    and "Q (OpenDataset nc_path ''r'')"
  shows "io_inv Q diagnose_info"
  unfolding diagnose_info_def by (intro io_inv_intros assms)

lemma argv_diagnose_info [argv_intros]: "argv_indep diagnose_info"
  unfolding diagnose_info_def by (intro argv_intros)

lemma ordered_diagnose_info [ordered_intros]:
  "lo \<le> 7 \<Longrightarrow> ordered_in lo 41 diagnose_info"
  unfolding diagnose_info_def by (rule ordered_intros | simp)+

lemma io_inv_diagnose_first_slice [io_inv_intros]:
  assumes "\<And>line vals. Q (Print line vals)"
  shows "io_inv Q (diagnose_first_slice tx)"
  unfolding diagnose_first_slice_def by (intro io_inv_intros assms)

lemma argv_diagnose_first_slice [argv_intros]: "argv_indep (diagnose_first_slice tx)"
  unfolding diagnose_first_slice_def by (intro argv_intros)

lemma ordered_diagnose_first_slice [ordered_intros]:
  "lo \<le> 44 \<Longrightarrow> ordered_in lo 82 (diagnose_first_slice tx)"
  unfolding diagnose_first_slice_def by (rule ordered_intros | simp)+

lemma io_inv_diagnose_middle_slice [io_inv_intros]:
  assumes "\<And>line vals. Q (Print line vals)"
  shows "io_inv Q (diagnose_middle_slice tx total_cells)"
  unfolding diagnose_middle_slice_def by (intro io_inv_intros assms)

lemma argv_diagnose_middle_slice [argv_intros]: "argv_indep (diagnose_middle_slice tx total_cells)"
  unfolding diagnose_middle_slice_def by (intro argv_intros)

lemma ordered_diagnose_middle_slice [ordered_intros]:
  "lo \<le> 86 \<Longrightarrow> ordered_in lo 97 (diagnose_middle_slice tx total_cells)"
  unfolding diagnose_middle_slice_def by (rule ordered_intros | simp)+

lemma io_inv_diagnose_location [io_inv_intros]:
  assumes "\<And>line vals. Q (Print line vals)"
  shows "io_inv Q (diagnose_location ncfile tx)"
  unfolding diagnose_location_def by (intro io_inv_intros assms)

lemma argv_diagnose_location [argv_intros]: "argv_indep (diagnose_location ncfile tx)"
  unfolding diagnose_location_def by (intro argv_intros)

lemma ordered_diagnose_location [ordered_intros]:
  "lo \<le> 100 \<Longrightarrow> ordered_in lo 133 (diagnose_location ncfile tx)"
  unfolding diagnose_location_def by (rule ordered_intros | simp)+

lemma io_inv_diagnose_netcdf [io_inv_intros]:
  assumes "\<And>line vals. Q (Print line vals)"
    and "Q (OpenDataset nc_path ''r'')"
    and "\<And>path. Q (CloseDataset path)"
  shows "io_inv Q diagnose_netcdf"
  unfolding diagnose_netcdf_def by (intro io_inv_intros assms)

lemma argv_diagnose_netcdf [argv_intros]: "argv_indep diagnose_netcdf"
  unfolding diagnose_netcdf_def by (intro argv_intros)

lemma ordered_diagnose_netcdf [ordered_intros]:
  "lo \<le> 7 \<Longrightarrow> ordered_in lo 139 diagnose_netcdf"
  unfolding diagnose_netcdf_def by (rule ordered_intros | simp)+

subsection \<open>Events of the complete runs\<close>

lemma logs_dataset_compare_open_netcdf: "logs (\<lambda>ev. ev = OpenDataset nc_path ''r'') compare_open_netcdf"
  unfolding compare_open_netcdf_def
  apply (rule logs_seq_later)
  apply (rule logs_seq_later)
  apply (rule logs_seq_later)
  apply (rule logs_bind_here [OF logs_Dataset])
  by (intro io_inv_intros TrueI | simp)+

lemma logs_dataset_compare_netcdf_chunk: "logs (\<lambda>ev. ev = OpenDataset nc_path ''r'') compare_netcdf_chunk"
  unfolding compare_netcdf_chunk_def
  apply (rule logs_bind_here [OF logs_dataset_compare_open_netcdf])
  by (intro io_inv_intros TrueI | simp)+

lemma logs_open_compare_open_chunk: "logs (\<lambda>ev. ev = OpenFile chunk_path ''rb'') compare_open_chunk"
  unfolding compare_open_chunk_def
  apply (rule logs_bind_here [OF logs_open])
  by (intro io_inv_intros TrueI | simp)+

lemma logs_open_compare_netcdf_chunk: "logs (\<lambda>ev. ev = OpenFile chunk_path ''rb'') compare_netcdf_chunk"
  unfolding compare_netcdf_chunk_def
  apply (rule logs_bind_later)
  apply (rule logs_let)
  apply (rule logs_let)
  apply (rule logs_let)
  apply (rule logs_bind_here [OF logs_open_compare_open_chunk])
  by (intro io_inv_intros TrueI | simp)+

lemma logs_line_84_compare_central_europe: "logs (is_print_at 84) (compare_central_europe ncfile tx chunk_data)"
  unfolding compare_central_europe_def
  apply (rule logs_seq_later)
  apply (rule logs_seq_later)
  apply (rule logs_seq_later)
  apply (rule logs_bind_later)
  apply (rule logs_bind_later)
  apply (rule logs_let)
  apply (rule logs_let)
  apply (rule logs_bind_later)
  apply (rule logs_bind_later)
  apply (rule logs_bind_later)
  apply (rule logs_bind_later)
  apply (rule logs_seq_later)
  apply (rule logs_seq_later)
  apply (rule logs_let)
  apply (rule logs_seq_here [OF logs_print])
  by (intro io_inv_intros TrueI | simp)+

lemma logs_line_84_compare_netcdf_chunk: "logs (is_print_at 84) compare_netcdf_chunk"
  unfolding compare_netcdf_chunk_def
  apply (rule logs_bind_later)
  apply (rule logs_let)
  apply (rule logs_let)
  apply (rule logs_let)
  apply (rule logs_bind_later)
  apply (rule logs_seq_later)
  apply (rule logs_seq_here [OF logs_line_84_compare_central_europe])
  by (intro io_inv_intros TrueI | simp)+

lemma logs_line_89_compare_central_europe: "logs (is_print_at 89) (compare_central_europe ncfile tx chunk_data)"
  unfolding compare_central_europe_def
  apply (rule logs_seq_later)
  apply (rule logs_seq_later)
  apply (rule logs_seq_later)
  apply (rule logs_bind_later)
  apply (rule logs_bind_later)
  apply (rule logs_let)
  apply (rule logs_let)
  apply (rule logs_bind_later)
  apply (rule logs_bind_later)
  apply (rule logs_bind_later)
  apply (rule logs_bind_later)
  apply (rule logs_seq_later)
  apply (rule logs_seq_later)
  apply (rule logs_let)
  apply (rule logs_seq_later)
  apply (rule logs_bind_later)
  apply (rule logs_seq_later)
  apply (rule logs_seq_here [OF logs_print])
  by (intro io_inv_intros TrueI | simp)+

lemma logs_line_89_compare_netcdf_chunk: "logs (is_print_at 89) compare_netcdf_chunk"
  unfolding compare_netcdf_chunk_def
  apply (rule logs_bind_later)
  apply (rule logs_let)
  apply (rule logs_let)
  apply (rule logs_let)
  apply (rule logs_bind_later)
  apply (rule logs_seq_later)
  apply (rule logs_seq_here [OF logs_line_89_compare_central_europe])
  by (intro io_inv_intros TrueI | simp)+

lemma logs_line_102_compare_central_europe: "logs (is_print_at 102) (compare_central_europe ncfile tx chunk_data)"
  unfolding compare_central_europe_def
  apply (rule logs_seq_later)
  apply (rule logs_seq_later)
  apply (rule logs_seq_later)
  apply (rule logs_bind_later)
  apply (rule logs_bind_later)
  apply (rule logs_let)
  apply (rule logs_let)
  apply (rule logs_bind_later)
  apply (rule logs_bind_later)
  apply (rule logs_bind_later)
  apply (rule logs_bind_later)
  apply (rule logs_seq_later)
  apply (rule logs_seq_later)
  apply (rule logs_let)
  apply (rule logs_seq_later)
  apply (rule logs_bind_later)
  apply (rule logs_seq_later)
  apply (rule logs_seq_later)
  apply (rule logs_seq_later)
  apply (rule logs_bind_later)
  apply (rule logs_seq_later)
  apply (rule logs_seq_here [OF logs_print])
  by (intro io_inv_intros TrueI | simp)+

lemma logs_line_102_compare_netcdf_chunk: "logs (is_print_at 102) compare_netcdf_chunk"
  unfolding compare_netcdf_chunk_def
  apply (rule logs_bind_later)
  apply (rule logs_let)
  apply (rule logs_let)
  apply (rule logs_let)
  apply (rule logs_bind_later)
  apply (rule logs_seq_later)
  apply (rule logs_seq_here [OF logs_line_102_compare_central_europe])
  by (intro io_inv_intros TrueI | simp)+

lemma logs_dataset_verify_open_netcdf: "logs (\<lambda>ev. ev = OpenDataset nc_path ''r'') verify_open_netcdf"
  unfolding verify_open_netcdf_def
  apply (rule logs_seq_later)
  apply (rule logs_seq_later)
  apply (rule logs_seq_later)
  apply (rule logs_bind_here [OF logs_Dataset])
  by (intro io_inv_intros TrueI | simp)+

lemma logs_dataset_verify_coordinate_mapping: "logs (\<lambda>ev. ev = OpenDataset nc_path ''r'') verify_coordinate_mapping"
  unfolding verify_coordinate_mapping_def
  apply (rule logs_bind_here [OF logs_dataset_verify_open_netcdf])
  by (intro io_inv_intros TrueI | simp)+

lemma logs_open_verify_chunk_series: "logs (\<lambda>ev. ev = OpenFile chunk_path ''rb'') (verify_chunk_series lat_full lon_full test_lat test_lon)"
  unfolding verify_chunk_series_def
  apply (rule logs_let)
  apply (rule logs_let)
  apply (rule logs_bind_later)
  apply (rule logs_bind_later)
  apply (rule logs_seq_later)
  apply (rule logs_seq_later)
  apply (rule logs_bind_later)
  apply (rule logs_bind_later)
  apply (rule logs_seq_later)
  apply (rule logs_let)
  apply (rule logs_seq_later)
  apply (rule logs_seq_later)
  apply (rule logs_bind_here [OF logs_open])
  by (intro io_inv_intros TrueI | simp)+

lemma logs_open_verify_coordinate_mapping: "logs (\<lambda>ev. ev = OpenFile chunk_path ''rb'') verify_coordinate_mapping"
  unfolding verify_coordinate_mapping_def
  apply (rule logs_bind_later)
  apply (rule logs_let)
  apply (rule logs_let)
  apply (rule logs_let)
  apply (rule logs_let)
  apply (rule logs_seq_later)
  apply (rule logs_let)
  apply (rule logs_let)
  apply (rule logs_bind_later)
  apply (rule logs_bind_here [OF logs_open_verify_chunk_series])
  by (intro io_inv_intros TrueI | simp)+

lemma logs_line_78_verify_chunk_series: "logs (is_print_at 78) (verify_chunk_series lat_full lon_full test_lat test_lon)"
  unfolding verify_chunk_series_def
  apply (rule logs_let)
  apply (rule logs_let)
  apply (rule logs_bind_later)
  apply (rule logs_bind_later)
  apply (rule logs_seq_later)
  apply (rule logs_seq_later)
  apply (rule logs_bind_later)
  apply (rule logs_bind_later)
  apply (rule logs_seq_later)
  apply (rule logs_let)
  apply (rule logs_seq_later)
  apply (rule logs_seq_here [OF logs_print])
  by (intro io_inv_intros TrueI | simp)+

lemma logs_line_78_verify_coordinate_mapping: "logs (is_print_at 78) verify_coordinate_mapping"
  unfolding verify_coordinate_mapping_def
  apply (rule logs_bind_later)
  apply (rule logs_let)
  apply (rule logs_let)
  apply (rule logs_let)
  apply (rule logs_let)
  apply (rule logs_seq_later)
  apply (rule logs_let)
  apply (rule logs_let)
  apply (rule logs_bind_later)
  apply (rule logs_bind_here [OF logs_line_78_verify_chunk_series])
  by (intro io_inv_intros TrueI | simp)+

lemma logs_line_58_verify_full_grid_series: "logs (is_print_at 58) (verify_full_grid_series tx lat_full lon_full test_lat test_lon)"
  unfolding verify_full_grid_series_def
  apply (rule logs_bind_later)
  apply (rule logs_bind_later)
  apply (rule logs_seq_later)
  apply (rule logs_seq_later)
  apply (rule logs_seq_later)
  apply (rule logs_seq_later)
  apply (rule logs_seq_later)
  apply (rule logs_bind_later)
  apply (rule logs_bind_later)
  apply (rule logs_seq_later)
  apply (rule logs_bind_later)
  apply (rule logs_seq_later)
  apply (rule logs_seq_here [OF logs_print])
  by (intro io_inv_intros TrueI | simp)+

lemma logs_line_58_verify_coordinate_mapping: "logs (is_print_at 58) verify_coordinate_mapping"
  unfolding verify_coordinate_mapping_def
  apply (rule logs_bind_later)
  apply (rule logs_let)
  apply (rule logs_let)
  apply (rule logs_let)
  apply (rule logs_let)
  apply (rule logs_seq_later)
  apply (rule logs_let)
  apply (rule logs_let)
  apply (rule logs_bind_here [OF logs_line_58_verify_full_grid_series])
  by (intro io_inv_intros TrueI | simp)+

lemma logs_line_92_verify_chunk_series: "logs (is_print_at 92) (verify_chunk_series lat_full lon_full test_lat test_lon)"
  unfolding verify_chunk_series_def
  apply (rule logs_let)
  apply (rule logs_let)
  apply (rule logs_bind_later)
  apply (rule logs_bind_later)
  apply (rule logs_seq_later)
  apply (rule logs_seq_later)
  apply (rule logs_bind_later)
  apply (rule logs_bind_later)
  apply (rule logs_seq_later)
  apply (rule logs_let)
  apply (rule logs_seq_later)
  apply (rule logs_seq_later)
  apply (rule logs_bind_later)
  apply (rule logs_bind_later)
  apply (rule logs_bind_later)
  apply (rule logs_seq_later)
  apply (rule logs_seq_here [OF logs_print])
  by (intro io_inv_intros TrueI | simp)+

lemma logs_line_92_verify_coordinate_mapping: "logs (is_print_at 92) verify_coordinate_mapping"
  unfolding verify_coordinate_mapping_def
  apply (rule logs_bind_later)
  apply (rule logs_let)
  apply (rule logs_let)
  apply (rule logs_let)
  apply (rule logs_let)
  apply (rule logs_seq_later)
  apply (rule logs_let)
  apply (rule logs_let)
  apply (rule logs_bind_later)
  apply (rule logs_bind_here [OF logs_line_92_verify_chunk_series])
  by (intro io_inv_intros TrueI | simp)+

lemma logs_dataset_final_open_netcdf: "logs (\<lambda>ev. ev = OpenDataset nc_path ''r'') final_open_netcdf"
  unfolding final_open_netcdf_def
  apply (rule logs_seq_later)
  apply (rule logs_seq_later)
  apply (rule logs_seq_later)
  apply (rule logs_bind_here [OF logs_Dataset])
  by (intro io_inv_intros TrueI | simp)+

lemma logs_dataset_final_diagnosis: "logs (\<lambda>ev. ev = OpenDataset nc_path ''r'') final_diagnosis"
  unfolding final_diagnosis_def
  apply (rule logs_bind_here [OF logs_dataset_final_open_netcdf])
  by (intro io_inv_intros TrueI | simp)+

lemma logs_open_final_open_chunk: "logs (\<lambda>ev. ev = OpenFile chunk_path ''rb'') (final_open_chunk flat)"
  unfolding final_open_chunk_def
  apply (rule logs_bind_here [OF logs_open])
  by (intro io_inv_intros TrueI | simp)+

lemma logs_open_final_diagnosis: "logs (\<lambda>ev. ev = OpenFile chunk_path ''rb'') final_diagnosis"
  unfolding final_diagnosis_def
  apply (rule logs_bind_later)
  apply (rule logs_let)
  apply (rule logs_let)
  apply (rule logs_let)
  apply (rule logs_let)
  apply (rule logs_bind_later)
  apply (rule logs_bind_later)
  apply (rule logs_bind_here [OF logs_open_final_open_chunk])
  by (intro io_inv_intros TrueI | simp)+

lemma logs_line_121_final_test_berlin: "logs (is_print_at 121) (final_test_berlin lat_full lon_full data_transposed flat all_chunk_values)"
  unfolding final_test_berlin_def
  apply (rule logs_let)
  apply (rule logs_let)
  apply (rule logs_let)
  apply (rule logs_let)
  apply (rule logs_bind_later)
  apply (rule logs_bind_later)
  apply (rule logs_seq_later)
  apply (rule logs_seq_later)
  apply (rule logs_seq_later)
  apply (rule logs_seq_later)
  apply (rule logs_let)
  apply (rule logs_let)
  apply (rule logs_let)
  apply (rule logs_seq_here [OF logs_print])
  by (intro io_inv_intros TrueI | simp)+

lemma logs_line_121_final_diagnosis: "logs (is_print_at 121) final_diagnosis"
  unfolding final_diagnosis_def
  apply (rule logs_bind_later)
  apply (rule logs_let)
  apply (rule logs_let)
  apply (rule logs_let)
  apply (rule logs_let)
  apply (rule logs_bind_later)
  apply (rule logs_bind_later)
  apply (rule logs_bind_later)
  apply (rule logs_seq_here [OF logs_line_121_final_test_berlin])
  by (intro io_inv_intros TrueI | simp)+

lemma logs_line_134_final_test_berlin: "logs (is_print_at 134) (final_test_berlin lat_full lon_full data_transposed flat all_chunk_values)"
  unfolding final_test_berlin_def
  apply (rule logs_let)
  apply (rule logs_let)
  apply (rule logs_let)
  apply (rule logs_let)
  apply (rule logs_bind_later)
  apply (rule logs_bind_later)
  apply (rule logs_seq_later)
  apply (rule logs_seq_later)
  apply (rule logs_seq_later)
  apply (rule logs_seq_later)
  apply (rule logs_let)
  apply (rule logs_let)
  apply (rule logs_let)
  apply (rule logs_seq_later)
  apply (rule logs_let)
  apply (rule logs_let)
  apply (rule logs_seq_later)
  apply (rule logs_seq_later)
  apply (rule logs_seq_later)
  apply (rule logs_for)
  apply (rule logs_bind_later)
  apply (rule logs_let)
  apply (rule logs_bind_later)
  apply (rule logs_print)
  by (intro io_inv_intros TrueI | simp)+

lemma logs_line_134_final_diagnosis: "logs (is_print_at 134) final_diagnosis"
  unfolding final_diagnosis_def
  apply (rule logs_bind_later)
  apply (rule logs_let)
  apply (rule logs_let)
  apply (rule logs_let)
  apply (rule logs_let)
  apply (rule logs_bind_later)
  apply (rule logs_bind_later)
  apply (rule logs_bind_later)
  apply (rule logs_seq_here [OF logs_line_134_final_test_berlin])
  by (intro io_inv_intros TrueI | simp)+

lemma logs_open_check_chunk: "logs (\<lambda>ev. ev = OpenFile chunk_path ''rb'') check_chunk"
  unfolding check_chunk_def
  apply (rule logs_bind_here [OF logs_open])
  by (intro io_inv_intros TrueI | simp)+

lemma logs_dataset_diagnose_info: "logs (\<lambda>ev. ev = OpenDataset nc_path ''r'') diagnose_info"
  unfolding diagnose_info_def
  apply (rule logs_bind_here [OF logs_Dataset])
  by (intro io_inv_intros TrueI | simp)+

lemma logs_dataset_diagnose_netcdf: "logs (\<lambda>ev. ev = OpenDataset nc_path ''r'') diagnose_netcdf"
  unfolding diagnose_netcdf_def
  apply (rule logs_bind_here [OF logs_dataset_diagnose_info])
  by (intro io_inv_intros TrueI | simp)+

section \<open>The five scripts as processes\<close>

lemma io_inv_run_script: "io_inv read_only_event (run_script s)"
  by (cases s) (simp_all, (rule io_inv_intros; simp)+)

lemma argv_run_script: "argv_indep (run_script s)"
  by (cases s) (simp_all add: argv_intros)

lemma ordered_run_script: "\<exists>hi. ordered_in 0 hi (run_script s)"
  by (cases s) (simp_all, (rule exI, rule ordered_intros, simp)+)

lemma new_events_unique: "trace w' = trace w @ new \<Longrightarrow> new = drop (length (trace w)) (trace w')"
  by simp

lemma logsD:
  assumes "logs P m" "m w = (Inr x, w')"
  shows "\<exists>ev \<in> set (drop (length (trace w)) (trace w')). P ev"
  using assms unfolding logs_def by fastforce

lemma is_print_atD: "is_print_at line ev \<Longrightarrow> \<exists>vals. ev = Print line vals"
  by (cases ev) (simp_all add: is_print_at_def)

lemma logs_printD:
  assumes "logs (is_print_at line) m" "m w = (Inr x, w')"
  shows "\<exists>vals. Print line vals \<in> set (drop (length (trace w)) (trace w'))"
  using logsD [OF assms] is_print_atD by blast

lemma logs_eqD:
  assumes "logs (\<lambda>ev. ev = e) m" "m w = (Inr x, w')"
  shows "e \<in> set (drop (length (trace w)) (trace w'))"
  using logsD [OF assms] by blast

lemma trace_grows:
  assumes "run_script s w = (r, w')"
  shows "trace w' = trace w @ drop (length (trace w)) (trace w')"
  using io_invD(4) [OF io_inv_run_script assms] by auto

text \<open>
  Claim C7.  No script modifies persistent state: whatever the environment and however
  the run ends, the files and the datasets are afterwards what they were before; the
  chunk file is only ever opened with mode \<^verbatim>\<open>rb\<close> and the dataset with mode
  \<^verbatim>\<open>r\<close>.
\<close>

theorem scripts_modify_nothing:
  assumes "run_script s w = (r, w')"
  shows "files w' = files w \<and> datasets w' = datasets w
     \<and> (\<exists>new. trace w' = trace w @ new
          \<and> (\<forall>path mode. OpenFile path mode \<in> set new \<longrightarrow> mode = ''rb'')
          \<and> (\<forall>path mode. OpenDataset path mode \<in> set new \<longrightarrow> mode = ''r''))"
proof -
  from io_invD [OF io_inv_run_script assms] obtain new where
    same: "files w' = files w" "datasets w' = datasets w"
    and new: "trace w' = trace w @ new" "\<forall>ev \<in> set new. read_only_event ev"
    by blast
  have "mode = ''rb''" if "OpenFile path mode \<in> set new" for path mode
    using new(2) that by fastforce
  moreover have "mode = ''r''" if "OpenDataset path mode \<in> set new" for path mode
    using new(2) that by fastforce
  ultimately show ?thesis using same new(1) by blast
qed

theorem scripts_modify_nothing_witness:
  "fst (run_script Check_chunk world_without_dataset) = Inr ()
   \<and> files (snd (run_script Check_chunk world_without_dataset)) = files world_without_dataset
   \<and> datasets (snd (run_script Check_chunk world_without_dataset))
       = datasets world_without_dataset"
proof -
  have "fst (run_script Check_chunk world_without_dataset) = Inr ()"
    by (simp add: check_chunk_def world_without_dataset_def example_world_def example_chunk_def
        io_bind_def io_seq_def io_lift_def py_open_def py_read_def py_print_def
        struct_unpack_f_def Let_def)
  moreover have "run_script Check_chunk world_without_dataset
      = (fst (run_script Check_chunk world_without_dataset),
         snd (run_script Check_chunk world_without_dataset))"
    by simp
  ultimately show ?thesis using scripts_modify_nothing by blast
qed

text \<open>
  Claim C9.  No script takes command-line input.  Two runs of a script in environments
  that differ only in the command line end the same way and print the same lines; the
  only paths opened are the two that the scripts hold as literals.
\<close>

theorem output_independent_of_command_line:
  assumes "run_script s (w\<lparr>argv := a\<rparr>) = (ra, wa)"
    and "run_script s (w\<lparr>argv := b\<rparr>) = (rb, wb)"
  shows "ra = rb \<and> trace wa = trace wb
     \<and> (\<exists>new. trace wa = trace w @ new
          \<and> (\<forall>path mode. OpenFile path mode \<in> set new \<longrightarrow> path = chunk_path)
          \<and> (\<forall>path mode. OpenDataset path mode \<in> set new \<longrightarrow> path = nc_path))"
proof -
  obtain r w' where run: "run_script s w = (r, w')" by (cases "run_script s w")
  have indep: "run_script s (w\<lparr>argv := a\<rparr>) = (r, w'\<lparr>argv := a\<rparr>)" for a
    using argv_run_script [of s] run by (simp add: argv_indep_def)
  from indep [of a] assms(1) have 1: "ra = r" "wa = w'\<lparr>argv := a\<rparr>" by simp_all
  from indep [of b] assms(2) have 2: "rb = r" "wb = w'\<lparr>argv := b\<rparr>" by simp_all
  from io_invD(4) [OF io_inv_run_script run] obtain new where
    new: "trace w' = trace w @ new" "\<forall>ev \<in> set new. read_only_event ev"
    by blast
  have "path = chunk_path" if "OpenFile path mode \<in> set new" for path mode
    using new(2) that by fastforce
  moreover have "path = nc_path" if "OpenDataset path mode \<in> set new" for path mode
    using new(2) that by fastforce
  ultimately show ?thesis using 1 2 new(1) by auto
qed

theorem output_independent_of_command_line_witness:
  "fst (run_script Check_chunk (world_without_dataset\<lparr>argv := [''--chunk'', ''other.bin'']\<rparr>))
     = fst (run_script Check_chunk (world_without_dataset\<lparr>argv := []\<rparr>))
   \<and> trace (snd (run_script Check_chunk
                    (world_without_dataset\<lparr>argv := [''--chunk'', ''other.bin'']\<rparr>)))
     = trace (snd (run_script Check_chunk (world_without_dataset\<lparr>argv := []\<rparr>)))"
  using output_independent_of_command_line
    [where s = Check_chunk and w = world_without_dataset
       and a = "[''--chunk'', ''other.bin'']" and b = "[]",
     OF prod.collapse [symmetric] prod.collapse [symmetric]]
  by blast


section \<open>Which script uses which data source\<close>

lemma groups4_Nil_iff: "groups4 xs = [] \<longleftrightarrow> length xs div 4 = 0"
  by (metis length_groups4 length_0_conv)

lemmas io_defs = io_bind_def io_seq_def io_lift_def io_return_def io_when_def py_open_def
  py_read_def py_print_def nc_Dataset_def nc_close_def Let_def

lemmas example_defs = example_world_def example_chunk_def example_dataset_def example_tx_def
  example_coordinate_def world_without_chunk_def world_without_dataset_def

lemmas library_defs = get_variable_def getattr_def hasattr_def nc_getitem_def ma_getitem_def
  getitem_core_def read_coordinate_def ma_list_def struct_unpack_f_def py_slice_def
  length_groups4 groups4_Nil_iff argmin_abs_diff_def py_nth_def compare_chunk_ts_def
  chunk_offset_def num_days_def py_truediv_def List.map_filter_def np_min_def np_max_def
  missing_count_of_def not_nan_elements_def all_indices_def np_isnan_def coord_index_def

lemma check_chunk_example_run: "fst (run_script Check_chunk world_without_dataset) = Inr ()"
  by (simp add: check_chunk_def io_defs example_defs library_defs)

lemma diagnose_example_run: "fst (run_script Diagnose_netcdf world_without_chunk) = Inr ()"
  by (simp add: diagnose_netcdf_def diagnose_info_def diagnose_first_slice_def
      diagnose_middle_slice_def diagnose_location_def io_defs example_defs library_defs)

lemma compare_example_run: "fst (run_script Compare_netcdf_chunk example_world) = Inr ()"
  by (simp add: compare_netcdf_chunk_def compare_open_netcdf_def compare_open_chunk_def
      compare_coordinate_0_def compare_central_europe_def compare_overall_def
      io_defs example_defs library_defs)

lemma no_dataset_in_check_chunk: "io_inv (\<lambda>ev. \<not> is_open_dataset ev) check_chunk"
  by (rule io_inv_check_chunk) simp_all

lemma no_file_in_diagnose: "io_inv (\<lambda>ev. \<not> is_open_file ev) diagnose_netcdf"
  by (rule io_inv_diagnose_netcdf) simp_all




section \<open>Properties of the rounding\<close>

lemma halvings_spec:
  "1 \<le> x \<Longrightarrow> 0 \<le> halvings x \<and> 2 powi halvings x \<le> x \<and> x < 2 powi (halvings x + 1)"
proof (induction x rule: halvings.induct)
  case (1 x)
  show ?case
  proof (cases "x < 2")
    case True
    with 1(2) show ?thesis by (simp add: halvings.simps [of x])
  next
    case False
    then have h: "1 \<le> x / 2" by simp
    from 1(1) [OF False h]
    have ih: "0 \<le> halvings (x / 2)" "2 powi halvings (x / 2) \<le> x / 2"
      "x / 2 < 2 powi (halvings (x / 2) + 1)" by simp_all
    have eq: "halvings x = 1 + halvings (x / 2)" using False by (simp add: halvings.simps [of x])
    have "(2::real) powi (1 + halvings (x / 2)) = 2 * 2 powi halvings (x / 2)"
      by (simp add: power_int_add)
    moreover have "(2::real) powi (1 + halvings (x / 2) + 1) = 2 * 2 powi (halvings (x / 2) + 1)"
      by (simp add: power_int_add)
    ultimately show ?thesis using ih eq by simp
  qed
qed

lemma doublings_spec:
  "0 < x \<Longrightarrow> x < 1 \<Longrightarrow>
     2 powi (- doublings x) \<le> x \<and> x < 2 powi (- doublings x + 1)"
proof (induction x rule: doublings.induct)
  case (1 x)
  have eq: "doublings x = 1 + doublings (2 * x)"
    using 1(2,3) by (simp add: doublings.simps [of x])
  have c: "\<not> (1 \<le> x \<or> x \<le> 0)" using 1(2,3) by simp
  show ?case
  proof (cases "2 * x < 1")
    case True
    from 1(1) [OF c _ True] 1(2)
    have ih: "2 powi (- doublings (2 * x)) \<le> 2 * x"
      "2 * x < 2 powi (- doublings (2 * x) + 1)" by simp_all
    have "(2::real) powi (1 + (- (1 + doublings (2 * x)))) = 2 powi 1 * 2 powi (- (1 + doublings (2 * x)))"
      by (rule power_int_add) simp
    then have a: "(2::real) powi (- doublings (2 * x)) = 2 * 2 powi (- (1 + doublings (2 * x)))"
      by simp
    have "(2::real) powi (1 + (- (1 + doublings (2 * x)) + 1)) = 2 powi 1 * 2 powi (- (1 + doublings (2 * x)) + 1)"
      by (rule power_int_add) simp
    then have b: "(2::real) powi (- doublings (2 * x) + 1) = 2 * 2 powi (- (1 + doublings (2 * x)) + 1)"
      by simp
    show ?thesis using ih unfolding eq a b by simp
  next
    case False
    then have "doublings (2 * x) = 0" by (simp add: doublings.simps [of "2 * x"])
    then have "doublings x = 1" using eq by simp
    then show ?thesis using False 1(3) by (simp add: power_int_minus)
  qed
qed

lemma ilog2_spec:
  assumes "0 < x"
  shows "2 powi ilog2 x \<le> x" and "x < 2 powi (ilog2 x + 1)"
proof -
  have "2 powi ilog2 x \<le> x \<and> x < 2 powi (ilog2 x + 1)"
  proof (cases "1 \<le> x")
    case True
    then show ?thesis using halvings_spec [of x] by (simp add: ilog2_def)
  next
    case False
    then show ?thesis using doublings_spec [of x] assms by (simp add: ilog2_def)
  qed
  then show "2 powi ilog2 x \<le> x" and "x < 2 powi (ilog2 x + 1)" by simp_all
qed

lemma pow2_mono: "a \<le> b \<Longrightarrow> (2::real) powi a \<le> 2 powi b"
  by (rule power_int_increasing) simp_all

lemma pow2_less_imp: "(2::real) powi a < 2 powi b \<Longrightarrow> a < b"
  using pow2_mono [of b a] by (cases "a < b") simp_all

lemma pow2_add: "(2::real) powi (a + b) = 2 powi a * 2 powi b"
  by (rule power_int_add) simp

lemma ilog2_ge:
  assumes "2 powi k \<le> x"
  shows "k \<le> ilog2 x"
proof -
  have "(0::real) < 2 powi k" by simp
  then have pos: "0 < x" using assms by linarith
  have "(2::real) powi k < 2 powi (ilog2 x + 1)"
    using assms ilog2_spec(2) [OF pos] by linarith
  then have "k < ilog2 x + 1" by (rule pow2_less_imp)
  then show ?thesis by simp
qed

lemma ilog2_le:
  assumes "0 < x" and "x < 2 powi (k + 1)"
  shows "ilog2 x \<le> k"
proof -
  have "(2::real) powi ilog2 x < 2 powi (k + 1)"
    using assms ilog2_spec(1) [OF assms(1)] by linarith
  then have "ilog2 x < k + 1" by (rule pow2_less_imp)
  then show ?thesis by simp
qed

lemma ilog2_eq:
  assumes "2 powi k \<le> x" and "x < 2 powi (k + 1)"
  shows "ilog2 x = k"
proof -
  have "(0::real) < 2 powi k" by simp
  then have pos: "0 < x" using assms(1) by linarith
  from ilog2_ge [OF assms(1)] ilog2_le [OF pos assms(2)] show ?thesis by simp
qed

lemma round_half_even_of_int [simp]: "round_half_even (of_int n) = n"
  by (simp add: round_half_even_def)

lemma round_half_even_ge:
  assumes "of_int m \<le> x"
  shows "m \<le> round_half_even x"
proof -
  have "m \<le> \<lfloor>x\<rfloor>" using assms by (simp add: le_floor_iff)
  then show ?thesis by (simp add: round_half_even_def Let_def)
qed

lemma round_half_even_le:
  assumes "x \<le> of_int m"
  shows "round_half_even x \<le> m"
proof (cases "x = of_int m")
  case True
  then show ?thesis by simp
next
  case False
  then have "x < of_int m" using assms by simp
  then have "\<lfloor>x\<rfloor> < m" by (simp add: floor_less_iff)
  then show ?thesis by (simp add: round_half_even_def Let_def)
qed

lemma pow2_le_imp: "(2::real) powi a \<le> 2 powi b \<Longrightarrow> a \<le> b"
proof (rule ccontr)
  assume le: "(2::real) powi a \<le> 2 powi b" and "\<not> a \<le> b"
  then have "b < a" by simp
  then have "(2::real) powi b < 2 powi a" by (rule power_int_strict_increasing) simp
  with le show False by simp
qed

lemma pow2_nonneg_exponent: "0 \<le> n \<Longrightarrow> (2::real) powi n = of_int (2 ^ nat n)"
  by (simp add: power_int_def)

lemma round_to_format_abs:
  assumes "x \<noteq> 0"
  shows "\<bar>round_to_format p emin x\<bar> =
     of_int (round_half_even (\<bar>x\<bar> / 2 powi (max (ilog2 \<bar>x\<bar>) emin - (int p - 1))))
       * 2 powi (max (ilog2 \<bar>x\<bar>) emin - (int p - 1))"
proof -
  define q :: real where "q = 2 powi (max (ilog2 \<bar>x\<bar>) emin - (int p - 1))"
  have q: "0 < q" by (simp add: q_def)
  have "0 \<le> \<bar>x\<bar> / q" using q by simp
  then have "of_int 0 \<le> \<bar>x\<bar> / q" by simp
  then have "0 \<le> round_half_even (\<bar>x\<bar> / q)" by (rule round_half_even_ge)
  then have n: "(0::real) \<le> of_int (round_half_even (\<bar>x\<bar> / q)) * q" using q by simp
  have "round_to_format p emin x = sgn x * (of_int (round_half_even (\<bar>x\<bar> / q)) * q)"
    using assms by (simp add: round_to_format_def Let_def q_def)
  then have "\<bar>round_to_format p emin x\<bar> = \<bar>sgn x\<bar> * \<bar>of_int (round_half_even (\<bar>x\<bar> / q)) * q\<bar>"
    by (simp only: abs_mult)
  also have "\<dots> = of_int (round_half_even (\<bar>x\<bar> / q)) * q"
    using assms n by (simp only: abs_sgn_eq abs_of_nonneg) simp
  finally show ?thesis by (simp only: q_def)
qed

lemma round_to_format_lower:
  assumes "emin \<le> k" and "2 powi k \<le> \<bar>x\<bar>" and "0 < p"
  shows "2 powi k \<le> \<bar>round_to_format p emin x\<bar>"
proof -
  have "(0::real) < 2 powi k" by simp
  then have "0 < \<bar>x\<bar>" using assms(2) by linarith
  then have x: "x \<noteq> 0" by simp
  define e where "e = ilog2 \<bar>x\<bar>"
  have ke: "k \<le> e" unfolding e_def using assms(2) by (rule ilog2_ge)
  then have m: "max e emin = e" using assms(1) by simp
  define q :: real where "q = 2 powi (e - (int p - 1))"
  have q: "0 < q" by (simp add: q_def)
  have "(2::real) powi ((int p - 1) + (e - (int p - 1))) = 2 powi (int p - 1) * q"
    unfolding q_def by (rule pow2_add)
  then have split: "(2::real) powi e = of_int (2 ^ nat (int p - 1)) * q"
    using assms(3) by (simp add: pow2_nonneg_exponent)
  have "2 powi e \<le> \<bar>x\<bar>" unfolding e_def using x by (intro ilog2_spec(1)) simp
  then have "of_int (2 ^ nat (int p - 1)) * q \<le> \<bar>x\<bar>" using split by simp
  then have "of_int (2 ^ nat (int p - 1)) \<le> \<bar>x\<bar> / q" using q by (simp add: pos_le_divide_eq)
  then have "2 ^ nat (int p - 1) \<le> round_half_even (\<bar>x\<bar> / q)" by (rule round_half_even_ge)
  then have "(of_int (2 ^ nat (int p - 1)) :: real) \<le> of_int (round_half_even (\<bar>x\<bar> / q))"
    by (simp only: of_int_le_iff)
  then have "of_int (2 ^ nat (int p - 1)) * q \<le> of_int (round_half_even (\<bar>x\<bar> / q)) * q"
    using q by (simp only: mult_le_cancel_right_pos)
  then have "2 powi e \<le> of_int (round_half_even (\<bar>x\<bar> / q)) * q" using split by simp
  moreover have "(2::real) powi k \<le> 2 powi e" using ke by (rule pow2_mono)
  moreover have "\<bar>round_to_format p emin x\<bar> = of_int (round_half_even (\<bar>x\<bar> / q)) * q"
    using round_to_format_abs [OF x, of p emin] unfolding q_def e_def [symmetric] m by simp
  ultimately show ?thesis by linarith
qed

lemma round_to_format_upper:
  assumes "emin \<le> k" and "\<bar>x\<bar> \<le> 2 powi k" and "0 < p"
  shows "\<bar>round_to_format p emin x\<bar> \<le> 2 powi k"
proof (cases "x = 0")
  case True
  then show ?thesis by (simp add: round_to_format_def)
next
  case x: False
  define e where "e = max (ilog2 \<bar>x\<bar>) emin"
  have "2 powi ilog2 \<bar>x\<bar> \<le> \<bar>x\<bar>" using x by (intro ilog2_spec(1)) simp
  then have "(2::real) powi ilog2 \<bar>x\<bar> \<le> 2 powi k" using assms(2) by linarith
  then have "ilog2 \<bar>x\<bar> \<le> k" by (rule pow2_le_imp)
  then have ek: "e \<le> k" unfolding e_def using assms(1) by simp
  define q :: real where "q = 2 powi (e - (int p - 1))"
  have q: "0 < q" by (simp add: q_def)
  define n where "n = k - e + (int p - 1)"
  have n: "0 \<le> n" unfolding n_def using ek assms(3) by simp
  have "(2::real) powi (n + (e - (int p - 1))) = 2 powi n * q"
    unfolding q_def by (rule pow2_add)
  moreover have "n + (e - (int p - 1)) = k" by (simp add: n_def)
  ultimately have split: "(2::real) powi k = of_int (2 ^ nat n) * q"
    using n by (simp add: pow2_nonneg_exponent)
  have "\<bar>x\<bar> \<le> of_int (2 ^ nat n) * q" using assms(2) split by simp
  then have "\<bar>x\<bar> / q \<le> of_int (2 ^ nat n)" using q by (simp add: pos_divide_le_eq)
  then have "round_half_even (\<bar>x\<bar> / q) \<le> 2 ^ nat n" by (rule round_half_even_le)
  then have "(of_int (round_half_even (\<bar>x\<bar> / q)) :: real) \<le> of_int (2 ^ nat n)"
    by (simp only: of_int_le_iff)
  then have "of_int (round_half_even (\<bar>x\<bar> / q)) * q \<le> of_int (2 ^ nat n) * q"
    using q by (simp only: mult_le_cancel_right_pos)
  moreover have "\<bar>round_to_format p emin x\<bar> = of_int (round_half_even (\<bar>x\<bar> / q)) * q"
    using round_to_format_abs [OF x, of p emin] unfolding q_def e_def by simp
  ultimately show ?thesis using split by linarith
qed

lemma round_to_format_exact:
  assumes "x \<noteq> 0"
    and "x = of_int j * 2 powi (max (ilog2 \<bar>x\<bar>) emin - (int p - 1))"
  shows "round_to_format p emin x = x"
proof -
  define q :: real where "q = 2 powi (max (ilog2 \<bar>x\<bar>) emin - (int p - 1))"
  have q: "0 < q" by (simp add: q_def)
  have xj: "x = of_int j * q" using assms(2) by (simp only: q_def)
  then have "\<bar>x\<bar> = of_int \<bar>j\<bar> * q" using q by (simp add: abs_mult)
  then have "\<bar>x\<bar> / q = of_int \<bar>j\<bar>" using q by simp
  then have "round_half_even (\<bar>x\<bar> / q) = \<bar>j\<bar>" by (simp only: round_half_even_of_int)
  then have "round_to_format p emin x = sgn x * (of_int \<bar>j\<bar> * q)"
    using assms(1) by (simp add: round_to_format_def Let_def q_def)
  also have "of_int \<bar>j\<bar> * q = \<bar>x\<bar>" using \<open>\<bar>x\<bar> = of_int \<bar>j\<bar> * q\<close> by simp
  also have "sgn x * \<bar>x\<bar> = x" by (simp add: sgn_mult_abs)
  finally show ?thesis .
qed

section \<open>Properties of the counts\<close>

lemma literal_99_99: "literal 99.99 = 7036170730324623 / 2 ^ 46"
  by code_simp

lemma literal_0_01: "literal 0.01 = 5764607523034235 / 2 ^ 59"
  by code_simp

text \<open>A float32 of magnitude between 64 and 128 is a multiple of \<open>2 ^ -17\<close>.\<close>

lemma f32_binade_64:
  assumes v: "f32_of_bits n = Fin x" and lo: "64 \<le> \<bar>x\<bar>" and hi: "\<bar>x\<bar> < 128"
  shows "\<exists>j::int. x = of_int j / 2 ^ 17"
proof -
  define s where "s = n div 2 ^ 31"
  define e where "e = (n div 2 ^ 23) mod 2 ^ 8"
  define m where "m = n mod 2 ^ 23"
  define sg :: real where "sg = (if s = 0 then 1 else - 1)"
  have m: "m < 2 ^ 23" by (simp add: m_def)
  have mr: "real m < 2 ^ 23" using m by (simp only: of_nat_less_iff [symmetric, where 'a = real]) simp
  have sg: "\<bar>sg\<bar> = 1" by (simp add: sg_def)
  have e255: "e \<noteq> 255" using v unfolding f32_of_bits_def Let_def e_def
    by (auto split: if_splits)
  show ?thesis
  proof (cases "e = 0")
    case True
    then have "x = sg * (real m / 2 ^ 149)"
      using v unfolding f32_of_bits_def Let_def e_def m_def s_def sg_def by (simp split: if_splits)
    then have "\<bar>x\<bar> = \<bar>sg\<bar> * \<bar>real m / 2 ^ 149\<bar>" by (simp only: abs_mult)
    then have "\<bar>x\<bar> = real m / 2 ^ 149" unfolding sg by simp
    moreover have "real m / 2 ^ 149 < 64" using mr by (simp add: field_simps)
    ultimately show ?thesis using lo by simp
  next
    case e0: False
    show ?thesis
    proof (cases "150 \<le> e")
      case True
      then have "x = sg * (real (2 ^ 23 + m) * 2 ^ (e - 150))"
        using v e0 e255 unfolding f32_of_bits_def Let_def e_def m_def s_def sg_def
        by (simp split: if_splits)
      then have "\<bar>x\<bar> = \<bar>sg\<bar> * \<bar>real (2 ^ 23 + m) * 2 ^ (e - 150)\<bar>" by (simp only: abs_mult)
      then have "\<bar>x\<bar> = real (2 ^ 23 + m) * 2 ^ (e - 150)" unfolding sg by simp
      moreover have "(1::real) \<le> 2 ^ (e - 150)" by simp
      moreover have "(2::real) ^ 23 \<le> real (2 ^ 23 + m)" by simp
      ultimately have "(2::real) ^ 23 * 1 \<le> \<bar>x\<bar>"
        by (simp only: mult_mono zero_le_numeral zero_le_power zero_le_one)
      then show ?thesis using hi by simp
    next
      case False
      define k where "k = 150 - e"
      have x: "x = sg * (real (2 ^ 23 + m) / 2 ^ k)"
        using v e0 e255 False unfolding f32_of_bits_def Let_def e_def m_def s_def sg_def k_def
        by (simp split: if_splits)
      then have "\<bar>x\<bar> = \<bar>sg\<bar> * \<bar>real (2 ^ 23 + m) / 2 ^ k\<bar>" by (simp only: abs_mult)
      then have ax: "\<bar>x\<bar> = real (2 ^ 23 + m) / 2 ^ k" unfolding sg by simp
      have a1: "64 * (2::real) ^ k \<le> real (2 ^ 23 + m)"
        using lo unfolding ax by (simp add: pos_le_divide_eq)
      have a2: "real (2 ^ 23 + m) < 128 * (2::real) ^ k"
        using hi unfolding ax by (simp add: pos_divide_less_eq)
      have "k = 17"
      proof (rule ccontr)
        assume "k \<noteq> 17"
        then consider "k \<le> 16" | "18 \<le> k" by linarith
        then show False
        proof cases
          case 1
          then have "(2::real) ^ k \<le> 2 ^ 16" by (intro power_increasing) simp_all
          then show False using a2 by simp
        next
          case 2
          then have "(2::real) ^ 18 \<le> 2 ^ k" by (intro power_increasing) simp_all
          then show False using a1 mr by simp
        qed
      qed
      then have "x = sg * (real (2 ^ 23 + m) / 2 ^ 17)" using x by simp
      then have "x = of_int (if s = 0 then int (2 ^ 23 + m) else - int (2 ^ 23 + m)) / 2 ^ 17"
        by (simp add: sg_def)
      then show ?thesis by blast
    qed
  qed
qed

text \<open>
  The double sum \<^verbatim>\<open>v + 99.99\<close> of a float32 \<open>v\<close> never has the magnitude of the
  double \<^verbatim>\<open>0.01\<close>: a sum of that size is computed without rounding, and it is a
  multiple of \<open>2 ^ -46\<close>, which the double \<^verbatim>\<open>0.01\<close> is not.
\<close>

lemma threshold_never_hit:
  assumes v: "f32_of_bits n = Fin x"
  shows "py_abs (float64 (x + literal 99.99)) \<noteq> Fin (literal 0.01)"
proof -
  define y where "y = x + 7036170730324623 / 2 ^ 46"
  define r where "r = round_to_format 53 (- 1022) y"
  have f: "float64 y = (if 2 powi 1024 \<le> \<bar>r\<bar> then (if 0 < y then PInf else NInf) else Fin r)"
    by (simp add: float64_def ieee_round_def r_def)
  have p7: "(2::real) powi (- 7) = 1 / 128" by (simp add: power_int_minus field_simps)
  have p6: "(2::real) powi (- 6) = 1 / 64" by (simp add: power_int_minus field_simps)
  have big: "(1::real) \<le> 2 powi 1024" by simp
  have "py_abs (float64 y) \<noteq> Fin (5764607523034235 / 2 ^ 59)"
  proof -
    consider "\<bar>y\<bar> \<le> 2 powi (- 7)" | "2 powi (- 6) \<le> \<bar>y\<bar>"
      | "2 powi (- 7) \<le> \<bar>y\<bar>" "\<bar>y\<bar> < 2 powi (- 7 + 1)"
      by (cases "\<bar>y\<bar> \<le> 2 powi (- 7)"; cases "2 powi (- 6) \<le> \<bar>y\<bar>") simp_all
    then show ?thesis
    proof cases
      case 1
      have "\<bar>r\<bar> \<le> 2 powi (- 7)"
        unfolding r_def using 1 by (intro round_to_format_upper) simp_all
      then have le: "\<bar>r\<bar> \<le> 1 / 128" by (simp only: p7)
      then have "\<not> 2 powi 1024 \<le> \<bar>r\<bar>" using big by linarith
      then have "py_abs (float64 y) = Fin \<bar>r\<bar>" by (simp add: f)
      then show ?thesis using le by simp
    next
      case 2
      have "2 powi (- 6) \<le> \<bar>r\<bar>"
        unfolding r_def using 2 by (intro round_to_format_lower) simp_all
      then have ge: "1 / 64 \<le> \<bar>r\<bar>" by (simp only: p6)
      have "py_abs (float64 y) = PInf \<or> py_abs (float64 y) = Fin \<bar>r\<bar>" by (simp add: f)
      then show ?thesis using ge by auto
    next
      case 3
      then have lo: "1 / 128 \<le> \<bar>y\<bar>" and hi: "\<bar>y\<bar> < 1 / 64" by (simp_all add: p7 p6)
      have e: "ilog2 \<bar>y\<bar> = - 7" using 3 by (rule ilog2_eq)
      have "64 \<le> \<bar>x\<bar>" and "\<bar>x\<bar> < 128" using hi unfolding y_def by (simp_all add: abs_if split: if_splits)
      with v obtain j :: int where j: "x = of_int j / 2 ^ 17" using f32_binade_64 by blast
      define J where "J = (j * 2 ^ 29 + 7036170730324623) * 2 ^ 13"
      have yJ: "y = of_int J * 2 powi (- 59)"
        unfolding y_def j J_def by (simp add: power_int_minus field_simps)
      have y0: "y \<noteq> 0" using lo by auto
      have "y = of_int J * 2 powi (max (ilog2 \<bar>y\<bar>) (- 1022) - (int 53 - 1))"
        using yJ unfolding e by simp
      with y0 have "round_to_format 53 (- 1022) y = y" by (rule round_to_format_exact)
      then have ry: "r = y" by (simp only: r_def)
      have "\<not> 2 powi 1024 \<le> \<bar>r\<bar>" using big hi unfolding ry by linarith
      then have a: "py_abs (float64 y) = Fin \<bar>y\<bar>" by (simp add: f ry)
      have "\<bar>y\<bar> \<noteq> 5764607523034235 / 2 ^ 59"
      proof
        assume "\<bar>y\<bar> = 5764607523034235 / 2 ^ 59"
        then have "\<bar>of_int J * 2 powi (- 59)\<bar> = (5764607523034235 / 2 ^ 59 :: real)"
          by (simp only: yJ)
        then have "(of_int \<bar>J\<bar> :: real) = of_int 5764607523034235"
          by (simp add: abs_mult power_int_minus field_simps)
        then have "\<bar>J\<bar> = 5764607523034235" by (simp only: of_int_eq_iff)
        moreover have "even \<bar>J\<bar>" unfolding J_def by simp
        moreover have "odd (5764607523034235 :: int)" by simp
        ultimately show False by simp
      qed
      then show ?thesis using a by simp
    qed
  qed
  then show ?thesis unfolding literal_99_99 literal_0_01 y_def .
qed

lemma float64_not_NaN: "float64 y \<noteq> NaN"
  by (simp add: float64_def ieee_round_def Let_def)

lemma count_step:
  assumes "v = f32_of_bits n"
  shows "(if py_lt (py_abs (float_add v (literal 99.99))) (literal 0.01) then 1 else 0)
     + (if py_ne v v then 1 else 0)
     + (if py_eq v v \<and> py_gt (py_abs (float_add v (literal 99.99))) (literal 0.01) then 1 else 0)
     = (1::nat)"
proof (cases v)
  case (Fin x)
  then have "f32_of_bits n = Fin x" using assms by simp
  then have ne: "py_abs (float64 (x + literal 99.99)) \<noteq> Fin (literal 0.01)"
    by (rule threshold_never_hit)
  show ?thesis
  proof (cases "float64 (x + literal 99.99)")
    case (Fin r)
    then have "\<bar>r\<bar> \<noteq> literal 0.01" using ne by simp
    then show ?thesis using Fin \<open>v = Fin x\<close> by (auto simp: py_ne_def)
  next
    case PInf
    then show ?thesis using \<open>v = Fin x\<close> by (simp add: py_ne_def)
  next
    case NInf
    then show ?thesis using \<open>v = Fin x\<close> by (simp add: py_ne_def)
  next
    case NaN
    then show ?thesis using float64_not_NaN by blast
  qed
qed (simp_all add: py_ne_def)

lemma filter_partition3:
  assumes "\<And>v. v \<in> set xs \<Longrightarrow>
     (if A v then 1 else 0) + (if B v then 1 else 0) + (if C v then 1 else 0) = (1::nat)"
  shows "length (filter A xs) + length (filter B xs) + length (filter C xs) = length xs"
  using assms
proof (induction xs)
  case Nil
  show ?case by simp
next
  case (Cons v xs)
  have "length (filter A xs) + length (filter B xs) + length (filter C xs) = length xs"
    by (rule Cons.IH) (simp add: Cons.prems)
  moreover have "(if A v then 1 else 0) + (if B v then 1 else 0) + (if C v then 1 else 0) = (1::nat)"
    by (rule Cons.prems) simp
  ultimately show ?case by (simp split: if_splits)
qed

lemma groups4_elements: "g \<in> set (groups4 xs) \<Longrightarrow> \<exists>a b c d. g = [a, b, c, d]"
  by (induction xs rule: groups4.induct) auto

lemma unpacked_is_float32:
  assumes "struct_unpack_f n data = Inr vals" and "v \<in> set vals"
  shows "\<exists>bits. v = f32_of_bits bits"
proof -
  from assms(1) have "vals = map f32_le (groups4 data)"
    by (simp add: struct_unpack_f_def split: if_splits)
  with assms(2) obtain g where g: "g \<in> set (groups4 data)" and v: "v = f32_le g" by auto
  from groups4_elements [OF g] obtain a b c d where "g = [a, b, c, d]" by blast
  then show ?thesis using v by auto
qed

text \<open>
  Claim C10, as refuted: the float32 value \<open>-100.0\<close>, the four bytes
  \<open>00 00 C8 C2\<close>, lies on the threshold in exact arithmetic,
  \<open>\<bar>-100 + 99.99\<bar> = 0.01\<close>, and the claim has it counted in no category.  The code
  counts it valid: the double \<^verbatim>\<open>99.99\<close> is a little less than \<open>99.99\<close>, the double
  \<^verbatim>\<open>0.01\<close> a little more than \<open>0.01\<close>, and the sum of the three counts is the length
  of the list.
\<close>

theorem threshold_value_is_counted_valid:
  "struct_unpack_f 1 [0, 0, 0xC8, 0xC2] = Inr [Fin (- 100)]
   \<and> \<bar>- 100 + 99.99\<bar> = (0.01::real)
   \<and> count_missing [Fin (- 100)] = 0 \<and> count_nan [Fin (- 100)] = 0
   \<and> count_valid [Fin (- 100)] = 1
   \<and> \<not> count_missing [Fin (- 100)] + count_nan [Fin (- 100)] + count_valid [Fin (- 100)]
        < length [Fin (- 100)]"
proof -
  have u: "struct_unpack_f 1 [0, 0, 0xC8, 0xC2] = Inr [Fin (- 100)]"
    by (simp add: struct_unpack_f_def f32_of_bits_def)
  have e: "\<bar>- 100 + 99.99\<bar> = (0.01::real)" by simp
  have m: "count_missing [Fin (- 100)] = 0" by code_simp
  have n: "count_nan [Fin (- 100)] = 0" by code_simp
  have w: "count_valid [Fin (- 100)] = 1" by code_simp
  show ?thesis using u e m n w by simp
qed

text \<open>
  Claim C10, as it holds of the code.  The three counts printed by check\_chunk.py
  partition the values unpacked from the file: for every buffer that
  \<^verbatim>\<open>struct.unpack\<close> accepts, the counts of missing, NaN and valid values add up to the
  number of values.  (No value is counted twice, since the three conditions exclude
  each other, so every value is counted exactly once.)
\<close>

theorem check_chunk_counts_partition:
  assumes "struct_unpack_f n data = Inr vals"
  shows "count_missing vals + count_nan vals + count_valid vals = length vals"
  unfolding count_missing_def count_nan_def count_valid_def
proof (rule filter_partition3)
  fix v
  assume "v \<in> set vals"
  with assms obtain bits where "v = f32_of_bits bits" using unpacked_is_float32 by blast
  then show "(if py_lt (py_abs (float_add v (literal 99.99))) (literal 0.01) then 1 else 0)
     + (if py_ne v v then 1 else 0)
     + (if py_eq v v \<and> py_gt (py_abs (float_add v (literal 99.99))) (literal 0.01) then 1 else 0)
     = (1::nat)"
    by (rule count_step)
qed

theorem check_chunk_counts_partition_witness:
  "struct_unpack_f 3 [0xE1, 0xFA, 0xC7, 0xC2, 0, 0, 0xC0, 0x7F, 0, 0, 0x48, 0x41]
     = Inr [Fin (- (13105889 / 2 ^ 17)), NaN, Fin (25 / 2)]
   \<and> count_missing [Fin (- (13105889 / 2 ^ 17)), NaN, Fin (25 / 2)]
       + count_nan [Fin (- (13105889 / 2 ^ 17)), NaN, Fin (25 / 2)]
       + count_valid [Fin (- (13105889 / 2 ^ 17)), NaN, Fin (25 / 2)] = 3"
proof -
  have u: "struct_unpack_f 3 [0xE1, 0xFA, 0xC7, 0xC2, 0, 0, 0xC0, 0x7F, 0, 0, 0x48, 0x41]
     = Inr [Fin (- (13105889 / 2 ^ 17)), NaN, Fin (25 / 2)]"
    by (simp add: struct_unpack_f_def f32_of_bits_def)
  from check_chunk_counts_partition [OF u] u show ?thesis by simp
qed

end
